theory Spec2Isabelle
  imports Main "HOL-Library.Word"
begin

unbundle bit_operations_syntax

section \<open>Machine types of crypto/ec/p256-x86_64.c\<close>

text \<open>
  The file is compiled for x86-64 only, so \<open>BN_ULONG\<close> is a 64-bit limb,
  \<open>BN_BYTES = 8\<close> and \<open>P256_LIMBS = 4\<close>. \<open>unsigned\<close> is 32 bits wide.
\<close>

type_synonym BN_ULONG = "64 word"
type_synonym unsigned = "32 word"
type_synonym uint8_t = "8 word"

definition P256_LIMBS :: nat where
  "P256_LIMBS = 256 div 64"

section \<open>Booth recoding\<close>

text \<open>\<open>booth_recode_w5\<close> and \<open>booth_recode_w7\<close>, statement by statement.\<close>

definition booth_recode_w5 :: "unsigned \<Rightarrow> unsigned" where
  "booth_recode_w5 in' =
     (let s = NOT (drop_bit 5 in' - 1);
          d = push_bit 6 1 - in' - 1;
          d = (d AND s) OR (in' AND NOT s);
          d = drop_bit 1 d + (d AND 1)
      in push_bit 1 d + (s AND 1))"

definition booth_recode_w7 :: "unsigned \<Rightarrow> unsigned" where
  "booth_recode_w7 in' =
     (let s = NOT (drop_bit 7 in' - 1);
          d = push_bit 8 1 - in' - 1;
          d = (d AND s) OR (in' AND NOT s);
          d = drop_bit 1 d + (d AND 1)
      in push_bit 1 d + (s AND 1))"

text \<open>
  The callers split a recoded value into the table index \<open>wvalue >> 1\<close> and the sign
  flag \<open>wvalue & 1\<close>.
\<close>

definition booth_index :: "unsigned \<Rightarrow> unsigned" where
  "booth_index wvalue = drop_bit 1 wvalue"

definition booth_sign :: "unsigned \<Rightarrow> unsigned" where
  "booth_sign wvalue = wvalue AND 1"

text \<open>The signed digit a recoded value stands for: the magnitude, negated when the sign is set.\<close>

definition booth_digit :: "unsigned \<Rightarrow> int" where
  "booth_digit wvalue =
     (if booth_sign wvalue = 0 then int (unat (booth_index wvalue))
      else - int (unat (booth_index wvalue)))"

text \<open>
  The recoding as the specification words it, on numbers: for a \<open>(w+1)\<close>-bit \<open>v\<close>
  the sign is the top bit, the magnitude is \<open>v\<close> (complemented within \<open>w+1\<close> bits when
  the sign is set) halved with rounding. The result is the pair (sign, magnitude).
\<close>

definition booth_spec :: "nat \<Rightarrow> nat \<Rightarrow> nat \<times> nat" where
  "booth_spec w v =
     (let s = v div 2 ^ w;
          d = (if s = 1 then 2 ^ (w + 1) - 1 - v else v)
      in (s, d div 2 + d mod 2))"

section \<open>Serialized scalars and their windows\<close>

text \<open>
  A \<open>BIGNUM\<close>: the limbs \<open>d[0 .. top-1]\<close> that are in use, least significant first, and
  the sign flag. \<open>top\<close> is the number of limbs in use.
\<close>

record BIGNUM =
  bn_d :: "BN_ULONG list"
  bn_neg :: bool

definition bn_top :: "BIGNUM \<Rightarrow> nat" where
  "bn_top a = length (bn_d a)"

fun limbs_val :: "BN_ULONG list \<Rightarrow> nat" where
  "limbs_val [] = 0"
| "limbs_val (l # ls) = unat l + 2 ^ 64 * limbs_val ls"

definition bn_val :: "BIGNUM \<Rightarrow> nat" where
  "bn_val a = limbs_val (bn_d a)"

text \<open>The eight bytes written for one limb (the body of the serialization loop).\<close>

definition limb_bytes :: "BN_ULONG \<Rightarrow> uint8_t list" where
  "limb_bytes d =
     (let b0 = ucast (d AND 0xff);
          b1 = ucast (drop_bit 8 d AND 0xff);
          b2 = ucast (drop_bit 16 d AND 0xff);
          d1 = drop_bit 24 d;
          b3 = ucast (d1 AND 0xff);
          d2 = drop_bit 8 d1;
          b4 = ucast (d2 AND 0xff);
          b5 = ucast (drop_bit 8 d2 AND 0xff);
          b6 = ucast (drop_bit 16 d2 AND 0xff);
          b7 = ucast (drop_bit 24 d2 AND 0xff)
      in [b0, b1, b2, b3, b4, b5, b6, b7])"

text \<open>
  The 33-byte buffer \<open>p_str\<close>: the limbs in little-endian byte order, then zeros. The
  buffer has room for four limbs only; the callers reduce a longer scalar first.
\<close>

definition scalar_to_p_str :: "BIGNUM \<Rightarrow> uint8_t list" where
  "scalar_to_p_str scalar =
     concat (map limb_bytes (bn_d scalar)) @ replicate (33 - 8 * bn_top scalar) 0"

fun le_val :: "uint8_t list \<Rightarrow> nat" where
  "le_val [] = 0"
| "le_val (b # bs) = unat b + 256 * le_val bs"

text \<open>Window extraction of \<open>ecp_nistz256_windowed_mul\<close> (window size 5, mask 63).\<close>

definition kMask5 :: unsigned where
  "kMask5 = push_bit (5 + 1) 1 - 1"

definition window_w5 :: "uint8_t list \<Rightarrow> nat \<Rightarrow> unsigned" where
  "window_w5 p_str index =
     (let off = (index - 1) div 8;
          wvalue = ucast (p_str ! off) OR push_bit 8 (ucast (p_str ! (off + 1)))
      in drop_bit ((index - 1) mod 8) wvalue AND kMask5)"

text \<open>The seed of the accumulator reads one byte only (\<open>index = 255\<close>).\<close>

definition first_window_w5 :: "uint8_t list \<Rightarrow> unsigned" where
  "first_window_w5 p_str =
     (let index = 255 :: nat;
          wvalue = ucast (p_str ! ((index - 1) div 8))
      in drop_bit ((index - 1) mod 8) wvalue AND kMask5)"

definition final_window_w5 :: "uint8_t list \<Rightarrow> unsigned" where
  "final_window_w5 p_str = push_bit 1 (ucast (p_str ! 0)) AND kMask5"

text \<open>Window extraction of the generator path of \<open>ecp_nistz256_points_mul\<close> (window size 7).\<close>

definition kMask7 :: unsigned where
  "kMask7 = push_bit (7 + 1) 1 - 1"

definition first_window_w7 :: "uint8_t list \<Rightarrow> unsigned" where
  "first_window_w7 p_str = push_bit 1 (ucast (p_str ! 0)) AND kMask7"

definition window_w7 :: "uint8_t list \<Rightarrow> nat \<Rightarrow> unsigned" where
  "window_w7 p_str index =
     (let off = (index - 1) div 8;
          wvalue = ucast (p_str ! off) OR push_bit 8 (ucast (p_str ! (off + 1)))
      in drop_bit ((index - 1) mod 8) wvalue AND kMask7)"

text \<open>
  The number the signed digits of a buffer add up to. The general path visits
  \<open>index = 255, 250, \<dots>, 5\<close> and then the final window; the generator path visits the
  first window and then \<open>index = 7, 14, \<dots>, 252\<close>, one table row per window.
\<close>

definition recoded_value_w5 :: "uint8_t list \<Rightarrow> int" where
  "recoded_value_w5 p_str =
     (\<Sum>j = 1..<52. booth_digit (booth_recode_w5 (window_w5 p_str (5 * j))) * 2 ^ (5 * j))
     + booth_digit (booth_recode_w5 (final_window_w5 p_str))"

definition recoded_value_w7 :: "uint8_t list \<Rightarrow> int" where
  "recoded_value_w7 p_str =
     booth_digit (booth_recode_w7 (first_window_w7 p_str))
     + (\<Sum>i = 1..<37. booth_digit (booth_recode_w7 (window_w7 p_str (7 * i))) * 2 ^ (7 * i))"

section \<open>Facts about the recoding\<close>

lemma unat_drop_bit_div: "unat (drop_bit n (w :: unsigned)) = unat w div 2 ^ n"
  by (subst unat_drop_bit_eq) (simp add: drop_bit_eq_div)

lemma sign_mask_lo:
  fixes v :: unsigned
  assumes "unat v < 2 ^ w"
  shows "NOT (drop_bit w v - 1) = 0"
proof -
  have "unat (drop_bit w v) = 0"
    using assms by (simp only: unat_drop_bit_div) simp
  then have "drop_bit w v = 0"
    by (simp add: unat_eq_zero)
  then show ?thesis by simp
qed

lemma sign_mask_hi:
  fixes v :: unsigned
  assumes "2 ^ w \<le> unat v" "unat v < 2 ^ Suc w"
  shows "NOT (drop_bit w v - 1) = - 1"
proof -
  have "unat v div 2 ^ w = 1"
    using assms by (simp add: div_nat_eqI)
  then have "unat (drop_bit w v) = unat (1 :: unsigned)"
    by (simp only: unat_drop_bit_div) simp
  then have "drop_bit w v = 1"
    by (simp only: word_unat_eq_iff)
  then show ?thesis by simp
qed

lemma round_half_unat:
  fixes d b :: unsigned
  assumes "unat d < 2 ^ 30"
  shows "unat (push_bit 1 (drop_bit 1 d + (d AND 1)) + b) =
      (2 * (unat d div 2 + unat d mod 2) + unat b) mod 2 ^ 32"
proof -
  have a: "unat (drop_bit 1 d) = unat d div 2"
    by (simp only: unat_drop_bit_div) simp
  have b: "unat (d AND 1) = unat d mod 2"
    by (simp add: and_one_eq unat_mod)
  have c: "unat (drop_bit 1 d + (d AND 1)) = unat d div 2 + unat d mod 2"
    using assms by (simp only: unat_word_ariths a b) simp
  have e: "push_bit 1 x = 2 * x" for x :: unsigned
    by (simp add: push_bit_eq_mult)
  have "unat (2 * y) = (2 * unat y) mod 2 ^ 32" for y :: unsigned
    by (simp add: unat_word_ariths)
  from this [of "drop_bit 1 d + (d AND 1)"]
  have "unat (2 * (drop_bit 1 d + (d AND 1))) = 2 * (unat d div 2 + unat d mod 2)"
    using assms unfolding c by simp
  then show ?thesis
    by (simp only: e unat_word_ariths) (simp add: mod_simps)
qed

lemma booth_w5_lo:
  assumes "unat v < 32"
  shows "unat (booth_recode_w5 v) = 2 * (unat v div 2 + unat v mod 2)"
proof -
  have s: "NOT (drop_bit 5 v - 1) = 0"
    using assms sign_mask_lo [of v 5] by simp
  have "unat v < 2 ^ 30" using assms by simp
  then have "unat (push_bit 1 (drop_bit 1 v + (v AND 1)) + 0) =
      (2 * (unat v div 2 + unat v mod 2) + unat (0::unsigned)) mod 2 ^ 32"
    by (rule round_half_unat)
  moreover have "2 * (unat v div 2 + unat v mod 2) < 2 ^ 32"
    using assms by simp
  ultimately show ?thesis
    unfolding booth_recode_w5_def Let_def s by simp
qed

lemma booth_w5_hi:
  assumes "32 \<le> unat v" "unat v < 64"
  shows "unat (booth_recode_w5 v) = 2 * ((63 - unat v) div 2 + (63 - unat v) mod 2) + 1"
proof -
  have s: "NOT (drop_bit 5 v - 1) = - 1"
    using assms sign_mask_hi [of 5 v] by simp
  have le: "v \<le> 63" using assms by (simp add: word_le_nat_alt)
  have d: "unat (63 - v) = 63 - unat v"
    using le by (simp add: unat_sub)
  have "unat (63 - v) < 2 ^ 30" using assms d by simp
  then have "unat (push_bit 1 (drop_bit 1 (63 - v) + ((63 - v) AND 1)) + 1) =
      (2 * (unat (63 - v) div 2 + unat (63 - v) mod 2) + unat (1::unsigned)) mod 2 ^ 32"
    by (rule round_half_unat)
  moreover have "2 * ((63 - unat v) div 2 + (63 - unat v) mod 2) + 1 < 2 ^ 32"
    using assms by simp
  moreover have "push_bit 6 1 - v - 1 = 63 - v" by simp
  ultimately show ?thesis
    unfolding booth_recode_w5_def Let_def s by (simp add: d)
qed

lemma booth_w7_lo:
  assumes "unat v < 128"
  shows "unat (booth_recode_w7 v) = 2 * (unat v div 2 + unat v mod 2)"
proof -
  have s: "NOT (drop_bit 7 v - 1) = 0"
    using assms sign_mask_lo [of v 7] by simp
  have "unat v < 2 ^ 30" using assms by simp
  then have "unat (push_bit 1 (drop_bit 1 v + (v AND 1)) + 0) =
      (2 * (unat v div 2 + unat v mod 2) + unat (0::unsigned)) mod 2 ^ 32"
    by (rule round_half_unat)
  moreover have "2 * (unat v div 2 + unat v mod 2) < 2 ^ 32"
    using assms by simp
  ultimately show ?thesis
    unfolding booth_recode_w7_def Let_def s by simp
qed

lemma booth_w7_hi:
  assumes "128 \<le> unat v" "unat v < 256"
  shows "unat (booth_recode_w7 v) = 2 * ((255 - unat v) div 2 + (255 - unat v) mod 2) + 1"
proof -
  have s: "NOT (drop_bit 7 v - 1) = - 1"
    using assms sign_mask_hi [of 7 v] by simp
  have le: "v \<le> 255" using assms by (simp add: word_le_nat_alt)
  have d: "unat (255 - v) = 255 - unat v"
    using le by (simp add: unat_sub)
  have "unat (255 - v) < 2 ^ 30" using assms d by simp
  then have "unat (push_bit 1 (drop_bit 1 (255 - v) + ((255 - v) AND 1)) + 1) =
      (2 * (unat (255 - v) div 2 + unat (255 - v) mod 2) + unat (1::unsigned)) mod 2 ^ 32"
    by (rule round_half_unat)
  moreover have "2 * ((255 - unat v) div 2 + (255 - unat v) mod 2) + 1 < 2 ^ 32"
    using assms by simp
  moreover have "push_bit 8 1 - v - 1 = 255 - v" by simp
  ultimately show ?thesis
    unfolding booth_recode_w7_def Let_def s by (simp add: d)
qed

text \<open>Index and sign of a recoded value, read off its number.\<close>

lemma unat_booth_index: "unat (booth_index r) = unat r div 2"
  unfolding booth_index_def by (simp only: unat_drop_bit_div) simp

lemma unat_booth_sign: "unat (booth_sign r) = unat r mod 2"
  unfolding booth_sign_def by (simp add: and_one_eq unat_mod)

lemma booth_sign_zero_iff: "booth_sign r = 0 \<longleftrightarrow> even (unat r)"
proof -
  have "booth_sign r = 0 \<longleftrightarrow> unat (booth_sign r) = 0"
    by (simp add: unat_eq_zero)
  then show ?thesis
    by (simp add: unat_booth_sign even_iff_mod_2_eq_zero)
qed

lemma booth_w5_spec:
  assumes "unat v < 64"
  shows "(unat (booth_sign (booth_recode_w5 v)), unat (booth_index (booth_recode_w5 v)))
           = booth_spec 5 (unat v)"
proof (cases "unat v < 32")
  case True
  then show ?thesis
    by (simp add: booth_spec_def Let_def unat_booth_index unat_booth_sign booth_w5_lo)
next
  case False
  then have "unat v div 32 = 1" using assms by simp
  then show ?thesis using False assms
    by (simp add: booth_spec_def Let_def unat_booth_index unat_booth_sign booth_w5_hi)
qed

lemma booth_w7_spec:
  assumes "unat v < 256"
  shows "(unat (booth_sign (booth_recode_w7 v)), unat (booth_index (booth_recode_w7 v)))
           = booth_spec 7 (unat v)"
proof (cases "unat v < 128")
  case True
  then show ?thesis
    by (simp add: booth_spec_def Let_def unat_booth_index unat_booth_sign booth_w7_lo)
next
  case False
  then have "unat v div 128 = 1" using assms by simp
  then show ?thesis using False assms
    by (simp add: booth_spec_def Let_def unat_booth_index unat_booth_sign booth_w7_hi)
qed

lemma booth_spec_5_magnitude: "v < 64 \<Longrightarrow> snd (booth_spec 5 v) \<le> 16"
  by (simp add: booth_spec_def Let_def) arith

lemma booth_spec_7_magnitude: "v < 256 \<Longrightarrow> snd (booth_spec 7 v) \<le> 64"
  by (simp add: booth_spec_def Let_def) arith

section \<open>Windows of a serialized scalar, as numbers\<close>

lemma le_val_byte: "off < length p \<Longrightarrow> le_val p div 256 ^ off mod 256 = unat (p ! off)"
proof (induction p arbitrary: off)
  case Nil
  then show ?case by simp
next
  case (Cons b bs)
  have b: "unat b < 256" using unsigned_less [of b] by simp
  show ?case
  proof (cases off)
    case 0
    then show ?thesis using b by simp
  next
    case (Suc k)
    have "(unat b + 256 * le_val bs) div (256 * 256 ^ k) = ((unat b + 256 * le_val bs) div 256) div 256 ^ k"
      by (simp add: div_mult2_eq)
    also have "(unat b + 256 * le_val bs) div 256 = le_val bs"
      using b by simp
    finally show ?thesis using Cons Suc by simp
  qed
qed

lemma le_val_two_bytes:
  assumes "off + 1 < length p"
  shows "le_val p div 256 ^ off mod 65536 = unat (p ! off) + 256 * unat (p ! (off + 1))"
proof -
  let ?q = "le_val p div 256 ^ off"
  have "?q mod (256 * 256) = ?q mod 256 + 256 * (?q div 256 mod 256)"
    by (simp only: mod_mult2_eq ac_simps)
  moreover have "le_val p div (256 ^ off * 256) = ?q div 256"
    by (rule div_mult2_eq)
  then have "?q div 256 = le_val p div 256 ^ (off + 1)"
    by (simp add: mult.commute)
  ultimately show ?thesis
    using le_val_byte [of off p] le_val_byte [of "off + 1" p] assms by simp
qed

lemma unat_ucast_byte: "unat (ucast (a :: uint8_t) :: unsigned) = unat a"
proof -
  have "unat a < 256" using unsigned_less [of a] by simp
  then show ?thesis by (simp add: unsigned_ucast_eq take_bit_eq_mod)
qed

lemma unat_two_bytes:
  fixes a b :: uint8_t
  shows "unat (ucast a OR push_bit 8 (ucast b) :: unsigned) = unat a + 256 * unat b"
proof -
  have a: "unat a < 256" using unsigned_less [of a] by simp
  have b: "unat b < 256" using unsigned_less [of b] by simp
  have "(ucast a :: unsigned) + push_bit 8 (ucast b) = ucast a OR push_bit 8 (ucast b)"
    by (rule disjunctive_add) (auto simp: bit_simps dest: bit_imp_le_length)
  moreover have "push_bit 8 (ucast b) = (256 * ucast b :: unsigned)"
    by (simp add: push_bit_eq_mult)
  ultimately have "unat (ucast a OR push_bit 8 (ucast b) :: unsigned) = unat ((ucast a :: unsigned) + 256 * ucast b)"
    by (simp only:)
  also have "\<dots> = (unat a + 256 * unat b) mod 2 ^ 32"
    by (simp add: unat_word_ariths unat_ucast_byte mod_simps)
  finally show ?thesis using a b by simp
qed

lemma unat_shift_mask:
  fixes x :: unsigned
  shows "unat (drop_bit r x AND (push_bit n 1 - 1)) = unat x div 2 ^ r mod 2 ^ n"
proof -
  have "push_bit n 1 - 1 = (mask n :: unsigned)"
    by (simp add: mask_eq_exp_minus_1 push_bit_eq_mult)
  then have "drop_bit r x AND (push_bit n 1 - 1) = take_bit n (drop_bit r x)"
    by (simp only: take_bit_eq_mask)
  then have "unat (drop_bit r x AND (push_bit n 1 - 1)) = take_bit n (drop_bit r (unat x))"
    by (simp only: unsigned_take_bit_eq unat_drop_bit_eq)
  then show ?thesis
    by (simp only: take_bit_eq_mod drop_bit_eq_div)
qed

lemma narrow_window:
  fixes a :: nat
  assumes "r + n \<le> 16"
  shows "a mod 65536 div 2 ^ r mod 2 ^ n = a div 2 ^ r mod 2 ^ n"
proof -
  have "take_bit n (drop_bit r (take_bit 16 a)) = take_bit n (take_bit (16 - r) (drop_bit r a))"
    by (simp only: drop_bit_take_bit)
  also have "\<dots> = take_bit (min n (16 - r)) (drop_bit r a)"
    by (simp only: take_bit_take_bit)
  also have "min n (16 - r) = n"
    using assms by simp
  finally have "take_bit n (drop_bit r (take_bit 16 a)) = take_bit n (drop_bit r a)" .
  then show ?thesis
    by (simp add: take_bit_eq_mod drop_bit_eq_div)
qed

lemma two_bytes_window:
  assumes "off + 1 < length p" "r < 8" "r + n \<le> 16"
  shows "(unat (p ! off) + 256 * unat (p ! (off + 1))) div 2 ^ r mod 2 ^ n
           = le_val p div 2 ^ (8 * off + r) mod 2 ^ n"
proof -
  have "(unat (p ! off) + 256 * unat (p ! (off + 1))) div 2 ^ r mod 2 ^ n
          = (le_val p div 256 ^ off mod 65536) div 2 ^ r mod 2 ^ n"
    using le_val_two_bytes [OF assms(1)] by simp
  also have "\<dots> = (le_val p div 256 ^ off) div 2 ^ r mod 2 ^ n"
    using assms(3) by (rule narrow_window)
  also have "\<dots> = le_val p div (2 ^ (8 * off) * 2 ^ r) mod 2 ^ n"
    by (simp add: div_mult2_eq power_mult)
  finally show ?thesis by (simp add: power_add)
qed

lemma unat_window_w5:
  assumes "0 < index" "(index - 1) div 8 + 1 < length p"
  shows "unat (window_w5 p index) = le_val p div 2 ^ (index - 1) mod 64"
proof -
  let ?off = "(index - 1) div 8" and ?r = "(index - 1) mod 8"
  have "unat (window_w5 p index) = (unat (p ! ?off) + 256 * unat (p ! (?off + 1))) div 2 ^ ?r mod 2 ^ 6"
    unfolding window_w5_def Let_def kMask5_def
    by (simp only: unat_shift_mask unat_two_bytes) simp
  also have "\<dots> = le_val p div 2 ^ (8 * ?off + ?r) mod 2 ^ 6"
    using assms(2) by (rule two_bytes_window) simp_all
  finally show ?thesis by simp
qed

lemma unat_window_w7:
  assumes "0 < index" "(index - 1) div 8 + 1 < length p"
  shows "unat (window_w7 p index) = le_val p div 2 ^ (index - 1) mod 256"
proof -
  let ?off = "(index - 1) div 8" and ?r = "(index - 1) mod 8"
  have "unat (window_w7 p index) = (unat (p ! ?off) + 256 * unat (p ! (?off + 1))) div 2 ^ ?r mod 2 ^ 8"
    unfolding window_w7_def Let_def kMask7_def
    by (simp only: unat_shift_mask unat_two_bytes) simp
  also have "\<dots> = le_val p div 2 ^ (8 * ?off + ?r) mod 2 ^ 8"
    using assms(2) by (rule two_bytes_window) simp_all
  finally show ?thesis by simp
qed

lemma unat_low_window:
  fixes b :: uint8_t
  assumes "n \<le> 9"
  shows "unat (push_bit 1 (ucast b :: unsigned) AND (push_bit n 1 - 1)) = (2 * unat b) mod 2 ^ n"
proof -
  have b: "unat b < 256" using unsigned_less [of b] by simp
  have "push_bit 1 (ucast b :: unsigned) = 2 * ucast b"
    by (simp add: push_bit_eq_mult)
  then have "unat (push_bit 1 (ucast b :: unsigned)) = (2 * unat b) mod 2 ^ 32"
    by (simp add: unat_word_ariths unat_ucast_byte mult.commute)
  then have u: "unat (push_bit 1 (ucast b :: unsigned)) = 2 * unat b"
    using b by simp
  have "unat (drop_bit 0 (push_bit 1 (ucast b :: unsigned)) AND (push_bit n 1 - 1))
      = unat (push_bit 1 (ucast b :: unsigned)) div 2 ^ 0 mod 2 ^ n"
    by (rule unat_shift_mask)
  then show ?thesis using u by simp
qed

lemma low_bits_mod:
  fixes a :: nat
  assumes "n \<le> 9"
  shows "(2 * (a mod 256)) mod 2 ^ n = (2 * a) mod 2 ^ n"
proof -
  have d: "(2::nat) ^ n dvd 512"
    using le_imp_power_dvd [OF assms, of "2::nat"] by simp
  have "2 * (a mod 256) = (2 * a) mod 512"
    by (simp add: mult_mod_right)
  then have "(2 * (a mod 256)) mod 2 ^ n = ((2 * a) mod 512) mod 2 ^ n"
    by simp
  also have "\<dots> = (2 * a) mod 2 ^ n"
    using d by (rule mod_mod_cancel)
  finally show ?thesis .
qed

lemma le_val_hd: "p \<noteq> [] \<Longrightarrow> le_val p mod 256 = unat (p ! 0)"
  using le_val_byte [of 0 p] by simp

lemma unat_final_window_w5:
  assumes "p \<noteq> []"
  shows "unat (final_window_w5 p) = (2 * le_val p) mod 64"
proof -
  have "unat (final_window_w5 p) = (2 * unat (p ! 0)) mod 2 ^ 6"
    unfolding final_window_w5_def kMask5_def by (simp only: unat_low_window) simp
  also have "\<dots> = (2 * (le_val p mod 256)) mod 64"
    using le_val_hd [OF assms] by simp
  also have "\<dots> = (2 * le_val p) mod 64"
    using low_bits_mod [of 6 "le_val p"] by simp
  finally show ?thesis .
qed

section \<open>The signed digits add up to the scalar\<close>

lemma half_up: "(n + 1) div 2 = n div 2 + n mod 2" for n :: nat
  by arith

lemma half_compl:
  fixes n m c :: nat
  assumes "n + m = 2 * c + 1"
  shows "m div 2 + m mod 2 + (n + 1) div 2 = c + 1"
proof (cases "even m")
  case True
  then obtain a where a: "m = 2 * a" by (auto elim: evenE)
  then have "n = 2 * (c - a) + 1" "a \<le> c" using assms by simp_all
  then show ?thesis by (simp add: a)
next
  case False
  then obtain a where a: "m = 2 * a + 1" by (auto elim: oddE)
  then have "n = 2 * (c - a)" "a \<le> c" using assms by simp_all
  then show ?thesis by (simp add: a)
qed

lemma booth_digit_even:
  assumes "unat r = 2 * d"
  shows "booth_digit r = int d"
  using assms by (simp add: booth_digit_def booth_sign_zero_iff unat_booth_index)

lemma booth_digit_odd:
  assumes "unat r = 2 * d + 1"
  shows "booth_digit r = - int d"
  using assms by (simp add: booth_digit_def booth_sign_zero_iff unat_booth_index)

lemma booth_digit_w5:
  assumes "unat v < 64"
  shows "booth_digit (booth_recode_w5 v) = int ((unat v + 1) div 2) - 32 * int (unat v div 32)"
proof (cases "unat v < 32")
  case True
  have "unat (booth_recode_w5 v) = 2 * (unat v div 2 + unat v mod 2)"
    using True by (rule booth_w5_lo)
  then have "booth_digit (booth_recode_w5 v) = int (unat v div 2 + unat v mod 2)"
    by (rule booth_digit_even)
  then show ?thesis using True half_up [of "unat v"]
    by simp
next
  case False
  then have hi: "32 \<le> unat v" by simp
  have "unat (booth_recode_w5 v) = 2 * ((63 - unat v) div 2 + (63 - unat v) mod 2) + 1"
    using hi assms by (rule booth_w5_hi)
  then have "booth_digit (booth_recode_w5 v) = - int ((63 - unat v) div 2 + (63 - unat v) mod 2)"
    by (rule booth_digit_odd)
  moreover have "unat v div 32 = 1" using hi assms by simp
  moreover have "(63 - unat v) div 2 + (63 - unat v) mod 2 + (unat v + 1) div 2 = 31 + 1"
    using assms by (intro half_compl) simp
  ultimately show ?thesis
    by simp
qed

lemma booth_digit_w7:
  assumes "unat v < 256"
  shows "booth_digit (booth_recode_w7 v) = int ((unat v + 1) div 2) - 128 * int (unat v div 128)"
proof (cases "unat v < 128")
  case True
  have "unat (booth_recode_w7 v) = 2 * (unat v div 2 + unat v mod 2)"
    using True by (rule booth_w7_lo)
  then have "booth_digit (booth_recode_w7 v) = int (unat v div 2 + unat v mod 2)"
    by (rule booth_digit_even)
  then show ?thesis using True half_up [of "unat v"]
    by simp
next
  case False
  then have hi: "128 \<le> unat v" by simp
  have "unat (booth_recode_w7 v) = 2 * ((255 - unat v) div 2 + (255 - unat v) mod 2) + 1"
    using hi assms by (rule booth_w7_hi)
  then have "booth_digit (booth_recode_w7 v) = - int ((255 - unat v) div 2 + (255 - unat v) mod 2)"
    by (rule booth_digit_odd)
  moreover have "unat v div 128 = 1" using hi assms by simp
  moreover have "(255 - unat v) div 2 + (255 - unat v) mod 2 + (unat v + 1) div 2 = 127 + 1"
    using assms by (intro half_compl) simp
  ultimately show ?thesis
    by simp
qed

text \<open>The digits of the doubled scalar, in base \<open>B\<close>, telescope.\<close>

definition window_digit :: "nat \<Rightarrow> nat \<Rightarrow> nat \<Rightarrow> int" where
  "window_digit B k j =
     (let n = (2 * k) div B ^ j mod (2 * B)
      in int ((n + 1) div 2) - int B * int (n div B))"

lemma window_digit_eq:
  assumes "0 < B"
  shows "window_digit B k j =
     int ((2 * k) div B ^ j mod 2) + int (k div B ^ j mod B)
       - int B * int ((2 * k) div B ^ Suc j mod 2)"
proof -
  let ?a = "(2 * k) div B ^ j"
  let ?n = "?a mod (2 * B)"
  have n2: "?n mod 2 = ?a mod 2"
    by (simp add: mod_mod_cancel)
  have "?n = 2 * (?a div 2 mod B) + ?a mod 2"
    by (rule mod_mult2_eq)
  then have "?n div 2 = (2 * (?a div 2 mod B) + ?a mod 2) div 2"
    by simp
  then have "?n div 2 = (?a div 2) mod B"
    by simp
  moreover have "?a div 2 = k div B ^ j"
  proof -
    have "?a div 2 = (2 * k) div (B ^ j * 2)" by (simp add: div_mult2_eq)
    also have "\<dots> = (2 * k) div (2 * B ^ j)" by (simp add: mult.commute)
    also have "\<dots> = k div B ^ j" by simp
    finally show ?thesis .
  qed
  ultimately have nd2: "?n div 2 = k div B ^ j mod B" by simp
  have "(?n + 1) div 2 = ?n div 2 + ?n mod 2" by (rule half_up)
  then have h: "(?n + 1) div 2 = k div B ^ j mod B + ?a mod 2"
    by (simp add: nd2 n2)
  have "?a mod (B * 2) = B * (?a div B mod 2) + ?a mod B"
    by (rule mod_mult2_eq)
  then have "?n div B = (B * (?a div B mod 2) + ?a mod B) div B"
    by (simp add: mult.commute)
  then have "?n div B = (?a div B) mod 2"
    using assms by simp
  moreover have "(2 * k) div (B ^ j * B) = ?a div B"
    by (rule div_mult2_eq)
  then have "?a div B = (2 * k) div B ^ Suc j"
    by (simp add: mult.commute)
  ultimately have t: "?n div B = (2 * k) div B ^ Suc j mod 2" by simp
  show ?thesis
    unfolding window_digit_def Let_def h t by simp
qed

lemma window_digit_sum:
  assumes "0 < B"
  shows "(\<Sum>j<m. window_digit B k j * int B ^ j)
           = int (k mod B ^ m) - int B ^ m * int ((2 * k) div B ^ m mod 2)"
proof (induction m)
  case 0
  then show ?case by simp
next
  case (Suc m)
  have "k mod (B ^ m * B) = B ^ m * (k div B ^ m mod B) + k mod B ^ m"
    by (rule mod_mult2_eq)
  then have split: "k mod B ^ Suc m = k mod B ^ m + B ^ m * (k div B ^ m mod B)"
    by (simp add: mult.commute)
  have "(\<Sum>j<Suc m. window_digit B k j * int B ^ j)
      = int (k mod B ^ m) - int B ^ m * int ((2 * k) div B ^ m mod 2)
        + window_digit B k m * int B ^ m"
    using Suc by simp
  also have "\<dots> = int (k mod B ^ m) + int B ^ m * int (k div B ^ m mod B)
        - int B ^ Suc m * int ((2 * k) div B ^ Suc m mod 2)"
    by (simp only: window_digit_eq [OF assms]) (simp add: algebra_simps)
  also have "\<dots> = int (k mod B ^ Suc m) - int B ^ Suc m * int ((2 * k) div B ^ Suc m mod 2)"
    by (simp only: split) simp
  finally show ?case .
qed

section \<open>Serialization of the limbs\<close>

lemma unat_low_byte:
  fixes x :: BN_ULONG
  shows "unat (ucast (x AND 0xff) :: uint8_t) = unat x mod 256"
proof -
  have "x AND 0xff = take_bit 8 x"
    by (simp add: take_bit_eq_mask mask_eq_exp_minus_1)
  then have "unat (x AND 0xff) = take_bit 8 (unat x)"
    by (simp only: unsigned_take_bit_eq)
  then have "unat (x AND 0xff) = unat x mod 256"
    by (simp add: take_bit_eq_mod)
  then show ?thesis
    by (simp add: unsigned_ucast_eq take_bit_eq_mod)
qed

lemma unat_drop_bit_limb: "unat (drop_bit n (w :: BN_ULONG)) = unat w div 2 ^ n"
  by (subst unat_drop_bit_eq) (simp add: drop_bit_eq_div)

lemma bytes_recompose:
  fixes n :: nat
  assumes "n < 2 ^ 64"
  shows "n mod 256 + 256 * (n div 2 ^ 8 mod 256 + 256 * (n div 2 ^ 16 mod 256 + 256 *
          (n div 2 ^ 24 mod 256 + 256 * (n div 2 ^ 32 mod 256 + 256 * (n div 2 ^ 40 mod 256 + 256 *
          (n div 2 ^ 48 mod 256 + 256 * (n div 2 ^ 56 mod 256))))))) = n"
proof -
  have step: "x div 2 ^ i = x div 2 ^ i mod 256 + 256 * (x div 2 ^ (i + 8))" for x i :: nat
  proof -
    have "x div 2 ^ (i + 8) = x div 2 ^ i div 256"
      by (simp add: power_add div_mult2_eq)
    then show ?thesis by simp
  qed
  have top: "n div 2 ^ 56 mod 256 = n div 2 ^ 56"
    using assms by (simp add: less_mult_imp_div_less)
  show ?thesis
    using step [of n 0] step [of n 8] step [of n 16] step [of n 24] step [of n 32]
      step [of n 40] step [of n 48] top
    by simp
qed

lemma length_limb_bytes: "length (limb_bytes d) = 8"
  by (simp add: limb_bytes_def Let_def)

lemma le_val_limb_bytes: "le_val (limb_bytes d) = unat d"
proof -
  have "unat d < 2 ^ 64" using unsigned_less [of d] by simp
  note r = bytes_recompose [OF this]
  show ?thesis
    unfolding limb_bytes_def Let_def
    by (simp only: le_val.simps unat_low_byte unat_drop_bit_limb div_mult2_eq [symmetric]
        power_add [symmetric]) (use r in simp)
qed

lemma le_val_append: "le_val (xs @ ys) = le_val xs + 256 ^ length xs * le_val ys"
  by (induction xs) (simp_all add: algebra_simps)

lemma le_val_zeros: "le_val (replicate n 0) = 0"
  by (induction n) simp_all

lemma limbs_serialized:
  "le_val (concat (map limb_bytes ds)) = limbs_val ds \<and>
   length (concat (map limb_bytes ds)) = 8 * length ds"
proof (induction ds)
  case Nil
  then show ?case by simp
next
  case (Cons d ds)
  have "(256 :: nat) ^ 8 = 2 ^ 64" by simp
  then show ?case using Cons
    by (simp only: list.map concat.simps le_val_append length_limb_bytes le_val_limb_bytes
        limbs_val.simps length_append list.size) simp
qed

lemma limbs_val_bound: "limbs_val ds < 2 ^ (64 * length ds)"
proof (induction ds)
  case Nil
  then show ?case by simp
next
  case (Cons d ds)
  have d: "unat d < 2 ^ 64" using unsigned_less [of d] by simp
  have "unat d + 2 ^ 64 * limbs_val ds < 2 ^ 64 * (limbs_val ds + 1)"
    using d by simp
  also have "\<dots> \<le> 2 ^ 64 * 2 ^ (64 * length ds)"
    using Cons by (intro mult_le_mono2) simp
  finally show ?case by (simp add: power_add)
qed

lemma p_str_length:
  assumes "bn_top s \<le> 4"
  shows "length (scalar_to_p_str s) = 33"
  using assms limbs_serialized [of "bn_d s"]
  by (simp add: scalar_to_p_str_def bn_top_def)

lemma p_str_value: "le_val (scalar_to_p_str s) = bn_val s"
  using limbs_serialized [of "bn_d s"]
  by (simp add: scalar_to_p_str_def le_val_append le_val_zeros bn_val_def)

lemma bn_val_bound:
  assumes "bn_top s \<le> 4"
  shows "bn_val s < 2 ^ 256"
proof -
  have "bn_val s < 2 ^ (64 * bn_top s)"
    unfolding bn_val_def bn_top_def by (rule limbs_val_bound)
  also have "\<dots> \<le> 2 ^ 256"
    using assms by (intro power_increasing) simp_all
  finally show ?thesis .
qed

lemma p_str_guard_byte:
  assumes "bn_top s \<le> 4"
  shows "scalar_to_p_str s ! 32 = 0"
proof -
  have "length (concat (map limb_bytes (bn_d s))) \<le> 32"
    using assms limbs_serialized [of "bn_d s"] by (simp add: bn_top_def)
  then show ?thesis
    using assms limbs_serialized [of "bn_d s"]
    by (simp add: scalar_to_p_str_def nth_append bn_top_def)
qed

section \<open>Reconstruction of the scalar from its windows\<close>

lemma doubled_shift:
  fixes k :: nat
  assumes "0 < j" "0 < w"
  shows "(2 * k) div (2 ^ w) ^ j = k div 2 ^ (w * j - 1)"
proof -
  obtain e where e: "w * j = Suc e"
    using assms by (cases "w * j") auto
  have "(2 * k) div (2 ^ w) ^ j = (2 * k) div (2 * 2 ^ e)"
    by (simp add: power_mult [symmetric] e)
  also have "\<dots> = k div 2 ^ e"
    by simp
  finally show ?thesis by (simp add: e)
qed

lemma digit_window_w5:
  assumes "length p = 33" "0 < j" "j < 52"
  shows "booth_digit (booth_recode_w5 (window_w5 p (5 * j))) = window_digit 32 (le_val p) j"
proof -
  have "(5 * j - 1) div 8 + 1 < length p"
    using assms by simp
  then have u: "unat (window_w5 p (5 * j)) = le_val p div 2 ^ (5 * j - 1) mod 64"
    using assms by (intro unat_window_w5) simp
  then have "unat (window_w5 p (5 * j)) < 64" by simp
  then have "booth_digit (booth_recode_w5 (window_w5 p (5 * j)))
      = int ((unat (window_w5 p (5 * j)) + 1) div 2) - 32 * int (unat (window_w5 p (5 * j)) div 32)"
    by (rule booth_digit_w5)
  moreover have "(2 * le_val p) div (2 ^ 5) ^ j = le_val p div 2 ^ (5 * j - 1)"
    using assms(2) by (intro doubled_shift) simp_all
  ultimately show ?thesis
    by (simp add: window_digit_def Let_def u)
qed

lemma digit_final_window_w5:
  assumes "length p = 33"
  shows "booth_digit (booth_recode_w5 (final_window_w5 p)) = window_digit 32 (le_val p) 0"
proof -
  have "p \<noteq> []" using assms by auto
  then have u: "unat (final_window_w5 p) = (2 * le_val p) mod 64"
    by (rule unat_final_window_w5)
  then have "unat (final_window_w5 p) < 64" by simp
  then have "booth_digit (booth_recode_w5 (final_window_w5 p))
      = int ((unat (final_window_w5 p) + 1) div 2) - 32 * int (unat (final_window_w5 p) div 32)"
    by (rule booth_digit_w5)
  then show ?thesis
    by (simp add: window_digit_def Let_def u)
qed

lemma recoded_value_w5_eq:
  assumes "length p = 33" "le_val p < 2 ^ 256"
  shows "recoded_value_w5 p = int (le_val p)"
proof -
  let ?k = "le_val p"
  have "(\<Sum>j = 1..<52. booth_digit (booth_recode_w5 (window_w5 p (5 * j))) * 2 ^ (5 * j))
      = (\<Sum>j = 1..<52. window_digit 32 ?k j * int 32 ^ j)"
    by (rule sum.cong) (simp_all add: digit_window_w5 [OF assms(1)] power_mult)
  then have "recoded_value_w5 p
      = window_digit 32 ?k 0 * int 32 ^ 0 + (\<Sum>j = Suc 0..<52. window_digit 32 ?k j * int 32 ^ j)"
    by (simp add: recoded_value_w5_def digit_final_window_w5 [OF assms(1)])
  also have "\<dots> = (\<Sum>j = 0..<52. window_digit 32 ?k j * int 32 ^ j)"
    by (rule sum.atLeast_Suc_lessThan [symmetric]) simp
  also have "\<dots> = (\<Sum>j<52. window_digit 32 ?k j * int 32 ^ j)"
    by (simp only: lessThan_atLeast0)
  also have "\<dots> = int (?k mod 32 ^ 52) - int 32 ^ 52 * int ((2 * ?k) div 32 ^ 52 mod 2)"
    by (rule window_digit_sum) simp
  also have "\<dots> = int ?k"
    using assms(2) by simp
  finally show ?thesis .
qed

lemma digit_window_w7:
  assumes "length p = 33" "0 < i" "i < 37"
  shows "booth_digit (booth_recode_w7 (window_w7 p (7 * i))) = window_digit 128 (le_val p) i"
proof -
  have "(7 * i - 1) div 8 + 1 < length p"
    using assms by simp
  then have u: "unat (window_w7 p (7 * i)) = le_val p div 2 ^ (7 * i - 1) mod 256"
    using assms by (intro unat_window_w7) simp
  then have "unat (window_w7 p (7 * i)) < 256" by simp
  then have "booth_digit (booth_recode_w7 (window_w7 p (7 * i)))
      = int ((unat (window_w7 p (7 * i)) + 1) div 2) - 128 * int (unat (window_w7 p (7 * i)) div 128)"
    by (rule booth_digit_w7)
  moreover have "(2 * le_val p) div (2 ^ 7) ^ i = le_val p div 2 ^ (7 * i - 1)"
    using assms(2) by (intro doubled_shift) simp_all
  ultimately show ?thesis
    by (simp add: window_digit_def Let_def u)
qed

lemma unat_first_window_w7:
  assumes "p \<noteq> []"
  shows "unat (first_window_w7 p) = (2 * le_val p) mod 256"
proof -
  have "unat (first_window_w7 p) = (2 * unat (p ! 0)) mod 2 ^ 8"
    unfolding first_window_w7_def kMask7_def by (simp only: unat_low_window) simp
  also have "\<dots> = (2 * (le_val p mod 256)) mod 2 ^ 8"
    using le_val_hd [OF assms] by simp
  also have "\<dots> = (2 * le_val p) mod 2 ^ 8"
    by (rule low_bits_mod) simp
  finally show ?thesis by simp
qed

lemma digit_first_window_w7:
  assumes "length p = 33"
  shows "booth_digit (booth_recode_w7 (first_window_w7 p)) = window_digit 128 (le_val p) 0"
proof -
  have "p \<noteq> []" using assms by auto
  then have u: "unat (first_window_w7 p) = (2 * le_val p) mod 256"
    by (rule unat_first_window_w7)
  then have "unat (first_window_w7 p) < 256" by simp
  then have "booth_digit (booth_recode_w7 (first_window_w7 p))
      = int ((unat (first_window_w7 p) + 1) div 2) - 128 * int (unat (first_window_w7 p) div 128)"
    by (rule booth_digit_w7)
  then show ?thesis
    by (simp add: window_digit_def Let_def u)
qed

lemma recoded_value_w7_eq:
  assumes "length p = 33" "le_val p < 2 ^ 256"
  shows "recoded_value_w7 p = int (le_val p)"
proof -
  let ?k = "le_val p"
  have "(\<Sum>i = 1..<37. booth_digit (booth_recode_w7 (window_w7 p (7 * i))) * 2 ^ (7 * i))
      = (\<Sum>i = 1..<37. window_digit 128 ?k i * int 128 ^ i)"
    by (rule sum.cong) (simp_all add: digit_window_w7 [OF assms(1)] power_mult)
  then have "recoded_value_w7 p
      = window_digit 128 ?k 0 * int 128 ^ 0 + (\<Sum>i = Suc 0..<37. window_digit 128 ?k i * int 128 ^ i)"
    by (simp add: recoded_value_w7_def digit_first_window_w7 [OF assms(1)])
  also have "\<dots> = (\<Sum>i = 0..<37. window_digit 128 ?k i * int 128 ^ i)"
    by (rule sum.atLeast_Suc_lessThan [symmetric]) simp
  also have "\<dots> = (\<Sum>i<37. window_digit 128 ?k i * int 128 ^ i)"
    by (simp only: lessThan_atLeast0)
  also have "\<dots> = int (?k mod 128 ^ 37) - int 128 ^ 37 * int ((2 * ?k) div 128 ^ 37 mod 2)"
    by (rule window_digit_sum) simp
  also have "\<dots> = int ?k"
    using assms(2) by simp
  finally show ?thesis .
qed

lemma first_window_w5_eq:
  assumes "length p = 33" "p ! 32 = 0"
  shows "first_window_w5 p = window_w5 p 255"
  using assms by (simp add: first_window_w5_def window_w5_def Let_def)

section \<open>Claims about Booth recoding\<close>

text \<open>
  C2. For window widths 5 and 7 and every \<open>(w+1)\<close>-bit input \<open>v\<close>, the recoding
  returns sign and magnitude as the specification words them (\<open>booth_spec\<close>): the sign
  is the top bit of \<open>v\<close> and sits in the lowest bit of the result, the magnitude is
  \<open>v\<close> (complemented within \<open>w+1\<close> bits when the sign is set) halved with rounding,
  lies in \<open>[0, 2^(w-1)]\<close> and sits in the bits above the lowest one. For every
  scalar of at most four limbs, the signed digits of the windows that the general path
  (width 5) and the generator path (width 7) read from the serialized buffer add up to
  the scalar itself, hence to the scalar modulo \<open>2^256\<close>; the one-byte read that seeds
  the general path yields the same window as the two-byte read.
\<close>

theorem booth_recoding_reconstructs_scalar:
  assumes "unat v5 < 2 ^ (5 + 1)" and "unat v7 < 2 ^ (7 + 1)" and "bn_top scalar \<le> P256_LIMBS"
  shows "((unat (booth_sign (booth_recode_w5 v5)), unat (booth_index (booth_recode_w5 v5)))
            = booth_spec 5 (unat v5)
          \<and> unat (booth_index (booth_recode_w5 v5)) \<le> 2 ^ (5 - 1)
          \<and> unat (booth_recode_w5 v5)
              = 2 * unat (booth_index (booth_recode_w5 v5)) + unat (booth_sign (booth_recode_w5 v5)))
       \<and> ((unat (booth_sign (booth_recode_w7 v7)), unat (booth_index (booth_recode_w7 v7)))
            = booth_spec 7 (unat v7)
          \<and> unat (booth_index (booth_recode_w7 v7)) \<le> 2 ^ (7 - 1)
          \<and> unat (booth_recode_w7 v7)
              = 2 * unat (booth_index (booth_recode_w7 v7)) + unat (booth_sign (booth_recode_w7 v7)))
       \<and> recoded_value_w5 (scalar_to_p_str scalar) = int (bn_val scalar)
       \<and> recoded_value_w7 (scalar_to_p_str scalar) = int (bn_val scalar)
       \<and> recoded_value_w5 (scalar_to_p_str scalar) mod 2 ^ 256 = int (bn_val scalar) mod 2 ^ 256
       \<and> recoded_value_w7 (scalar_to_p_str scalar) mod 2 ^ 256 = int (bn_val scalar) mod 2 ^ 256
       \<and> first_window_w5 (scalar_to_p_str scalar) = window_w5 (scalar_to_p_str scalar) 255"
proof -
  have v5: "unat v5 < 64" and v7: "unat v7 < 256" and top: "bn_top scalar \<le> 4"
    using assms by (simp_all add: P256_LIMBS_def)
  have s5: "(unat (booth_sign (booth_recode_w5 v5)), unat (booth_index (booth_recode_w5 v5)))
      = booth_spec 5 (unat v5)"
    using v5 by (rule booth_w5_spec)
  have m5: "unat (booth_index (booth_recode_w5 v5)) \<le> 2 ^ (5 - 1)"
    using booth_spec_5_magnitude [OF v5] s5 [symmetric] by simp
  have p5: "unat (booth_recode_w5 v5)
      = 2 * unat (booth_index (booth_recode_w5 v5)) + unat (booth_sign (booth_recode_w5 v5))"
    by (simp add: unat_booth_index unat_booth_sign)
  have s7: "(unat (booth_sign (booth_recode_w7 v7)), unat (booth_index (booth_recode_w7 v7)))
      = booth_spec 7 (unat v7)"
    using v7 by (rule booth_w7_spec)
  have m7: "unat (booth_index (booth_recode_w7 v7)) \<le> 2 ^ (7 - 1)"
    using booth_spec_7_magnitude [OF v7] s7 [symmetric] by simp
  have p7: "unat (booth_recode_w7 v7)
      = 2 * unat (booth_index (booth_recode_w7 v7)) + unat (booth_sign (booth_recode_w7 v7))"
    by (simp add: unat_booth_index unat_booth_sign)
  let ?p = "scalar_to_p_str scalar"
  have len: "length ?p = 33" using top by (rule p_str_length)
  have bound: "le_val ?p < 2 ^ 256"
    using bn_val_bound [OF top] by (simp add: p_str_value)
  have r5: "recoded_value_w5 ?p = int (bn_val scalar)"
    using recoded_value_w5_eq [OF len bound] by (simp add: p_str_value)
  have r7: "recoded_value_w7 ?p = int (bn_val scalar)"
    using recoded_value_w7_eq [OF len bound] by (simp add: p_str_value)
  have f: "first_window_w5 ?p = window_w5 ?p 255"
    using len p_str_guard_byte [OF top] by (rule first_window_w5_eq)
  show ?thesis
    using s5 m5 p5 s7 m7 p7 f by (simp only: r5 r7)
qed

theorem booth_recoding_reconstructs_scalar_witness:
  "booth_spec 5 35 = (1, 14)
   \<and> unat (booth_index (booth_recode_w5 35)) = 14
   \<and> unat (booth_sign (booth_recode_w5 35)) = 1
   \<and> booth_spec 7 77 = (0, 39)
   \<and> unat (booth_index (booth_recode_w7 77)) = 39
   \<and> unat (booth_sign (booth_recode_w7 77)) = 0
   \<and> recoded_value_w5 (scalar_to_p_str \<lparr>bn_d = [0xfedcba9876543210, 0x8000000000000001], bn_neg = False\<rparr>)
       = 0x8000000000000001fedcba9876543210
   \<and> recoded_value_w7 (scalar_to_p_str \<lparr>bn_d = [0xfedcba9876543210, 0x8000000000000001], bn_neg = False\<rparr>)
       = 0x8000000000000001fedcba9876543210"
  using booth_recoding_reconstructs_scalar
    [of 35 77 "\<lparr>bn_d = [0xfedcba9876543210, 0x8000000000000001], bn_neg = False\<rparr>"]
  by (simp add: bn_top_def P256_LIMBS_def bn_val_def booth_spec_def)

text \<open>
  C6 (as stated). The claim that every nonzero magnitude is odd fails: the window value 3
  is recoded to the magnitude 2.
\<close>

theorem booth_magnitude_even_counterexample:
  "unat (3 :: unsigned) < 2 ^ (5 + 1)
   \<and> booth_index (booth_recode_w5 3) \<noteq> 0
   \<and> \<not> odd (unat (booth_index (booth_recode_w5 3)))"
proof -
  have "unat (booth_recode_w5 3) = 2 * (unat (3 :: unsigned) div 2 + unat (3 :: unsigned) mod 2)"
    by (rule booth_w5_lo) simp
  then have "unat (booth_index (booth_recode_w5 3)) = 2"
    by (simp add: unat_booth_index)
  moreover from this have "booth_index (booth_recode_w5 3) \<noteq> 0"
    by auto
  ultimately show ?thesis by simp
qed

text \<open>
  C6 (amended). Every magnitude produced by Booth recoding, and hence every index that
  table selection can be asked for, lies in \<open>[0, 2^(w-1)]\<close> (at most 16 for width 5 and
  at most 64 for width 7), and every value of that range, even or odd, is the magnitude
  of some window value. The tables therefore need all the positive multiples
  \<open>1 \<dots> 2^(w-1)\<close> of the base point.
\<close>

theorem booth_magnitude_range:
  assumes "unat v5 < 2 ^ (5 + 1)" and "unat v7 < 2 ^ (7 + 1)" and "m5 \<le> 2 ^ (5 - 1)" and "m7 \<le> 2 ^ (7 - 1)"
  shows "unat (booth_index (booth_recode_w5 v5)) \<le> 2 ^ (5 - 1)
       \<and> unat (booth_index (booth_recode_w7 v7)) \<le> 2 ^ (7 - 1)
       \<and> (\<exists>v. unat v < 2 ^ (5 + 1) \<and> unat (booth_index (booth_recode_w5 v)) = m5)
       \<and> (\<exists>v. unat v < 2 ^ (7 + 1) \<and> unat (booth_index (booth_recode_w7 v)) = m7)"
proof -
  have v5: "unat v5 < 64" and v7: "unat v7 < 256" and m5: "m5 \<le> 16" and m7: "m7 \<le> 64"
    using assms by simp_all
  have a: "unat (booth_index (booth_recode_w5 v5)) \<le> 2 ^ (5 - 1)"
    using booth_spec_5_magnitude [OF v5] booth_w5_spec [OF v5, symmetric] by simp
  have b: "unat (booth_index (booth_recode_w7 v7)) \<le> 2 ^ (7 - 1)"
    using booth_spec_7_magnitude [OF v7] booth_w7_spec [OF v7, symmetric] by simp
  have odd_half: "(2 * m - 1) div 2 + (2 * m - 1) mod 2 = m" for m :: nat
    by (cases m) simp_all
  have c: "\<exists>v. unat v < 2 ^ (5 + 1) \<and> unat (booth_index (booth_recode_w5 v)) = m5"
  proof (intro exI conjI)
    let ?v = "of_nat (2 * m5 - 1) :: unsigned"
    have u: "unat ?v = 2 * m5 - 1"
      using m5 by (simp add: unsigned_of_nat take_bit_eq_mod)
    then show "unat ?v < 2 ^ (5 + 1)" using m5 by simp
    have "unat ?v < 32" using u m5 by simp
    then have "unat (booth_recode_w5 ?v) = 2 * (unat ?v div 2 + unat ?v mod 2)"
      by (rule booth_w5_lo)
    then have "unat (booth_recode_w5 ?v) = 2 * m5"
      unfolding u by (simp only: odd_half)
    then show "unat (booth_index (booth_recode_w5 ?v)) = m5"
      by (simp add: unat_booth_index)
  qed
  have d: "\<exists>v. unat v < 2 ^ (7 + 1) \<and> unat (booth_index (booth_recode_w7 v)) = m7"
  proof (intro exI conjI)
    let ?v = "of_nat (2 * m7 - 1) :: unsigned"
    have u: "unat ?v = 2 * m7 - 1"
      using m7 by (simp add: unsigned_of_nat take_bit_eq_mod)
    then show "unat ?v < 2 ^ (7 + 1)" using m7 by simp
    have "unat ?v < 128" using u m7 by simp
    then have "unat (booth_recode_w7 ?v) = 2 * (unat ?v div 2 + unat ?v mod 2)"
      by (rule booth_w7_lo)
    then have "unat (booth_recode_w7 ?v) = 2 * m7"
      unfolding u by (simp only: odd_half)
    then show "unat (booth_index (booth_recode_w7 ?v)) = m7"
      by (simp add: unat_booth_index)
  qed
  show ?thesis using a b c d by blast
qed

theorem booth_magnitude_range_witness:
  "unat (booth_index (booth_recode_w5 3)) \<le> 16
   \<and> unat (booth_index (booth_recode_w7 200)) \<le> 64
   \<and> (\<exists>v. unat v < 64 \<and> unat (booth_index (booth_recode_w5 v)) = 16)
   \<and> (\<exists>v. unat v < 256 \<and> unat (booth_index (booth_recode_w7 v)) = 64)"
  using booth_magnitude_range [of 3 200 16 64] by simp

section \<open>Field elements and points\<close>

text \<open>A field element is \<open>BN_ULONG[P256_LIMBS]\<close>: four limbs, least significant first.\<close>

type_synonym felem = "BN_ULONG \<times> BN_ULONG \<times> BN_ULONG \<times> BN_ULONG"

record P256_POINT =
  X :: felem
  Y :: felem
  Z :: felem

record P256_POINT_AFFINE =
  aff_X :: felem
  aff_Y :: felem

definition felem_val :: "felem \<Rightarrow> nat" where
  "felem_val a = (case a of (a0, a1, a2, a3) \<Rightarrow>
     unat a0 + 2 ^ 64 * unat a1 + 2 ^ 128 * unat a2 + 2 ^ 192 * unat a3)"

definition felem_of_nat :: "nat \<Rightarrow> felem" where
  "felem_of_nat n = (of_nat n, of_nat (n div 2 ^ 64), of_nat (n div 2 ^ 128), of_nat (n div 2 ^ 192))"

text \<open>
  The field prime, as the comment in \<open>ecp_nistz256_mod_inverse\<close> gives it:
  ffffffff 00000001 00000000 00000000 00000000 ffffffff ffffffff ffffffff.
\<close>

definition P256 :: nat where
  "P256 = 0xffffffff00000001000000000000000000000000ffffffffffffffffffffffff"

text \<open>\<open>ONE\<close>: one converted into the Montgomery domain.\<close>

definition ONE :: felem where
  "ONE = (0x0000000000000001, 0xffffffff00000000, 0xffffffffffffffff, 0x00000000fffffffe)"

section \<open>copy_conditional and the conditional negation\<close>

definition copy_conditional :: "felem \<Rightarrow> felem \<Rightarrow> BN_ULONG \<Rightarrow> felem" where
  "copy_conditional dst src move =
     (let mask1 = - move;
          mask2 = NOT mask1
      in case (dst, src) of ((d0, d1, d2, d3), (s0, s1, s2, s3)) \<Rightarrow>
           ((s0 AND mask1) XOR (d0 AND mask2),
            (s1 AND mask1) XOR (d1 AND mask2),
            (s2 AND mask1) XOR (d2 AND mask2),
            (s3 AND mask1) XOR (d3 AND mask2)))"

text \<open>
  Modelled from the spec: the assembly routine \<open>ecp_nistz256_neg\<close> is not among the
  sources; the field-arithmetic layer provides \<open>negate\<close>, and its declaration reads
  "Modular neg: res = -a mod P".
\<close>

definition ecp_nistz256_neg :: "felem \<Rightarrow> felem" where
  "ecp_nistz256_neg a = felem_of_nat ((P256 - felem_val a mod P256) mod P256)"

text \<open>
  The two statements that follow every table selection in \<open>ecp_nistz256_windowed_mul\<close>:
  \<open>ecp_nistz256_neg(tmp, h.Y); copy_conditional(h.Y, tmp, (wvalue & 1));\<close>
\<close>

definition conditional_negate :: "P256_POINT \<Rightarrow> unsigned \<Rightarrow> P256_POINT" where
  "conditional_negate h wvalue =
     (let tmp = ecp_nistz256_neg (Y h)
      in h\<lparr>Y := copy_conditional (Y h) tmp (ucast (wvalue AND 1))\<rparr>)"

lemma copy_conditional_0: "copy_conditional dst src 0 = dst"
  by (cases dst; cases src) (simp add: copy_conditional_def)

lemma copy_conditional_1: "copy_conditional dst src 1 = src"
  by (cases dst; cases src) (simp add: copy_conditional_def)

lemma sign_flag_cases: "(wvalue :: unsigned) AND 1 = 0 \<or> wvalue AND 1 = 1"
  by (simp add: and_one_eq) (metis even_iff_mod_2_eq_zero odd_iff_mod_2_eq_one)

text \<open>
  C7. The conditional-negation step (\<open>ecp_nistz256_neg\<close> of \<open>Y\<close>, then
  \<open>copy_conditional\<close> with the sign flag \<open>wvalue & 1\<close>) replaces \<open>Y\<close> by its field
  negation when the flag is nonzero and leaves the point as it is when the flag is zero;
  \<open>X\<close> and \<open>Z\<close> are never touched. The selection is computed from the two masks
  \<open>-move\<close> and \<open>~(-move)\<close> by AND and XOR on every limb, whatever the flag.
\<close>

theorem conditional_negate_correct:
  "conditional_negate h wvalue =
     (if wvalue AND 1 = 0 then h else h\<lparr>Y := ecp_nistz256_neg (Y h)\<rparr>)
   \<and> copy_conditional dst src (ucast (wvalue AND 1)) = (if wvalue AND 1 = 0 then dst else src)
   \<and> copy_conditional (d0, d1, d2, d3) (s0, s1, s2, s3) move =
       ((s0 AND - move) XOR (d0 AND NOT (- move)), (s1 AND - move) XOR (d1 AND NOT (- move)),
        (s2 AND - move) XOR (d2 AND NOT (- move)), (s3 AND - move) XOR (d3 AND NOT (- move)))"
  using sign_flag_cases [of wvalue]
  by (auto simp: conditional_negate_def copy_conditional_0 copy_conditional_1 copy_conditional_def Let_def)

section \<open>ecp_nistz256_mod_inverse\<close>

text \<open>
  The body of \<open>ecp_nistz256_mod_inverse\<close>, with the two assembly routines it calls
  (\<open>ecp_nistz256_mul_mont\<close>, \<open>ecp_nistz256_sqr_mont\<close>) as the parameters \<open>mul\<close>
  and \<open>sqr\<close>. A loop \<open>for (i = 0; i < n; i++) sqr(res, res)\<close> is \<open>(sqr ^^ n) res\<close>.
  The first part builds \<open>p2, p4, p8, p16, p32\<close>; the second part is the chain that
  follows them.
\<close>

definition mod_inverse_powers :: "('a \<Rightarrow> 'a \<Rightarrow> 'a) \<Rightarrow> ('a \<Rightarrow> 'a) \<Rightarrow> 'a \<Rightarrow> 'a \<times> 'a \<times> 'a \<times> 'a \<times> 'a" where
  "mod_inverse_powers mul sqr in' =
     (let res = sqr in';
          p2 = mul res in';
          res = sqr p2;
          res = sqr res;
          p4 = mul res p2;
          res = sqr p4;
          res = sqr res;
          res = sqr res;
          res = sqr res;
          p8 = mul res p4;
          res = sqr p8;
          res = (sqr ^^ 7) res;
          p16 = mul res p8;
          res = sqr p16;
          res = (sqr ^^ 15) res;
          p32 = mul res p16
      in (p2, p4, p8, p16, p32))"

definition mod_inverse_chain :: "('a \<Rightarrow> 'a \<Rightarrow> 'a) \<Rightarrow> ('a \<Rightarrow> 'a) \<Rightarrow> 'a \<Rightarrow> 'a \<times> 'a \<times> 'a \<times> 'a \<times> 'a \<Rightarrow> 'a" where
  "mod_inverse_chain mul sqr in' powers =
     (case powers of (p2, p4, p8, p16, p32) \<Rightarrow>
      let res = sqr p32;
          res = (sqr ^^ 31) res;
          res = mul res in';
          res = (sqr ^^ (32 * 4)) res;
          res = mul res p32;
          res = (sqr ^^ 32) res;
          res = mul res p32;
          res = (sqr ^^ 16) res;
          res = mul res p16;
          res = (sqr ^^ 8) res;
          res = mul res p8;
          res = sqr res;
          res = sqr res;
          res = sqr res;
          res = sqr res;
          res = mul res p4;
          res = sqr res;
          res = sqr res;
          res = mul res p2;
          res = sqr res;
          res = sqr res;
          res = mul res in'
      in res)"

definition mod_inverse_with :: "('a \<Rightarrow> 'a \<Rightarrow> 'a) \<Rightarrow> ('a \<Rightarrow> 'a) \<Rightarrow> 'a \<Rightarrow> 'a" where
  "mod_inverse_with mul sqr in' = mod_inverse_chain mul sqr in' (mod_inverse_powers mul sqr in')"

text \<open>
  The operations of the chain as symbols: a value is the input, one of the five
  intermediate powers, a squaring or a multiplication. Running the chain on symbols
  yields the expression it evaluates.
\<close>

datatype chain_term = In | P2 | P4 | P8 | P16 | P32
  | Sqr chain_term
  | Mul chain_term chain_term

text \<open>
  The schedule of an expression, read along its accumulator: for each multiplication
  the number of squarings since the previous one and the multiplicand, and the number
  of squarings after the last multiplication.
\<close>

fun schedule :: "chain_term \<Rightarrow> (nat \<times> chain_term) list \<times> nat" where
  "schedule (Sqr t) = (case schedule t of (done, n) \<Rightarrow> (done, Suc n))"
| "schedule (Mul t m) = (case schedule t of (done, n) \<Rightarrow> (done @ [(n, m)], 0))"
| "schedule t = ([], 0)"

definition multiplicands :: "chain_term \<Rightarrow> chain_term list" where
  "multiplicands t = map snd (fst (schedule t))"

lemma schedule_funpow: "schedule ((Sqr ^^ n) t) = (fst (schedule t), n + snd (schedule t))"
  by (induction n) (simp_all add: case_prod_unfold)

lemma mod_inverse_chain_schedule:
  "schedule (mod_inverse_chain Mul Sqr In (P2, P4, P8, P16, P32)) =
     ([(32, In), (128, P32), (32, P32), (16, P16), (8, P8), (4, P4), (2, P2), (2, In)], 0)"
  by (simp add: mod_inverse_chain_def Let_def schedule_funpow)

text \<open>
  C5 (as stated). The multiplicands of the chain that follows \<open>p2 \<dots> p32\<close> are not
  \<open>p32, p16, p8, p4, p2, a\<close>.
\<close>

theorem mod_inverse_chain_order_counterexample:
  "multiplicands (mod_inverse_chain Mul Sqr In (P2, P4, P8, P16, P32)) \<noteq> [P32, P16, P8, P4, P2, In]"
  by (simp add: multiplicands_def mod_inverse_chain_schedule)

text \<open>
  C5 (amended). After \<open>p2, p4, p8, p16, p32\<close> are built, the remaining chain is a fixed
  schedule of squarings and multiplications: 32 squarings (starting from \<open>p32\<close>) and a
  multiplication by the input \<open>a\<close>, 128 squarings and \<open>p32\<close>, 32 squarings and
  \<open>p32\<close> again, 16 and \<open>p16\<close>, 8 and \<open>p8\<close>, 4 and \<open>p4\<close>, 2 and \<open>p2\<close>, 2 and
  \<open>a\<close>. The multiplicands occur in the order \<open>a, p32, p32, p16, p8, p4, p2, a\<close>.
\<close>

theorem mod_inverse_chain_order:
  "schedule (mod_inverse_chain Mul Sqr In (P2, P4, P8, P16, P32)) =
     ([(32, In), (128, P32), (32, P32), (16, P16), (8, P8), (4, P4), (2, P2), (2, In)], 0)
   \<and> multiplicands (mod_inverse_chain Mul Sqr In (P2, P4, P8, P16, P32))
       = [In, P32, P32, P16, P8, P4, P2, In]"
  by (simp add: multiplicands_def mod_inverse_chain_schedule)

text \<open>The exponent the whole chain raises its input to: squaring doubles, multiplying adds.\<close>

lemma double_funpow: "((\<lambda>e. 2 * e) ^^ n) e = 2 ^ n * e" for e :: nat
  by (induction n) simp_all

lemma mod_inverse_exponent: "mod_inverse_with (+) (\<lambda>e. 2 * e) (1::nat) = P256 - 2"
  by (simp add: mod_inverse_with_def mod_inverse_chain_def mod_inverse_powers_def Let_def
      double_funpow P256_def)

section \<open>Montgomery arithmetic\<close>

text \<open>
  Modelled from the spec: the assembly routines \<open>ecp_nistz256_mul_mont\<close>,
  \<open>ecp_nistz256_sqr_mont\<close> and \<open>ecp_nistz256_from_mont\<close> are not among the sources.
  The field-arithmetic layer provides \<open>mulMont\<close>, \<open>sqrMont\<close> and \<open>fromMontgomery\<close> on
  values held in the Montgomery domain (true value times \<open>2^256\<close> modulo \<open>p\<close>); their
  declarations read "Montgomery mul: res = a*b*2^-256 mod P", "Montgomery sqr:
  res = a*a*2^-256 mod P" and "Convert a number from Montgomery domain, by multiplying
  with 1". \<open>mont_rinv\<close> is \<open>2^-256 mod P\<close>.
\<close>

definition mont_rinv :: nat where
  "mont_rinv = 0xfffffffe00000003fffffffd0000000200000001fffffffe0000000300000000"

definition ecp_nistz256_mul_mont :: "felem \<Rightarrow> felem \<Rightarrow> felem" where
  "ecp_nistz256_mul_mont a b = felem_of_nat ((felem_val a * felem_val b * mont_rinv) mod P256)"

definition ecp_nistz256_sqr_mont :: "felem \<Rightarrow> felem" where
  "ecp_nistz256_sqr_mont a = felem_of_nat ((felem_val a * felem_val a * mont_rinv) mod P256)"

definition ecp_nistz256_from_mont :: "felem \<Rightarrow> felem" where
  "ecp_nistz256_from_mont in' = ecp_nistz256_mul_mont in' (felem_of_nat 1)"

definition ecp_nistz256_mod_inverse :: "felem \<Rightarrow> felem" where
  "ecp_nistz256_mod_inverse in' = mod_inverse_with ecp_nistz256_mul_mont ecp_nistz256_sqr_mont in'"

lemma mont_rinv_inverse: "(mont_rinv * 2 ^ 256) mod P256 = 1"
  by (simp add: mont_rinv_def P256_def)

lemma P256_bound: "P256 < 2 ^ 256"
  by (simp add: P256_def)

lemma P256_pos: "0 < P256"
  by (simp add: P256_def)

lemma unat_limb_of_nat: "unat (of_nat n :: BN_ULONG) = n mod 2 ^ 64"
  by (simp add: unsigned_of_nat take_bit_eq_mod)

lemma horner4:
  "c0 + B * (c1 + B * (c2 + B * c3)) = c0 + B * c1 + B * B * c2 + B * B * B * c3" for B :: nat
  by (simp add: algebra_simps)

lemma digits_recompose:
  fixes n B :: nat
  assumes "n < B * (B * (B * B))"
  shows "n mod B + B * (n div B mod B) + B * B * (n div (B * B) mod B)
           + B * B * B * (n div (B * B * B) mod B) = n"
proof -
  have B: "0 < B" using assms by (cases B) auto
  have "n div (B * B * B) < B"
    using assms B by (simp add: less_mult_imp_div_less mult.assoc mult.commute)
  then have top: "n div (B * B * B) mod B = n div (B * B * B)" by simp
  have d2: "n div (B * B) = n div B div B" by (simp add: div_mult2_eq)
  have d3: "n div (B * B * B) = n div B div B div B" by (simp add: div_mult2_eq)
  have "n = n mod B + B * (n div B)" by simp
  also have "n div B = n div B mod B + B * (n div B div B)" by simp
  also have "n div B div B = n div B div B mod B + B * (n div B div B div B)" by simp
  finally have e: "n mod B + B * (n div B mod B + B * (n div B div B mod B + B * (n div B div B div B))) = n"
    by (rule sym)
  show ?thesis
    unfolding top unfolding d2 d3 by (simp only: horner4 [symmetric] e)
qed

lemma limbs_recompose:
  fixes n :: nat
  assumes "n < 2 ^ 256"
  shows "n mod 2 ^ 64 + 2 ^ 64 * (n div 2 ^ 64 mod 2 ^ 64) + 2 ^ 128 * (n div 2 ^ 128 mod 2 ^ 64)
           + 2 ^ 192 * (n div 2 ^ 192 mod 2 ^ 64) = n"
proof -
  have p2: "(2::nat) ^ 128 = 2 ^ 64 * 2 ^ 64" and p3: "(2::nat) ^ 192 = 2 ^ 64 * 2 ^ 64 * 2 ^ 64"
    by simp_all
  have "n < 2 ^ 64 * (2 ^ 64 * (2 ^ 64 * 2 ^ 64))" using assms by simp
  then show ?thesis
    unfolding p2 p3 by (rule digits_recompose)
qed

lemma felem_val_of_nat:
  assumes "n < 2 ^ 256"
  shows "felem_val (felem_of_nat n) = n"
proof -
  have "felem_val (felem_of_nat n) =
      n mod 2 ^ 64 + 2 ^ 64 * (n div 2 ^ 64 mod 2 ^ 64) + 2 ^ 128 * (n div 2 ^ 128 mod 2 ^ 64)
           + 2 ^ 192 * (n div 2 ^ 192 mod 2 ^ 64)"
    by (simp only: felem_val_def felem_of_nat_def unat_limb_of_nat prod.case)
  also have "\<dots> = n"
    using assms by (rule limbs_recompose)
  finally show ?thesis .
qed

lemma felem_val_mod [simp]: "felem_val (felem_of_nat (n mod P256)) = n mod P256"
proof -
  have "n mod P256 < P256" using P256_pos by simp
  then have "n mod P256 < 2 ^ 256" using P256_bound by linarith
  then show ?thesis by (rule felem_val_of_nat)
qed

text \<open>
  Powers in the Montgomery domain: with \<open>b = a * 2^-256\<close>, the element that stands for
  the \<open>e\<close>-th Montgomery power of \<open>a\<close> has the value \<open>b^e * 2^256 mod P\<close>.
\<close>

definition mont_pow :: "nat \<Rightarrow> nat \<Rightarrow> felem" where
  "mont_pow a e = felem_of_nat (((a * mont_rinv) ^ e * 2 ^ 256) mod P256)"

lemma cancel_rinv: "(x * 2 ^ 256 * mont_rinv) mod P256 = x mod P256"
proof -
  have "x * 2 ^ 256 * mont_rinv = x * (mont_rinv * 2 ^ 256)"
    by (simp only: ac_simps)
  then have "(x * 2 ^ 256 * mont_rinv) mod P256 = (x * ((mont_rinv * 2 ^ 256) mod P256)) mod P256"
    by (simp only: mod_mult_right_eq)
  then show ?thesis by (simp only: mont_rinv_inverse mult_1_right)
qed

lemma sqr_mont_in: "ecp_nistz256_sqr_mont x = mont_pow (felem_val x) 2"
proof -
  let ?a = "felem_val x"
  have "((?a * mont_rinv) ^ 2 * 2 ^ 256) mod P256 = ((?a * ?a * mont_rinv) * 2 ^ 256 * mont_rinv) mod P256"
    by (simp add: power2_eq_square algebra_simps)
  also have "\<dots> = (?a * ?a * mont_rinv) mod P256"
    by (rule cancel_rinv)
  finally show ?thesis
    by (simp add: ecp_nistz256_sqr_mont_def mont_pow_def)
qed

lemma mul_mont_pow_in: "ecp_nistz256_mul_mont (mont_pow (felem_val x) e) x = mont_pow (felem_val x) (Suc e)"
proof -
  let ?a = "felem_val x" and ?b = "felem_val x * mont_rinv"
  have "((?b ^ e * 2 ^ 256) mod P256 * ?a * mont_rinv) mod P256 = (?b ^ e * 2 ^ 256 * (?a * mont_rinv)) mod P256"
    by (simp add: mod_mult_left_eq mult.assoc)
  also have "\<dots> = (?b ^ Suc e * 2 ^ 256) mod P256"
    by (simp add: algebra_simps)
  finally show ?thesis
    by (simp add: ecp_nistz256_mul_mont_def mont_pow_def)
qed

lemma mod_prod3: "((u mod p) * (v mod p) * r) mod p = (u * v * r) mod p" for u v r p :: nat
proof -
  have "((u mod p) * (v mod p) * r) mod p = (((u mod p) * (v mod p)) mod p * r) mod p"
    by (rule mod_mult_left_eq [symmetric])
  also have "((u mod p) * (v mod p)) mod p = (u * v) mod p"
    by (rule mod_mult_eq)
  also have "((u * v) mod p * r) mod p = (u * v * r) mod p"
    by (rule mod_mult_left_eq)
  finally show ?thesis .
qed

lemma mul_mont_pow_pow:
  "ecp_nistz256_mul_mont (mont_pow a e1) (mont_pow a e2) = mont_pow a (e1 + e2)"
proof -
  let ?b = "a * mont_rinv"
  have "((?b ^ e1 * 2 ^ 256) mod P256 * ((?b ^ e2 * 2 ^ 256) mod P256) * mont_rinv) mod P256
      = ((?b ^ e1 * 2 ^ 256) * (?b ^ e2 * 2 ^ 256) * mont_rinv) mod P256"
    by (rule mod_prod3)
  also have "\<dots> = ((?b ^ (e1 + e2) * 2 ^ 256) * 2 ^ 256 * mont_rinv) mod P256"
    by (simp add: power_add algebra_simps)
  also have "\<dots> = (?b ^ (e1 + e2) * 2 ^ 256) mod P256"
    by (rule cancel_rinv)
  finally show ?thesis
    by (simp add: ecp_nistz256_mul_mont_def mont_pow_def)
qed

lemma sqr_mont_pow: "ecp_nistz256_sqr_mont (mont_pow a e) = mont_pow a (2 * e)"
proof -
  have "ecp_nistz256_sqr_mont x = ecp_nistz256_mul_mont x x" for x
    by (simp add: ecp_nistz256_sqr_mont_def ecp_nistz256_mul_mont_def)
  then show ?thesis
    by (simp add: mul_mont_pow_pow mult_2)
qed

lemma sqr_mont_funpow: "(ecp_nistz256_sqr_mont ^^ n) (mont_pow a e) = mont_pow a (2 ^ n * e)"
  by (induction n) (simp_all add: sqr_mont_pow algebra_simps)

lemma mod_inverse_mont_pow:
  "ecp_nistz256_mod_inverse x = mont_pow (felem_val x) (P256 - 2)"
  by (simp add: ecp_nistz256_mod_inverse_def mod_inverse_with_def mod_inverse_chain_def
      mod_inverse_powers_def Let_def sqr_mont_in [of x] mul_mont_pow_in [of x] mul_mont_pow_pow
      sqr_mont_pow sqr_mont_funpow P256_def del: felem_val_mod)

section \<open>The field prime is a prime number\<close>

text \<open>
  \<open>ecp_nistz256_mod_inverse\<close> inverts by Fermat's little theorem, so its correctness rests on
  \<open>P256\<close> being prime. Primality is established from a factored part
  \<open>F = 257 * 641 * 1531 * 65537 * 490463 * 6700417\<close> of \<open>P256 - 1\<close>, which exceeds the cube
  root of \<open>P256\<close>: every prime factor of \<open>P256\<close> is \<open>1\<close> modulo \<open>F\<close> (Pocklington, with
  base 6), and a number all of whose divisors are \<open>1\<close> modulo such an \<open>F\<close> is prime when a
  discriminant condition holds (Brillhart, Lehmer and Selfridge).
\<close>

subsection \<open>Primes and Fermat's little theorem\<close>

definition is_prime :: "nat \<Rightarrow> bool" where
  "is_prime p = (1 < p \<and> (\<forall>d. d dvd p \<longrightarrow> d = 1 \<or> d = p))"

lemma prime_factor_exists: "1 < n \<Longrightarrow> \<exists>p. is_prime p \<and> p dvd n"
proof (induction n rule: less_induct)
  case (less n)
  show ?case
  proof (cases "is_prime n")
    case True
    then show ?thesis by auto
  next
    case False
    then obtain d where d: "d dvd n" "d \<noteq> 1" "d \<noteq> n"
      using less.prems by (auto simp: is_prime_def)
    have "0 < d" using d(1) less.prems by (cases d) auto
    then have "1 < d" using d(2) by simp
    moreover have "d < n" using d less.prems by (simp add: dvd_imp_le le_neq_implies_less)
    ultimately obtain p where "is_prime p" "p dvd d" using less.IH by blast
    then show ?thesis using d(1) dvd_trans by blast
  qed
qed

lemma prime_coprime: "is_prime p \<Longrightarrow> \<not> p dvd a \<Longrightarrow> coprime p a"
proof -
  assume p: "is_prime p" and na: "\<not> p dvd a"
  have "gcd p a dvd p" by simp
  then have "gcd p a = 1 \<or> gcd p a = p" using p by (simp add: is_prime_def)
  moreover have "gcd p a \<noteq> p" using na by (metis gcd_dvd2)
  ultimately show ?thesis by (simp add: coprime_iff_gcd_eq_1)
qed

lemma prime_dvd_binomial:
  assumes "is_prime p" "0 < k" "k < p"
  shows "p dvd (p choose k)"
proof -
  obtain j where k: "k = Suc j" using assms(2) by (cases k) auto
  obtain m where p: "p = Suc m" using assms(3) by (cases p) auto
  have "Suc j * (Suc m choose Suc j) = Suc m * (m choose j)"
    using Suc_times_binomial_eq [of m j] by (simp add: mult.commute)
  then have "Suc m dvd Suc j * (Suc m choose Suc j)" by (simp only: dvd_triv_left)
  then have "p dvd k * (p choose k)" by (simp only: k p)
  moreover have "\<not> p dvd k" using assms(2,3) by (auto dest: dvd_imp_le)
  with assms(1) have "coprime p k" by (rule prime_coprime)
  ultimately show ?thesis by (simp add: coprime_dvd_mult_right_iff)
qed

lemma freshman:
  fixes a :: nat
  assumes "is_prime p"
  shows "(a + 1) ^ p mod p = (a ^ p + 1) mod p"
proof -
  have p1: "1 < p" using assms by (simp add: is_prime_def)
  then obtain m where m: "p = Suc m" by (cases p) auto
  have "(a + 1) ^ p = (\<Sum>k\<le>p. (p choose k) * a ^ k)"
    using binomial [of a 1 p] by (simp add: atMost_atLeast0)
  also have "\<dots> = (\<Sum>k<p. (p choose k) * a ^ k) + a ^ p"
    by (simp add: m lessThan_Suc_atMost)
  also have "(\<Sum>k<p. (p choose k) * a ^ k) = 1 + (\<Sum>k\<in>{1..<p}. (p choose k) * a ^ k)"
    using p1 by (simp add: sum.atLeast_Suc_lessThan lessThan_atLeast0)
  finally have e: "(a + 1) ^ p = (\<Sum>k\<in>{1..<p}. (p choose k) * a ^ k) + (a ^ p + 1)"
    by simp
  have "p dvd (\<Sum>k\<in>{1..<p}. (p choose k) * a ^ k)"
    by (rule dvd_sum) (simp add: prime_dvd_binomial [OF assms])
  then show ?thesis
    unfolding e by (metis mod_add_self1 dvd_eq_mod_eq_0 add.commute mod_add_left_eq add_0)
qed

lemma fermat_pow: "is_prime p \<Longrightarrow> a ^ p mod p = a mod p" for a :: nat
proof (induction a)
  case 0
  then have "0 < p" by (simp add: is_prime_def)
  then show ?case by (simp add: power_0_left)
next
  case (Suc a)
  have "Suc a ^ p mod p = (a ^ p + 1) mod p"
    using freshman [OF Suc.prems, of a] by simp
  also have "\<dots> = (a ^ p mod p + 1) mod p" by (rule mod_add_left_eq [symmetric])
  also have "\<dots> = (a mod p + 1) mod p" using Suc by simp
  also have "\<dots> = (a + 1) mod p" by (rule mod_add_left_eq)
  also have "\<dots> = Suc a mod p" by simp
  finally show ?case .
qed

lemma fermat_little:
  fixes a :: nat
  assumes "is_prime p" "\<not> p dvd a"
  shows "a ^ (p - 1) mod p = 1"
proof -
  have p1: "1 < p" using assms(1) by (simp add: is_prime_def)
  have a0: "0 < a" using assms(2) by (cases a) auto
  have ge: "1 \<le> a ^ (p - 1)" using a0 by simp
  have "a * a ^ (p - 1) = a ^ p" using p1 by (cases p) simp_all
  then have "(a * a ^ (p - 1)) mod p = (a * 1) mod p"
    using fermat_pow [OF assms(1), of a] by simp
  then have "p dvd a * a ^ (p - 1) - a * 1"
    using ge by (simp add: mod_eq_dvd_iff_nat)
  then have "p dvd a * (a ^ (p - 1) - 1)" by (simp add: right_diff_distrib')
  moreover have "coprime p a" using assms by (rule prime_coprime)
  ultimately have "p dvd a ^ (p - 1) - 1" by (simp add: coprime_dvd_mult_right_iff)
  then have "a ^ (p - 1) mod p = 1 mod p"
    using mod_eq_dvd_iff_nat [OF ge, of p] by blast
  then show ?thesis using p1 by simp
qed

subsection \<open>Pocklington's criterion\<close>

lemma pow_mod_one:
  fixes x :: nat
  assumes "x ^ k mod r = 1"
  shows "x ^ (k * j) mod r = 1"
proof -
  have "x ^ (k * j) mod r = (x ^ k mod r) ^ j mod r"
    by (simp add: power_mult power_mod)
  also have "\<dots> = 1 mod r" using assms by simp
  also have "\<dots> = 1"
  proof -
    have "r \<noteq> 1"
    proof
      assume "r = 1"
      with assms show False by simp
    qed
    then show ?thesis by (cases "r = 0") simp_all
  qed
  finally show ?thesis .
qed

lemma pow_gcd_one:
  fixes x :: nat
  assumes "1 < r"
  shows "x ^ m mod r = 1 \<Longrightarrow> x ^ k mod r = 1 \<Longrightarrow> x ^ gcd m k mod r = 1"
proof (induction m k rule: gcd_nat.induct)
  case (1 m k)
  show ?case
  proof (cases "k = 0")
    case True
    then show ?thesis using "1.prems" by simp
  next
    case False
    have "x ^ m = x ^ (k * (m div k)) * x ^ (m mod k)"
      by (simp add: power_add [symmetric])
    then have "x ^ m mod r = (x ^ (k * (m div k)) mod r * (x ^ (m mod k) mod r)) mod r"
      by (simp add: mod_mult_eq)
    then have "x ^ (m mod k) mod r = 1"
      using "1.prems" pow_mod_one [OF "1.prems"(2), of "m div k"] assms by simp
    then have "x ^ gcd k (m mod k) mod r = 1"
      using "1.IH" [OF False "1.prems"(2)] by simp
    then show ?thesis
      using False by (simp add: gcd_red_nat [symmetric])
  qed
qed

text \<open>One prime of the factored part: it divides \<open>r - 1\<close> for every prime factor \<open>r\<close>.\<close>

lemma pocklington_step:
  fixes x :: nat
  assumes r: "is_prime r" "r dvd n" and n1: "1 < n"
    and q: "is_prime q" "n - 1 = q * m"
    and one: "x ^ (n - 1) mod n = 1"
    and inv: "(u * (x ^ m mod n + n - 1)) mod n = 1"
  shows "q dvd r - 1"
proof (rule ccontr)
  assume nq: "\<not> q dvd r - 1"
  have r1: "1 < r" using r(1) by (simp add: is_prime_def)
  have modr: "a mod n mod r = a mod r" for a
    using r(2) by (rule mod_mod_cancel)
  have xr: "x ^ (n - 1) mod r = 1"
    using modr [of "x ^ (n - 1)"] one r1 by simp
  have "\<not> r dvd x"
  proof
    assume "r dvd x"
    moreover obtain k where "n - 1 = Suc k" using n1 by (cases "n - 1") auto
    ultimately have "r dvd x ^ (n - 1)" by simp
    then show False using xr by (simp add: dvd_eq_mod_eq_0)
  qed
  then have fl: "x ^ (r - 1) mod r = 1" using r(1) by (intro fermat_little)
  let ?g = "gcd (n - 1) (r - 1)"
  have g: "x ^ ?g mod r = 1" using r1 xr fl by (rule pow_gcd_one)
  have "\<not> q dvd ?g" using nq by (meson dvd_trans gcd_dvd2)
  then have "coprime q ?g" using q(1) by (intro prime_coprime)
  moreover have "?g dvd q * m" using q(2) by (metis gcd_dvd1)
  ultimately have "?g dvd m"
    by (simp add: coprime_commute coprime_dvd_mult_right_iff)
  then obtain j where "m = ?g * j" by (auto elim: dvdE)
  then have xm: "x ^ m mod r = 1" using pow_mod_one [OF g, of j] by simp
  have "(u * (x ^ m mod n + n - 1)) mod n mod r = 1"
    using inv r1 by simp
  then have "(u * (x ^ m mod n + n - 1)) mod r = 1"
    by (simp only: modr)
  moreover have "(x ^ m mod n + n - 1) mod r = 0"
  proof -
    have "x ^ m mod n + n - 1 = (x ^ m mod n - 1) + n"
      using xm r1 n1 by (cases "x ^ m mod n") (auto simp: modr [of "x ^ m", symmetric])
    moreover have y: "(x ^ m mod n) mod r = 1" using xm by (simp only: modr)
    have "1 \<le> x ^ m mod n"
    proof (cases "x ^ m mod n")
      case 0
      with y show ?thesis by simp
    next
      case (Suc k)
      then show ?thesis by simp
    qed
    from mod_eq_dvd_iff_nat [OF this, of r] have "r dvd x ^ m mod n - 1"
      using y r1 by simp
    ultimately show ?thesis using r(2) by (simp add: dvd_eq_mod_eq_0 [symmetric])
  qed
  then have "r dvd u * (x ^ m mod n + n - 1)"
    by (simp add: dvd_eq_mod_eq_0 [symmetric])
  ultimately show False by (simp add: dvd_eq_mod_eq_0)
qed

subsection \<open>Divisors congruent to one modulo the factored part\<close>

lemma divisors_one_mod:
  assumes F: "1 < F" and n: "0 < n"
    and primes: "\<And>r. is_prime r \<Longrightarrow> r dvd n \<Longrightarrow> r mod F = 1"
  shows "d dvd n \<Longrightarrow> d mod F = 1"
proof (induction d rule: less_induct)
  case (less d)
  have d0: "0 < d" using less.prems n by (cases d) auto
  show ?case
  proof (cases "d = 1")
    case True
    then show ?thesis using F by simp
  next
    case False
    then have "1 < d" using d0 by simp
    then obtain r where r: "is_prime r" "r dvd d" using prime_factor_exists by blast
    then obtain e where e: "d = r * e" by (auto elim: dvdE)
    have r1: "1 < r" using r(1) by (simp add: is_prime_def)
    have e0: "0 < e" using d0 e by (cases e) auto
    have "e < d" using e r1 e0 by simp
    moreover have "e dvd n" using e less.prems by (metis dvd_mult_right)
    ultimately have "e mod F = 1" by (rule less.IH)
    moreover have "r mod F = 1" using r less.prems by (intro primes) (auto intro: dvd_trans)
    ultimately have "(r * e) mod F = (1 * 1) mod F"
      by (metis mod_mult_eq)
    then show ?thesis using e F by simp
  qed
qed

text \<open>
  The test of Brillhart, Lehmer and Selfridge: when every divisor of \<open>n\<close> is 1 modulo
  \<open>F\<close>, \<open>n - 1 = F * (F * s + t)\<close> with \<open>s, t < F\<close>, and \<open>t^2 - 4 s\<close> lies strictly
  between two consecutive squares, then \<open>n\<close> is prime.
\<close>

lemma square_between:
  fixes w k :: nat
  assumes "k * k < w * w" "w * w < (k + 1) * (k + 1)"
  shows False
proof -
  have "k < w" using assms(1) by (meson mult_le_mono not_le_imp_less leD)
  moreover have "w < k + 1" using assms(2) by (meson mult_le_mono not_le_imp_less leD)
  ultimately show False by simp
qed

lemma bls_final:
  fixes n F s t k :: nat
  assumes F: "1 < F" and n: "n = F * (F * s + t) + 1" and s: "s < F" and t: "t < F"
    and sq: "4 * s + k * k < t * t" "t * t < 4 * s + (k + 1) * (k + 1)"
    and divs: "\<And>d. d dvd n \<Longrightarrow> d mod F = 1"
  shows "is_prime n"
  unfolding is_prime_def
proof (intro conjI allI impI)
  have "0 < t" using sq(1) by (cases t) auto
  then have "0 < F * s + t" by simp
  moreover have "0 < F" using F by simp
  ultimately have "0 < F * (F * s + t)" by (rule mult_pos_pos [rotated])
  then show "1 < n" unfolding n by linarith
next
  fix d assume d: "d dvd n"
  show "d = 1 \<or> d = n"
  proof (rule ccontr)
    assume nd: "\<not> (d = 1 \<or> d = n)"
    obtain d' where d': "n = d * d'" using d by (auto elim: dvdE)
    have n0: "0 < n" using n by simp
    have d0: "0 < d" and d'0: "0 < d'" using d' n0 by (cases d; cases d'; simp)+
    have "d' \<noteq> 1" using nd d' by auto
    have "d' dvd n" using d' by simp
    then have m': "d' mod F = 1" by (rule divs)
    have m: "d mod F = 1" using d by (rule divs)
    define a where "a = d div F"
    define b where "b = d' div F"
    have "d div F * F + d mod F = d" by (rule div_mult_mod_eq)
    then have da: "d = a * F + 1" unfolding m a_def [symmetric] by (rule sym)
    have "d' div F * F + d' mod F = d'" by (rule div_mult_mod_eq)
    then have db: "d' = b * F + 1" unfolding m' b_def [symmetric] by (rule sym)
    have a1: "1 \<le> a" using da nd by (cases a) auto
    have b1: "1 \<le> b" using db \<open>d' \<noteq> 1\<close> by (cases b) auto
    have "F * (F * s + t) + 1 = (a * F + 1) * (b * F + 1)"
      using n d' da db by simp
    also have "\<dots> = F * (F * (a * b) + (a + b)) + 1"
      by (simp add: algebra_simps)
    finally have R: "F * s + t = F * (a * b) + (a + b)"
      using F by simp
    have "F * s + t < F * F"
    proof -
      have "F * s + t < F * s + F" using t by simp
      also have "\<dots> = F * (s + 1)" by simp
      also have "\<dots> \<le> F * F" using s by (intro mult_le_mono2) simp
      finally show ?thesis .
    qed
    then have "F * (a * b) + (a + b) < F * F" using R by simp
    then have "F * (a * b) < F * F" by linarith
    then have ab: "a * b < F" by simp
    obtain a' where a': "a = Suc a'" using a1 by (cases a) auto
    obtain b' where b': "b = Suc b'" using b1 by (cases b) auto
    have sum: "a + b \<le> a * b + 1" by (simp add: a' b')
    have "a + b \<noteq> F"
    proof
      assume eq: "a + b = F"
      then have abF: "a * b = F - 1" using sum ab by simp
      obtain f where f: "F = Suc f" using F by (cases F) auto
      have "F * (a * b) + (a + b) = F * F"
        unfolding abF eq by (simp add: f)
      then show False using R \<open>F * s + t < F * F\<close> by simp
    qed
    then have lt: "a + b < F" using sum ab by simp
    have "(F * s + t) div F = (F * (a * b) + (a + b)) div F" using R by simp
    then have s_eq: "s = a * b" using t lt F by simp
    then have t_eq: "t = a + b" using R by simp
    define w where "w = (a - b) + (b - a)"
    have "t * t = 4 * s + w * w"
    proof (cases "a \<le> b")
      case True
      then obtain c where "b = a + c" using le_Suc_ex by blast
      then show ?thesis by (simp add: s_eq t_eq w_def algebra_simps)
    next
      case False
      then obtain c where "a = b + c" using le_Suc_ex nat_le_linear by blast
      then show ?thesis by (simp add: s_eq t_eq w_def algebra_simps)
    qed
    then have "k * k < w * w" "w * w < (k + 1) * (k + 1)" using sq by simp_all
    then show False by (rule square_between)
  qed
qed

text \<open>Small primes by trial division.\<close>

lemma prime_by_trial:
  assumes "1 < n" and "\<And>d. 2 \<le> d \<Longrightarrow> d * d \<le> n \<Longrightarrow> \<not> d dvd n"
  shows "is_prime n"
  unfolding is_prime_def
proof (intro conjI allI impI)
  show "1 < n" by fact
next
  fix d assume d: "d dvd n"
  show "d = 1 \<or> d = n"
  proof (rule ccontr)
    assume nd: "\<not> (d = 1 \<or> d = n)"
    obtain e where e: "n = d * e" using d by (auto elim: dvdE)
    have d0: "0 < d" and e0: "0 < e" using e assms(1) by (cases d; cases e; simp)+
    have d2: "2 \<le> d" using d0 nd by simp
    have e2: "2 \<le> e" using e0 nd e by (cases "e = 1") auto
    show False
    proof (cases "d \<le> e")
      case True
      then have "d * d \<le> n" using e by simp
      then show False using assms(2) [OF d2] d by simp
    next
      case False
      then have "e * e \<le> n" using e by (simp add: mult.commute)
      moreover have "e dvd n" using e by simp
      ultimately show False using assms(2) [OF e2] by simp
    qed
  qed
qed

fun no_divisor :: "nat \<Rightarrow> nat \<Rightarrow> nat \<Rightarrow> bool" where
  "no_divisor n d 0 = True"
| "no_divisor n d (Suc k) = (n mod d \<noteq> 0 \<and> no_divisor n (Suc d) k)"

lemma no_divisor_sound:
  "no_divisor n d k \<Longrightarrow> d \<le> c \<Longrightarrow> c < d + k \<Longrightarrow> \<not> c dvd n"
proof (induction k arbitrary: d)
  case 0
  then show ?case by simp
next
  case (Suc k)
  show ?case
  proof (cases "c = d")
    case True
    then show ?thesis using Suc.prems(1) by (simp add: dvd_eq_mod_eq_0)
  next
    case False
    then show ?thesis using Suc.prems by (intro Suc.IH [of "Suc d"]) simp_all
  qed
qed

lemma prime_by_no_divisor:
  assumes "1 < n" "no_divisor n 2 k" "n < (k + 2) * (k + 2)"
  shows "is_prime n"
proof (rule prime_by_trial)
  show "1 < n" by fact
next
  fix d assume d: "2 \<le> d" "d * d \<le> n"
  have "d < 2 + k"
  proof (rule ccontr)
    assume "\<not> d < 2 + k"
    then have "k + 2 \<le> d" by simp
    then have "(k + 2) * (k + 2) \<le> d * d" by (intro mult_le_mono)
    then show False using d(2) assms(3) by simp
  qed
  with assms(2) d(1) show "\<not> d dvd n" by (rule no_divisor_sound)
qed

subsection \<open>The prime factors of the factored part\<close>

lemma no_divisor_unfold:
  "no_divisor n d k = (if k = 0 then True else n mod d \<noteq> 0 \<and> no_divisor n (d + 1) (k - 1))"
  by (cases k) simp_all

lemma p257: "is_prime 257"
  by (rule prime_by_no_divisor [where k = 15]) (simp_all add: no_divisor_unfold)

lemma p641: "is_prime 641"
  by (rule prime_by_no_divisor [where k = 24]) (simp_all add: no_divisor_unfold)

lemma p1531: "is_prime 1531"
  by (rule prime_by_no_divisor [where k = 38]) (simp_all add: no_divisor_unfold)

lemma p65537: "is_prime 65537"
  by (rule prime_by_no_divisor [where k = 255]) (simp_all add: no_divisor_unfold)

lemma p490463: "is_prime 490463"
  by (rule prime_by_no_divisor [where k = 699]) (simp_all add: no_divisor_unfold)

lemma p6700417: "is_prime 6700417"
  by (rule prime_by_no_divisor [where k = 2587]) (simp_all add: no_divisor_unfold)

subsection \<open>Checked modular exponentiation\<close>

text \<open>
  A square-and-multiply run modulo \<open>P256\<close>: each step carries the quotient of its product
  by \<open>P256\<close>, so that the reduction is a subtraction of \<open>q * P256\<close>, written out over
  the powers of two of \<open>P256 = 2^256 - 2^224 + 2^192 + 2^96 - 1\<close>. The state is the residue
  and the exponent reached.
\<close>

datatype chain_op = Sq int | Mu int

fun p256_chain :: "int \<Rightarrow> int \<times> nat \<Rightarrow> chain_op list \<Rightarrow> int \<times> nat" where
  "p256_chain b (x, e) [] = (x, e)"
| "p256_chain b (x, e) (Sq q # ops) =
     p256_chain b (x * x - q * 2 ^ 256 + q * 2 ^ 224 - q * 2 ^ 192 - q * 2 ^ 96 + q, 2 * e) ops"
| "p256_chain b (x, e) (Mu q # ops) =
     p256_chain b (x * b - q * 2 ^ 256 + q * 2 ^ 224 - q * 2 ^ 192 - q * 2 ^ 96 + q, e + 1) ops"

lemma P256_int: "int P256 = 2 ^ 256 - 2 ^ 224 + 2 ^ 192 + 2 ^ 96 - 1"
  by (simp add: P256_def)

lemma p256_reduce: "(z - q * 2 ^ 256 + q * 2 ^ 224 - q * 2 ^ 192 - q * 2 ^ 96 + q) mod int P256 = z mod int P256"
proof -
  have "z - q * 2 ^ 256 + q * 2 ^ 224 - q * 2 ^ 192 - q * 2 ^ 96 + q = z - q * int P256"
    unfolding P256_int by (simp only: algebra_simps)
  also have "(z - q * int P256) mod int P256 = (z - (q * int P256) mod int P256) mod int P256"
    by (rule mod_diff_right_eq [symmetric])
  also have "\<dots> = z mod int P256"
    by simp
  finally show ?thesis .
qed

lemma p256_chain_sound:
  assumes "x mod int P256 = b ^ e mod int P256" and "p256_chain b (x, e) ops = (y, e')"
  shows "y mod int P256 = b ^ e' mod int P256"
  using assms
proof (induction ops arbitrary: x e)
  case Nil
  then show ?case by simp
next
  case (Cons op ops)
  show ?case
  proof (cases op)
    case (Sq q)
    have "(x * x) mod int P256 = (b ^ e * b ^ e) mod int P256"
      using Cons.prems(1) by (metis mod_mult_eq)
    then have "(x * x - q * 2 ^ 256 + q * 2 ^ 224 - q * 2 ^ 192 - q * 2 ^ 96 + q) mod int P256
        = b ^ (2 * e) mod int P256"
      by (simp only: p256_reduce) (simp add: power_add [symmetric] mult_2)
    then show ?thesis
      using Cons.prems(2) Sq by (intro Cons.IH [where e = "2 * e"]) simp_all
  next
    case (Mu q)
    have "(x * b) mod int P256 = (b ^ e * b) mod int P256"
      using Cons.prems(1) by (metis mod_mult_left_eq)
    then have "(x * b - q * 2 ^ 256 + q * 2 ^ 224 - q * 2 ^ 192 - q * 2 ^ 96 + q) mod int P256
        = b ^ (e + 1) mod int P256"
      by (simp only: p256_reduce) (simp add: mult.commute)
    then show ?thesis
      using Cons.prems(2) Mu by (intro Cons.IH [where e = "e + 1"]) simp_all
  qed
qed

subsection \<open>The powers of 6 modulo the field prime\<close>

lemma link_c0_0:
  "p256_chain 6 (6, 1)
     [Sq 0, Sq 0, Mu 0, Sq 0, Mu 0, Sq 0, Sq 0, Mu 0, Sq 0, Mu 0,
      Sq 36295157049935714911685137072314100265526685554731519042349831771,
      Sq 2791845506707922332111908503815681777577458471422173654514198369569701615057,
      Sq 56530028021138353116214599779317641881396322856664675010552610721460878191169, Mu 5,
      Sq 34537425514872119302777362547132253295574377912004580651742965110544516684930,
      Sq 41590806881977878116867868873207779363452321379127198320549384816374519483099, Mu 4,
      Sq 50268423325206770343266101971370751771864693691334608646947221823365466062076,
      Sq 15873097202398355174913497945103660963624561176925470926960183499289254867943,
      Sq 13982408184983276761332466352055711305108315912197984822810686985690279398091,
      Sq 34133621641349805115621079597599993804773652651597723378775689761475090799166, Mu 3,
      Sq 112257968992333664000549613451535977402970954753886514290053081101529666331775,
      Sq 1064002797370252982847343743620517614389141018684542168919936723168542693798, Mu 1,
      Sq 45909041758302065009823265416639293960141591751885359506594925833772301452392,
      Sq 64168505172386495044939144806908339689009064393150832612743479207935682578424,
      Sq 75075211926122195703826485593096426723695081808318793516365128628685780412424, Mu 2,
      Sq 87113251504051140372567916691612303074323093264176640037498604794651050020886, Mu 0,
      Sq 33834162416037758420080244446923279985318938108528205227645130818629572177523, Mu 4,
      Sq 16781563399878776109346223510789113506749540528825975040975267254966646450187,
      Sq 24016469431955150839826866952156192495413138452391850392213626113878496849483, Mu 3,
      Sq 37169711316241307547692957739219108694459248279469793680416038317168955208738,
      Sq 48230777141909289329124901841004827153190949415322970521067766144182613479672, Mu 2,
      Sq 68531965081149691327574527452870209506314954823274548635225143625035825483689, Mu 1,
      Sq 28877019528295206311750935664791285955773255293148593401429038803774954090221, Mu 4,
      Sq 108186448306592764769935510552355438107473917294078553998823761946850088262971, Mu 2]
   = (9123656880046057266206552324537753988046598188902510081391790660079488573668, 764695471)"
  by (simp only: p256_chain.simps arith_simps diff_numeral_simps power_numeral Num.pow.simps Num.sqr.simps
      mult_1 mult_1_right mult_zero_left mult_zero_right add_0 add_0_right diff_zero
      numeral_plus_one one_plus_numeral one_add_one diff_numeral_special add_neg_numeral_special)

lemma link_c0_1:
  "p256_chain 6 (9123656880046057266206552324537753988046598188902510081391790660079488573668, 764695471)
     [Sq 718884298853870331211477184468471792542225267508774457951141063741668978349,
      Sq 82984655411444287163043190521544484051691995492109446329643660836455113206455, Mu 0,
      Sq 8263261881621456093368855680911197920975688652852456703734005422993070249088, Mu 4,
      Sq 41204661385808081210183608354977496269283246897536301539964590177349681127093,
      Sq 94187054097626532781881118588531977708175938760045220883847856087377663093856,
      Sq 93051025107398871298270663787012082562297387855339228032260324834888980829296,
      Sq 3612830304696432984205248345020258351245734654843057580679333290962251755251, Mu 0,
      Sq 108628995390460189219039928857098821662698799776834931465081502611784167450935,
      Sq 54352557204923964091271469281573533273039844303057673109609914367018056383980,
      Sq 1562820158042479703764084033998892125123025225699275017009602538314648872221,
      Sq 653645164968822753745020368910069163855567330522971564136841146479530065010, Mu 4,
      Sq 22709407985590487775506722408095238945814814107462835434368480647385057258099,
      Sq 73672311058883115431553290648348887919869646443150542173238348900015791320159,
      Sq 51319822284537805321716430432054474401214165840173959185145815055287255433854,
      Sq 38503588179842553851444366746773103032694438521884222534801370234509199719871, Mu 4,
      Sq 34664291258140578353094507697348030793400346771105903723845957984694613734684,
      Sq 3153065250847231407097539056927203100644900752151237285671554303129932182986, Mu 4,
      Sq 85445712611181470582980033994078660716360234204652270738577820625228037480,
      Sq 21693579503859838046383538687741708924221807500645010638025894197511733878865,
      Sq 72707472047132080400726007705419188291803263842940208250070676108912723513033, Mu 1,
      Sq 64614502645333850029856824377917912993840827527862540874472996297988782793907, Mu 3,
      Sq 65519138056876007647279878625529944354160927539415037110463968892949927572263, Mu 2,
      Sq 19854315875304820475795625937309016808272619117431170530713732776525352500426,
      Sq 60064340810700120117277562995314632803456660975581648446881777266154855121745,
      Sq 46095604195095777275147533810312039763672580205573459535068800042281558193616,
      Sq 43204348040337913770054580436231731519933766135719985680076621728492183589050, Mu 1,
      Sq 29309975412562487806941253966839185400807393842953731872358359362812325810398, Mu 4,
      Sq 5814440956706772082468685520501161752590214467693819407540672599633061381398, Mu 0,
      Sq 399963347027176765678774505153226764074888643067084925850943340588432682835, Mu 0,
      Sq 596923929486105788840533764536885625660598042806593165101732242387667579235, Mu 3,
      Sq 3419203519807777826748575951944597336051993090230817818001351918873996073733]
   = (23735973276711240078404728617585701365306235735031376660744600515196409829486, 1642171020495375934)"
  by (simp only: p256_chain.simps arith_simps diff_numeral_simps power_numeral Num.pow.simps Num.sqr.simps
      mult_1 mult_1_right mult_zero_left mult_zero_right add_0 add_0_right diff_zero
      numeral_plus_one one_plus_numeral one_add_one diff_numeral_special add_neg_numeral_special)

lemma link_c0_2:
  "p256_chain 6 (23735973276711240078404728617585701365306235735031376660744600515196409829486, 1642171020495375934)
     [Mu 1, Sq 6121524301469727298128451276444291773773871571404221452300067745581654830907,
      Mu 4, Sq 32349445187980248725899501877690653700719398095857350770295857913451848031332,
      Mu 2, Sq 534513562157720001425537706409880585711255550491720235440744032935259620682, Mu 5,
      Sq 64632553154253799040157696909549104652932430484993855573970129226293848455169,
      Sq 56777794390586113729712546533899306206418952158758896864148468669626855766119, Mu 1,
      Sq 113263325596576919145031634776706859093939870929488661123885909102725952876579, Mu 2,
      Sq 110847421298874062673183614126925310386978517018532677055836929621427786943276,
      Sq 1577798230387652274915865888145277031330170030458648093825938142864200158729,
      Sq 7368048369002345063724520098180904096075709955456499086079273548120914284498, Mu 3,
      Sq 35197840553881775597695904914710239324246030447482183211894003720265031424412,
      Sq 98237956157517948735707734037827987574620674242853650434640084859334710372099,
      Sq 10806507931409724326542561810211350454373921409843272819329858404235114857037,
      Sq 28756098765095110202383549670588209549420304887945310721799748110307668904947, Mu 5,
      Sq 41692284126837646832576762859631576977087780237445849983788920065590951580825,
      Sq 19817324162213482386463866650962876729079159702657770004544702829570627713068, Mu 4,
      Sq 31159754581426643885914787001632814119749191292653186202592384093694563628775,
      Sq 3093776687673276812596417039650418026653271288278280409117164396923474577224,
      Sq 25822885061401654457862022658318435402068964064764420526035141784525956568897, Mu 4,
      Sq 53153596285345953774504853064429751278815797006865134148689195943047655719, Mu 5,
      Sq 56973610469551527189908639622059338131957863579404270809950588680963219710511, Mu 5,
      Sq 16264408089609707735515798519741518648692354145463225577296282465408100741164,
      Sq 14348798631871446465958243179038779897808780918986154344927682401935740944371, Mu 4,
      Sq 9820413591313488597606040109654491397114428742195258771651953007019985456683,
      Sq 68328677491737913215999164691794605119376423906096540856955257631565713171812,
      Sq 28651986299216297043135352212494843237763090174007937562441903872530671555120, Mu 1,
      Sq 22586237929472435242034585452363788380234330717775013756959858888762076310083, Mu 4,
      Sq 23803409768165800652374925610672050095056814693832605652220466433275610217553,
      Sq 13375019829983054746583670108876300171984189609208114296554404767352415464276,
      Sq 85380292361133857487300905854550720179901474426281974265135632160461614051603, Mu 0]
   = (78250217051046323212966229904162180260189923963417981843888392561254962450632, 881633853433323170502364825)"
  by (simp only: p256_chain.simps arith_simps diff_numeral_simps power_numeral Num.pow.simps Num.sqr.simps
      mult_1 mult_1_right mult_zero_left mult_zero_right add_0 add_0_right diff_zero
      numeral_plus_one one_plus_numeral one_add_one diff_numeral_special add_neg_numeral_special)

lemma link_c0_3:
  "p256_chain 6 (78250217051046323212966229904162180260189923963417981843888392561254962450632, 881633853433323170502364825)
     [Sq 52880093193691347092740121504657540777567269410556222406373188597496436890927,
      Sq 2830034488570267915155827350814004810347450656019261518604944001527231581, Mu 5,
      Sq 114466715905496505628040082919615415809383986868700239032538154260228671608065, Mu 2,
      Sq 3149163772275163410909410321297280598700419315881249600322094509837740117191, Mu 2,
      Sq 6726384235557342627158478890451715534795673864856678555790897167166701077927, Mu 1,
      Sq 112221106389409186284322294294830481438633160265579273674996308879071434264757, Mu 2,
      Sq 83843213312134543328451843921406459851538997165121025207474134912993226294873, Mu 2,
      Sq 60051150593927839162144381705694461519268571380470016411136696417913747203125, Mu 1,
      Sq 81098377079342745912669973848230137573395216066026378590216547366678450498658,
      Sq 22479195769763235276514086632435015039341634567036369141781073446441398277361, Mu 5,
      Sq 39098974870671112569758341274319901678218869995504743401399324767098357633358,
      Sq 3682241799616783928694886514065639718742112091794771832936994229200012266369,
      Sq 1553930899668323176009188538788572733884804799221091004499565617291014502878,
      Sq 114565582823418254752067472053218817800740614969150237773233888476208156189845, Mu 0,
      Sq 36127177246677917610271414001993965656355534970981756502658900746153241817, Mu 1,
      Sq 12894509181441394879078888314514647223617843084012187094493371691379195981411, Mu 1,
      Sq 64011764823093771843328469302919927927039229848550802638300442721021276506294, Mu 4,
      Sq 21643605432378847522752715954010256974669520513194666153893301485309779518896, Mu 0,
      Sq 75690716397797400906759146821794613790961537793843872146938524148496954694757, Mu 2,
      Sq 69902925582919822149438237436281493875197461532741693542457835575033939007537, Mu 1,
      Sq 85434396128961600519387362809049188024503140110043230042284995070365286691507,
      Sq 13328660983053762611250767394324557286539402693671234854697798092066966480931,
      Sq 112050874750587504412124115746480286147354531890721337232735335309092177383728,
      Sq 92484429672071899922093999248928821252963507943134343113952466985558354246644,
      Sq 17039960727185451106888031203620679549738888419796932814744593036008908868048, Mu 0,
      Sq 19139289065954374609251996378906619770671239698214149811716735902050290523393, Mu 2,
      Sq 1937309621464959295823861060557932683367459686637233891211814096469267707964, Mu 2]
   = (68077414806254043461333155853826687572784248528328389191291891882874344614250, 118330892735705635434584025505349511)"
  by (simp only: p256_chain.simps arith_simps diff_numeral_simps power_numeral Num.pow.simps Num.sqr.simps
      mult_1 mult_1_right mult_zero_left mult_zero_right add_0 add_0_right diff_zero
      numeral_plus_one one_plus_numeral one_add_one diff_numeral_special add_neg_numeral_special)

lemma link_c0_4:
  "p256_chain 6 (68077414806254043461333155853826687572784248528328389191291891882874344614250, 118330892735705635434584025505349511)
     [Sq 40024620319988771194583509413379509840109194814797343945911749801233910898607,
      Sq 86777911836320084067303027623277195834430287028030017243150874901270356307203, Mu 4,
      Sq 84348715789985428091363882301199824088249090953223521816067423508521483715,
      Sq 10747461295963607733257131495037566721315550021875517013246171855790490339013, Mu 2,
      Sq 13544814709210213100629663383578134437526291995460347913981234417923626085773, Mu 5,
      Sq 82264530634916601117645574871023566936871225176472251518130616667140062051666,
      Sq 21328652420223865412776256976048759423090039511004083054937275449853591622986, Mu 3,
      Sq 69708887276959779071202849953669775065242520221122279468992455096331824749531,
      Sq 10912386230409913692585953043851440445296315773418234854788365709423268729044, Mu 0,
      Sq 1879425820613066821456344920513578533305432017761476034161363088508278903966,
      Sq 57895571035689556220684429677821813586181426520920346090960801157950705908939,
      Sq 28869565045743920999709642651429062891896926139890094854339141035116288996542, Mu 2,
      Sq 65913301184928859767967990787481154553072988273495171682171549993761022834367, Mu 5,
      Sq 638057775861714571377592324843068248454278573152129266318651424720565916163,
      Sq 4681507127474488096475119721093314542309519721069850327649221631790236894444, Mu 2,
      Sq 103174729487572906970196034487511757394232335305366694163327812135431406285031, Mu 4,
      Sq 106319291010835370577929003697192714768746686219207864160542092442191068752792, Mu 5,
      Sq 14702588602050342831479705270721828659088996882358856478327528144633128621749, Mu 2,
      Sq 47759189836432152206930698191697718377720287790689077526966221215882986259, Mu 1,
      Sq 88305206215669065861761996271071873473057066352224230508376314320415875066162,
      Sq 6316235694168901674005137487750697038885012800543689480985519567830600024209,
      Sq 82770935383547056130789921546251177974676266132513371646520896465137584950, Mu 1,
      Sq 18300734088792685088249854715612778081644198931631438887237938916659480374136,
      Sq 99040925434096388236693122836938812827839995425390399118673694826996954068136,
      Sq 405272858339637109883469410511052305724929843203546070354831301692054448876, Mu 5,
      Sq 59657993112039210865950499750075342292628376099377526836999500632379761375758, Mu 3,
      Sq 2917534909712796637573899000733588311021114377161296261115405703787149118931,
      Sq 460674793085946059325470704540938696658966685645099157052384362833217804005,
      Sq 48310129473755788405012714625865919298650637405469835507962666521192470981969,
      Sq 8842517868777470766713325325223988827789490665863561069007817450488725474038]
   = (112746742018725047673449002771734757903963756464784670920633850284415348663898, 127056828601584918918609284227376506078689584)"
  by (simp only: p256_chain.simps arith_simps diff_numeral_simps power_numeral Num.pow.simps Num.sqr.simps
      mult_1 mult_1_right mult_zero_left mult_zero_right add_0 add_0_right diff_zero
      numeral_plus_one one_plus_numeral one_add_one diff_numeral_special add_neg_numeral_special)

lemma link_c0_5:
  "p256_chain 6 (112746742018725047673449002771734757903963756464784670920633850284415348663898, 127056828601584918918609284227376506078689584)
     [Sq 109781487859189743684959082373373343741885450967675836062881414941878272210021, Mu 0,
      Sq 2244051134252941647204652875597938558445667753987083166994023425888756837993, Mu 0,
      Sq 47626571382101536427510314112997387934705450062377035739005164175412692830693, Mu 0,
      Sq 52289902014873319890903292169283647856787933166813701510272893224774019115363, Mu 3,
      Sq 79316805809857772803919683955529627462228803288190832599171163081806848198519, Mu 2,
      Sq 360663085558239678144435129324193269610258753877501286304861424572795098675, Mu 1,
      Sq 60640157758810146202533712236173990025810447219221914420160104108673603516752, Mu 3,
      Sq 38230548446851836629559701698233539122631478622888170006908971272517516538527, Mu 4,
      Sq 15806222417012321115168604251186341237924379610209753247393200895257141841220, Mu 2,
      Sq 3069555928507645939567328598395134560978398654647105882559923688698517065991,
      Sq 16556356922205583559857368111151405593089199771590655016587856507229272844339,
      Sq 26011037616678321625227606732430015941491177153926496673497055108267085544105,
      Sq 2733405176151011184061335482688779564016582592587862447247709259925298557721,
      Sq 26464830992900341282458789549739615093546380847522585026281831971390738858186, Mu 5,
      Sq 67925024135856464578648136963002976386454622798536678008063410450366367098841, Mu 1,
      Sq 77238681634917691107008408863455946796988898856533527571601772744374585933442, Mu 0,
      Sq 6247027153357648060329994504109589300033708669238106260014778819732925782828, Mu 4,
      Sq 9634993144638437546922109694695900355961502344406886160474115019381231459034,
      Sq 112220316893123853496123915934798412668429455495309641255531638114744822479874, Mu 5,
      Sq 287489374637494808926534772178421498403792992906072036044761773682013618922,
      Sq 289336111360921310189614928772871532156275317484129790417086007156269971495,
      Sq 94269260208094913499397930789849748924074249946262594602386506318730091451734, Mu 1,
      Sq 6398135513970794084811385145225669326132602032702878242745817965477248833128, Mu 1,
      Sq 2418130358443374610291587143571466911959341970027363355950700953324049438195]
   = (105198709172891371792845991563488416806261915425656067020901246285253974161444, 2131659857723768127039994381088088755807488164464550)"
  by (simp only: p256_chain.simps arith_simps diff_numeral_simps power_numeral Num.pow.simps Num.sqr.simps
      mult_1 mult_1_right mult_zero_left mult_zero_right add_0 add_0_right diff_zero
      numeral_plus_one one_plus_numeral one_add_one diff_numeral_special add_neg_numeral_special)

lemma link_xC_0:
  "p256_chain 105198709172891371792845991563488416806261915425656067020901246285253974161444 (105198709172891371792845991563488416806261915425656067020901246285253974161444, 1)
     [Sq 95574477385392802692572236614913082659057942127107433137295339075568500929943,
      Sq 55742486973457743747592916687183962342386976728012894799039165427430441019302,
      Sq 46501103897758766844277946562560314688558139097180021968944841074069580134663,
      Mu 89055079875657697290937928437409888247665222193690414293492478706958515024456,
      Sq 30905342662856643931137103990912160819105054567479329558868978832550578512906,
      Mu 102773646293597459843983527030926604317867992816361808951902559619931088387338,
      Sq 11237213722181849245860168167533482363655124157285860514762360905904967947554,
      Sq 53826174413913341443161784219399375107204181663531707750315588584829012909056,
      Sq 44373579217185990899565694510982774599410050174686471431371503289729255744034,
      Sq 45518926072094100152421643039871750050468221424125104891813805861063286653867,
      Mu 23002871397602974141308430428991434432555759023825893519972805441807169499215,
      Sq 9842884777978096366105631922670081382168482847716765303678462737418263756378,
      Mu 1955235957727209415543634547821961099219635760065019177185405423565975485413,
      Sq 97248902927104891656296536885461559519616853728105800228843487213624574679431,
      Sq 47876402955092778844561090097010761815338608475432736838882931365266181342559,
      Mu 94832232168498428188811384154654496785815577020674417214322082492865657450533,
      Sq 19699520718236526690081690269663657964878984612825885094611724387620166248739,
      Mu 58858747655368223743150260216122650559776621756439851847421339304343733372852,
      Sq 71196276288376510215044051266956815089661338808646170773962682213032673345071,
      Mu 7629673658609577507426829545213782153553901083061485117043056976969048313327,
      Sq 71001623007966515705550585697873363180955099621194055305239272238893962346142,
      Sq 67098598372730143213888150033066388057374317024370760732879754030429847548854,
      Mu 69094834840794175006062093481521673266232252908839809698640044683940046052871,
      Sq 6474708598280368180517247272119522039196881256380337549050974097711867569460,
      Sq 9492112447095962064627161762551533738773716932645848912561434668436747627755,
      Sq 12183652812655509652036662571402076508416376324378916586791332292188064834100,
      Sq 8959215320547828741400013606961474157068289318903138787662018985180474712849,
      Sq 49425261359780574294408872535837207525790974827551158563474032863551526120577,
      Mu 65657498208192753354889986825012029196416683891335957297009573486166185596508,
      Sq 279635618373773299414551265136556589938172888816781921780057722970594773284,
      Mu 95087196380188276013644403358639264783307069319843002980212714750977544447433,
      Sq 46428688837858159655061221153661806227839722991651102032759201588534068933932,
      Sq 19854242041392472588860983164961243364558739252152473448237110005867797885741,
      Mu 93713374491743567185237776919579151126200089301596110140385694197753670640963,
      Sq 63717291248968773888493572192566667574157331550841618989292752527681250862973,
      Sq 32124932749914344555131287172268611300781668559380606555999396189844350460514,
      Mu 94039704325154734914966733098486248055902639168685688180672780803708136949101,
      Sq 36111334420249949689143758927543141196444125375779651505761853137939482646741,
      Mu 31101568149535420875138079839825168254564999915454565366120938173641598600539,
      Sq 535876809710476117044579497128573808249620508021424330904183776339430381809,
      Mu 53350928895963093054827648357985822036004107075966401924350648529880190530286,
      Sq 13801000291084557435907787752444695774691383644851360040081385978368660339388,
      Mu 27530153021489851903848632410330472567243222739288107525777848797729077098090,
      Sq 35731028518157604161778814764364761901183108089357892161886659592296490714808,
      Sq 18385464350622304969873857387607331294740016410982264081922135878257334224770]
   = (42168252638264670882349413203979667149891983273034599731414111191746374469266, 1282311868)"
  by (simp only: p256_chain.simps arith_simps diff_numeral_simps power_numeral Num.pow.simps Num.sqr.simps
      mult_1 mult_1_right mult_zero_left mult_zero_right add_0 add_0_right diff_zero
      numeral_plus_one one_plus_numeral one_add_one diff_numeral_special add_neg_numeral_special)

lemma link_xC_1:
  "p256_chain 105198709172891371792845991563488416806261915425656067020901246285253974161444 (42168252638264670882349413203979667149891983273034599731414111191746374469266, 1282311868)
     [Mu 38310438786219447430021357688696290627947249182539141206561858041032238450407,
      Sq 13398174895710852190261393451519976846909575062462578327004876996935495433019,
      Mu 55369092220863260195093315197314326113338002297525938038566633237819693146078,
      Sq 59157469531077322499495972877450158766062830773021648779035985728468359242329,
      Sq 26089436521979683205789719548687286790986667975931565726649615377900371463526,
      Sq 77926000058541461719740228892670999941738583836052825552586076629756611794530,
      Mu 87657409810366610230888015149247492896275570686637167159607539850746228114488,
      Sq 36293322764639931190467121212931166894706115469628876854276515860797603624532,
      Mu 23007763894961416209894372757468607402159297788787615512885749841741637407518,
      Sq 15055415045272536380173915046858073900715305481324137844283464532459136027598,
      Sq 28650451657999723971394227409123923075757760346635825612319278837626743545236,
      Mu 92180768555833509574162057359391251941811345496504070527796316958064837857672,
      Sq 60831395013143060551083888305821135928444390470671927140433969414683116424964,
      Sq 1088339977132987503781566382844758216531629197956707042993249611777416621877,
      Sq 57542452087273743141773912253389171337511309315707919339313250329224710145450,
      Mu 52292635397617199253929602031599878251766032272851937349423034816083722192969,
      Sq 46516637827916703843906228466155279303197545093994132108403822163390073649767,
      Sq 56441919209044850373788699546912213087672458643570352111651292676056432552717,
      Sq 24337931252697428679148266245155499649306374248339106457713303879443558634419,
      Mu 40726477103797065520045153320220450575412121787202253532589791168167535017747,
      Sq 82942509082666165791801692387100939711975465298410981023390667117461659649712,
      Mu 99675751191216489047597601293400405676421272252616010509682017024532253932757,
      Sq 17828957192381102337324523076683613646689614457073729170369664921675056443360,
      Mu 12580162802611647038535045430334942731419666838604549059874222054944366557964,
      Sq 835866198080647092872343729036313364471544176742862479753974233831813212255,
      Mu 54458227992143197087112439309200301024876265759695929860213896254317623824625,
      Sq 35524079719389881102680125610850923139154787963954939537234901313674036082,
      Sq 70571404861912384002335241758375231614003814672578252554105389583881452200740,
      Mu 21165166994770432853812657272085947855657642567514150372102998262391890166642,
      Sq 1215139027989804115560555779601150125995300806479925307940653047966940743230,
      Mu 49480866913621495128905265922002114253376198366982828976999238064664504617555]
   = (35901956442990663603991823525137134738825280849270289876101349893266141540379, 672300725490299)"
  by (simp only: p256_chain.simps arith_simps diff_numeral_simps power_numeral Num.pow.simps Num.sqr.simps
      mult_1 mult_1_right mult_zero_left mult_zero_right add_0 add_0_right diff_zero
      numeral_plus_one one_plus_numeral one_add_one diff_numeral_special add_neg_numeral_special)

lemma link_xD_0:
  "p256_chain 105198709172891371792845991563488416806261915425656067020901246285253974161444 (105198709172891371792845991563488416806261915425656067020901246285253974161444, 1)
     [Sq 95574477385392802692572236614913082659057942127107433137295339075568500929943,
      Sq 55742486973457743747592916687183962342386976728012894799039165427430441019302,
      Sq 46501103897758766844277946562560314688558139097180021968944841074069580134663,
      Mu 89055079875657697290937928437409888247665222193690414293492478706958515024456,
      Sq 30905342662856643931137103990912160819105054567479329558868978832550578512906,
      Sq 110515094211708393624011773530999648918277760565792485946489897972766397675766,
      Mu 39052690367276581281422982238385187806200950482256567162766158858856162468346,
      Sq 78206668384532893030430843918906647136497118563199509571924591635891866567870,
      Mu 13261046409577227953243571915659791482169658480812853781417392263924719199694,
      Sq 55368837732618007636583267704047541038487808881551583517869266410837698620479,
      Sq 57119011768237624434259018879073499128255881026805644714018636941667086201947,
      Sq 112036945645442748979231448323839625098055910117820434955144504879488483046847,
      Mu 31765259886406288737991368389231652798042960799200763970971456677086934958528,
      Sq 93147577295707236129028435719997260652234671398924523712236396754202658786665,
      Mu 74058524285341469506462228445186316586040865244710572096043989197946826786536,
      Sq 101641148546712838648234947587410440251224729526441267236731476838518732469065,
      Mu 28621055484051445041943410689755256289364026003466038540591808361232446445371,
      Sq 59742137523853908919623787848293909831356578867124773220658529681076883499317,
      Mu 79765044318986733449034549959344843750184565469401599387003792484381655506967,
      Sq 24535460058055304103655054516643376467570325620531116392557067431699857409495,
      Mu 16144268577899273784740134013980652758709121231469494030896515584926918594532,
      Sq 127094383533390294051271862518486718270192056363204883890093254685138502131,
      Mu 91508612092556442021496169036279103909577137439418186002228174520282865266622,
      Sq 955865284902362609447824091142390800139019734666490887150734380879792059604,
      Mu 42524773958856193707314110098098167837914828273051820186151100699674872038204,
      Sq 22786446118450694694099121732465972596133959784712587504117495422771725880732,
      Sq 71471615723405867663621157356445256927138556235867312998688951408015620742758,
      Sq 19794376470794440182679355259491684400976879357689665120150201732965813037818,
      Mu 45827850073841231437924179529938571817937897486279514691122989343728210071420,
      Sq 91291727778953106612075299433303089684844946866868170404974903862344824527087,
      Mu 10074565156322968716030193065323264985890859025892647075287816444377154429956,
      Sq 84107687631311324567262042226826545638593218793903350884479478577321791116628,
      Sq 82426886131629492836532812473115523335044403685095375817838660570386629225784,
      Mu 32870627619150196572354212439119495541496600861436179260137083689221958709239,
      Sq 23014765258322163174755706568576583487848283166679156348084241469605429483337,
      Sq 95148089172163101450833472558505492408845721029125926136185631185086819348026,
      Sq 10354437731725861631564123781851700984359099041275514886472300481266606981679,
      Sq 718616124762969494744816810209702905065805867679394138985183588574890753406,
      Mu 103991256909641165419710475782840839607675507762681156157720214348402441890098,
      Sq 12298418300351718218014852006958604576879302284001678802132449768593082886178,
      Sq 73845339742284757719553789635120833330302696207742368423046081163253491531815,
      Sq 7932976058274575865593435235018594162534536438897312837919029500011402937425,
      Sq 25910176549348514256561163193919323079982852133284310769727067688198437136118,
      Sq 56042170657737757229759224702510290844191871188612709328615545880118381660709,
      Mu 94923424725738236517900679317510492026671423264160753885236059974114163821292]
   = (7977383977017556224743492908219566956375638522980454346820833232125910229808, 1262459425)"
  by (simp only: p256_chain.simps arith_simps diff_numeral_simps power_numeral Num.pow.simps Num.sqr.simps
      mult_1 mult_1_right mult_zero_left mult_zero_right add_0 add_0_right diff_zero
      numeral_plus_one one_plus_numeral one_add_one diff_numeral_special add_neg_numeral_special)

lemma link_xD_1:
  "p256_chain 105198709172891371792845991563488416806261915425656067020901246285253974161444 (7977383977017556224743492908219566956375638522980454346820833232125910229808, 1262459425)
     [Sq 549594152335967250695532814775985034574127054163019547566515702225696109414,
      Sq 15835151143259270683939174281304524220408919315813538414113185650560185063837,
      Mu 49275958625478830917735744357919425614334443928622546073413230756537662124209,
      Sq 74701464814805951139520063278984611939446257624482849839379813466165804760047,
      Mu 78069668970481551317641700120658737004668571861791016932628820817292422405302,
      Sq 109048207609648960182019171950241086236886951928830584688231816079821329447578,
      Mu 24639211883300650126475297851833473494506496815217794400747575299843482714943,
      Sq 101700654373801927347568994852709847767587735888668637896425359395348583435592,
      Mu 97849870165474623810269687728519318493562680304125677019466251681212207148532,
      Sq 314408136695391075924828229910033806389249963380712329512030879210437073366,
      Mu 16623274099314300933245663173049676498378722889279156909180247743575088463029]
   = (34835265960583352153278852114555495979446869872318024517068534671070520317901, 80797403231)"
  by (simp only: p256_chain.simps arith_simps diff_numeral_simps power_numeral Num.pow.simps Num.sqr.simps
      mult_1 mult_1_right mult_zero_left mult_zero_right add_0 add_0_right diff_zero
      numeral_plus_one one_plus_numeral one_add_one diff_numeral_special add_neg_numeral_special)

lemma link_xA_0:
  "p256_chain 35901956442990663603991823525137134738825280849270289876101349893266141540379 (35901956442990663603991823525137134738825280849270289876101349893266141540379, 1)
     [Sq 11131593576248534172596007144264058241520926945726501263469391819227352323789,
      Mu 1535355532687777071753815908109492658661798713742735349637721519168911720590,
      Sq 1753478772882247994951810905201139127783679577513027149881228585315553331545,
      Mu 23572543554000470715636166593792286676809601309638802913880788712560165310420,
      Sq 30033376368656107002249042894685124190486186504063227102555646408337018244404,
      Sq 54882001790474096000030611281641984395799780729921131352351218539290276817495,
      Mu 29454966245666755749429587044443037859078344141458191687815313479093417171305,
      Sq 20687788444736175183740868842822708736235835017184392325074812931901673557929,
      Mu 27639120680264026797314921879092298534600784258590187949536620166887184633631,
      Sq 11306034406812535112910813273781059377677689674019449357257973860167605985535,
      Mu 29130707418429465533027364187490579334432071135384698818913510198539268762223,
      Sq 56184791455907463964514621320200226897713738555656189443165843667360104338508,
      Mu 29356063501455305774567541503827208289913314224891740567960378019013724833565,
      Sq 87007386492738583078915929934159513365771225296819602815625256105431660885669,
      Sq 68100412775813711452813050389308912601142540753972841440309565178512149552947,
      Mu 7812303784675323909513282565786652066715560653072337543933473257563233165769,
      Sq 30206786444628708624413369047706431463791547188343826583739023794713244403649,
      Mu 10602181068331289524142556300710718747843995451597801863585618957661351442399,
      Sq 78444974996329062544289875804576607974698346446530758269715665579937734223325,
      Mu 26163713897884672309532896979525190943024481123582659789673108728833749779932,
      Sq 266088009424787720673860614790582323453609025915893503214223581698730277752,
      Mu 24740560545180867758258935322757322548964461915861127472880611042195678596993,
      Sq 62046830974958941756714454898456970205005335713146346823215212455600090989046,
      Sq 7870939295724389635956727784231377866256622544862167788038175203458392660622,
      Mu 29216715473350071636711391262215171716081493955407596415494417304484634246650,
      Sq 39114843180123624745852696764959441881208059729698393494140525332338345853788,
      Mu 23754345505558233996365379345924165104997574105158034941240114410149994212649,
      Sq 1436307100952789196343062289041110639366671955280354412679863130137878487312,
      Mu 24728856140941462851510241478769634462385611855187931991913854608452033220733,
      Sq 56043479821199975879614511916916533884770835800311353483639647657731113276368,
      Mu 18117859611140950707334906909256938229648162581399080996220350667911380251681,
      Sq 6774277663831768465798226198760261296217371105292503076589793846651603863566,
      Mu 16676469303940696300765218763968484595577426537169946470466714349920492280784]
   = (71468452791492482855157649420624114674944325021948424536751459572829582431738, 490463)"
  by (simp only: p256_chain.simps arith_simps diff_numeral_simps power_numeral Num.pow.simps Num.sqr.simps
      mult_1 mult_1_right mult_zero_left mult_zero_right add_0 add_0_right diff_zero
      numeral_plus_one one_plus_numeral one_add_one diff_numeral_special add_neg_numeral_special)

lemma link_a490463_0:
  "p256_chain 35901956442990663603991823525137134738825280849270289876101349893266141540379 (35901956442990663603991823525137134738825280849270289876101349893266141540379, 1)
     [Sq 11131593576248534172596007144264058241520926945726501263469391819227352323789,
      Sq 211768117081167146136203800755345911152892066541020286878731754718938331362,
      Mu 21946050670793774080796060382917358639076668032057156200486441055887602851083,
      Sq 50158181801363434545085538059628853832384214717760058369402492322735006535493,
      Sq 73259677739822376224856409937559701845014959425136381079453669053414073598363,
      Sq 8376541513245155135711389773279518410020011039334772577036842739000127524326,
      Sq 85600562714160007839711583212842326966452316104578222820276093744461232016263,
      Sq 69398696257075485619597986471971174865697217221904735550375804608342618350713,
      Sq 68759704296490739800406658909733096481162538800694367594517816826943810586531,
      Mu 7672623057859015945995081171639158882007796432951150557525438593383563156483,
      Sq 2331938691665563699671102021639520510970803046665674680584487926944792209690,
      Mu 35737970984849130971123694666249039103032090980326594618689981314826804487948,
      Sq 19817288039787289931086172964865447121142764794913880171363506125098707860588,
      Mu 4440753659627268511177415251593777192803704023391623739635126957990044658780,
      Sq 8371916729038861998937984002941610353570740029719598161214670855878513630463,
      Sq 61616809577340316224980571431723421157219066267948277985464072746104138474786,
      Sq 110931834915386402146426206139065345123957372639481624669731887896293104492659,
      Sq 159248779068318372255444306050571167987555719708784007681937682717921682402,
      Sq 4655640591823718184134364299252205763026169558256263535472381858329092533869,
      Sq 109189870547423801364476048205750927030562255738449692396097792569095787938137,
      Sq 43629708680772619762630101173989377956378053988551455933076129110402704730761,
      Mu 30812276016292173700820110722682663818375205478884865036051379354806250130574]
   = (47551681459734928383308379463919739026341324778493777690629929511110838017908, 164737)"
  by (simp only: p256_chain.simps arith_simps diff_numeral_simps power_numeral Num.pow.simps Num.sqr.simps
      mult_1 mult_1_right mult_zero_left mult_zero_right add_0 add_0_right diff_zero
      numeral_plus_one one_plus_numeral one_add_one diff_numeral_special add_neg_numeral_special)

lemma link_a257_0:
  "p256_chain 71468452791492482855157649420624114674944325021948424536751459572829582431738 (71468452791492482855157649420624114674944325021948424536751459572829582431738, 1)
     [Sq 44111301378548423796183642538909173025701084725191991509382442048845307453778,
      Sq 47914874278054335189217060339974211369948972510535513606233086815491665394680,
      Mu 40559410776313056252187725441602232644594406598279392013959490584221410104183,
      Sq 55397554891286205901657298432709821149849562599026978986230007547775983989420,
      Sq 8550952140816344613771279351715583126017592756984751456397275491555005610080,
      Sq 105681647011842003740159322153696539393580504901923315913256305733004308853229,
      Sq 64787230015724994223070974231754183449462465053846681216416414458715659786430,
      Sq 12170852002316375823080175032413926175433521078135038618156500710170763954539,
      Sq 370654195516427158244692271842026666542145375236664546906714994620966511277,
      Sq 3324219741119969068809655519313472213457134426971057393287917633120433413918,
      Mu 22692394940872408420291428130380975839018945386212739336106715008472036282638]
   = (94784035371912852912874182022529621622294755194336741774199288822185853816770, 641)"
  by (simp only: p256_chain.simps arith_simps diff_numeral_simps power_numeral Num.pow.simps Num.sqr.simps
      mult_1 mult_1_right mult_zero_left mult_zero_right add_0 add_0_right diff_zero
      numeral_plus_one one_plus_numeral one_add_one diff_numeral_special add_neg_numeral_special)

lemma link_a641_0:
  "p256_chain 71468452791492482855157649420624114674944325021948424536751459572829582431738 (71468452791492482855157649420624114674944325021948424536751459572829582431738, 1)
     [Sq 44111301378548423796183642538909173025701084725191991509382442048845307453778,
      Sq 47914874278054335189217060339974211369948972510535513606233086815491665394680,
      Sq 37293522319921953433629232897886714749838252853687490754986142446454785186309,
      Sq 1772708596874113200198728101825593486982389400570631139714087941288548948651,
      Sq 5308004944127150361220832351285254163735275019528073796376835453291145364563,
      Sq 11993018065731655078881818070769262775012813489935160977301518328410641779,
      Sq 84119657745569040698198888981310989329792362719205165840065362666144983050728,
      Sq 28211770178469322579507905211651327526422797473901652839464120490023322207194,
      Mu 34615527710698506446636784328054343775575733824663834283308658075565609759210]
   = (73772617749849487604415205117597022814228633036826951038419219002741772834126, 257)"
  by (simp only: p256_chain.simps arith_simps diff_numeral_simps power_numeral Num.pow.simps Num.sqr.simps
      mult_1 mult_1_right mult_zero_left mult_zero_right add_0 add_0_right diff_zero
      numeral_plus_one one_plus_numeral one_add_one diff_numeral_special add_neg_numeral_special)

lemma link_a6700417_0:
  "p256_chain 34835265960583352153278852114555495979446869872318024517068534671070520317901 (34835265960583352153278852114555495979446869872318024517068534671070520317901, 1)
     [Sq 10479953879578538315357071493873718780964971944378854233930730238971008557265,
      Sq 95969287575907285547282584014510335439316639320076323587052246093940494421298,
      Mu 10576541167380785232259122171708065875769472362519653784355519420037816860066,
      Sq 2300139963525515697754466676447038945194899263816577194485739707879547585629,
      Mu 2404809096767148577892304724099642395742506217295000969964389807103216702469,
      Sq 5563005827952468248997458543064988477121802726806176955295281633886962527167,
      Mu 3545790257583244220258395745940346801517564697906129500288303360358264204740,
      Sq 617796546498453568183120434566794517529341395261331404935616570068738761594,
      Mu 34192225592691106874434619460767070922461277771054516110126688597094303736900,
      Sq 17655464850370869288931501036531723998925324479435559834014770476314929100537,
      Mu 11481715649691211413359745329586138234904139489553455599442281025554437589281,
      Sq 91041778029436651640253459142878472943006524416792949558182057945981152261794,
      Mu 12922450582420440908976826882317428400984227476734864000800757517611501568035,
      Sq 29542476261942615797313768711014529711913886038901037000795554546106748933226,
      Sq 44742479536854566594928874439427850355469710217341821696466505737485960024446,
      Mu 31524536757079239634210977695898066554988282020317632884142428100100048491154,
      Sq 15742128352962579125926113942474384896915514928965167910375764014035739406803,
      Mu 10853681318937224259715774662267363490057186767653768300302781899282735568315,
      Sq 4439750335251466295291344210750890697964688002147608583039826063871351081318,
      Sq 79555113872412590566858051005827121932438096075029992766661331821072885555,
      Sq 4540284837785797650119466675493042155794096422609827762000409961277775516623,
      Sq 37544843496949122197401029721189696209620553729566373243770086533466587536785,
      Sq 79429575653077702649667739666773861281637224997482242171878123241215563612660,
      Sq 29524358854290183144091670927951654506270833038165248550188471599444098781538,
      Mu 23134840809095709548141173704595754626230454492355312361572715386149334618421,
      Sq 40076444315666086077763560039940845693490613171708543559932624156727495091310,
      Sq 53381522018994373859084036692543400558960929706551629158678874538130365175865,
      Mu 33296745267954982929028482333126956743050060505073984400285741045073738022395,
      Sq 9095339432860214240843792692707896251330744182985603036572777442276837933387,
      Mu 24367436383967225935241731767455242402431220879549447519937495571092045755119,
      Sq 31082421171272533188757717266061189234680914813665684784036358985415896980364,
      Mu 343528001624384268897614131367468454813595673044887357358181882782087903356,
      Sq 75365374443865187855524228127966957983290562603132435835623293613740414830,
      Mu 13768836832470185960864128191768284174371316565686053098813701206309496412315,
      Sq 12463586701546582695759341224937018538814677277785572753881683667362381593312,
      Mu 8922939290930582603386285985748239836199582548633513880363550261975514632066,
      Sq 16177394971455718176363276661061799938817020802775904482580413245617248607108,
      Mu 460848175431304740014114978440859177540553108894666541366725254762096016912,
      Sq 1963169353298888218535373617291130798339862159390585983618482501913154774408,
      Sq 41554791628445906849614163118050248139769013549850926234572966024267257254025,
      Mu 17288943983953726054012331667147486374944230159431860200593841335331169026442,
      Sq 90011282083534570124430716678598218161894671543166894706033182459209602384021,
      Mu 30658019757507502326539931421967879611046054138357792343445348120538230594847]
   = (86900396401832178961235217232859237981114935325153096234781032859889316105536, 100337147)"
  by (simp only: p256_chain.simps arith_simps diff_numeral_simps power_numeral Num.pow.simps Num.sqr.simps
      mult_1 mult_1_right mult_zero_left mult_zero_right add_0 add_0_right diff_zero
      numeral_plus_one one_plus_numeral one_add_one diff_numeral_special add_neg_numeral_special)

lemma link_xB_0:
  "p256_chain 34835265960583352153278852114555495979446869872318024517068534671070520317901 (34835265960583352153278852114555495979446869872318024517068534671070520317901, 1)
     [Sq 10479953879578538315357071493873718780964971944378854233930730238971008557265,
      Mu 31713620223044829387606847943609686430095105916939105308432635435281716377349,
      Sq 27507036104068047419021862980095952887904688775542932938117850238152844884997,
      Sq 33312718203030978183249810683883359834060918179996613016013014344366489546587,
      Sq 32439930015629637662146797813145346705475513238117445839645001539706987566113,
      Mu 19496387658473333572456846005217087528167018271695582791788620671645885947424,
      Sq 22940800462688915240982702005570217654187798319642000657196888302862576272972,
      Mu 28526949731204453820683514552251029503511422838168183542714901950704522553724,
      Sq 35988128780289045206019381122806032291521820956983476222808928631774525934176,
      Sq 50501741581004679067369536235197391457647444855327549736625573267944343617911,
      Sq 24399630930002983175991365568555789585630909109406334122790874782969052468236,
      Sq 95847870639442517363559962387626540109612940234824667027831328091295215143037,
      Mu 32318722532555122850611342874993252994056514291456026438991530579455746140170,
      Sq 100757222564857721081188403560519536440617459573891652556989661324328887820042,
      Mu 6685817524821699231003202440888657941641478431022525612730851758562575930852,
      Sq 13728028576205650248476168903982592423242540550209770719591979548757288046794,
      Mu 26254580082267506093079109935673179716866346774433774852180899517756641273604,
      Sq 18692224544698742822215708479297689898841835410603727145848695616809842896394,
      Mu 5548163894843230467806657529580810545999614049898805901091614126722113660486,
      Sq 7443552931870435841041836930519376630058543645723775675495412102145563824445,
      Sq 17487745622522708409332090487274215564601552765398798640175900752469535604022,
      Mu 23937267563286374971804710502030868897104788309603997203821984031523594922015,
      Sq 4271564079825877945092014493651217897438317718613525884521511644791662894136,
      Mu 1121380306497657535534947022954845670781768662722233316002640513332913579559,
      Sq 4211727810727493822626382377306438438901310085103072069760964495876661758046,
      Sq 103497187475077663675335691822933044695347639805234802425692014170686296197195,
      Sq 9883687849986777848109120148731706476140990598896930885350325550157552072295,
      Sq 78409108073371858119160985051236616026498285433796555274881752968434322682519,
      Sq 109040240946063148636075560400773265339915473517110617131168158026288424035885,
      Sq 11126202030133582923654164854952738302724329539979665406619061850451761775,
      Sq 34679087581561372473280161303165774677550106379471218626788727065600286574154,
      Mu 2311991099298215977551328543935648257455121424552748624310243191203866310640]
   = (7164065647544418885295583125718780255726157322906136642269610597352622266482, 6700417)"
  by (simp only: p256_chain.simps arith_simps diff_numeral_simps power_numeral Num.pow.simps Num.sqr.simps
      mult_1 mult_1_right mult_zero_left mult_zero_right add_0 add_0_right diff_zero
      numeral_plus_one one_plus_numeral one_add_one diff_numeral_special add_neg_numeral_special)

lemma link_a1531_0:
  "p256_chain 7164065647544418885295583125718780255726157322906136642269610597352622266482 (7164065647544418885295583125718780255726157322906136642269610597352622266482, 1)
     [Sq 443241303895013552201332038605663202606401633202819055705758453714099862774,
      Sq 8857320914768283674640643761046297549672905375610760638937071306130194107198,
      Sq 34552997662099326726704421362588965282409527215101987563102386471233598254330,
      Sq 54304797166460422870395972841318891800475750434763041487226992891543359860739,
      Sq 6728897172150621614827376666632212999385820988490537940510727359312503565227,
      Sq 21637815843461918408592727185091191119360365827433699737265563410482653123,
      Sq 2570225661072910301983735838905238946004055838804684530997570792282451980996,
      Sq 68514095586627828617486033518106006017905102497839740752233091083154686366882,
      Sq 114592475933901991186638153364837827860487742604328860971503185077023371882763,
      Sq 25454033544019351179732075770106608235254213202820245118579312922134634787903,
      Sq 9018836518213433763966440319274490625815432605446792708157647909631138600878,
      Sq 4086618907007231222698430013498936093416143893994187761758031414201233734705,
      Sq 2453137359109036152609760021961387626168831007771769201232333166886397515390,
      Sq 21490234708706536484728806398016418071509423450552276052332518967776572301062,
      Sq 16076147782187443759933520687091282917229229882413704663326859310620880771041,
      Sq 3414709579418146653782433354021742493045260489135389531961625399361479552893,
      Mu 1518252686343266491329501997205984273100453623317693105240877529881964299259]
   = (87083230532117752554147991845578870696698760857476716249127647529451443651015, 65537)"
  by (simp only: p256_chain.simps arith_simps diff_numeral_simps power_numeral Num.pow.simps Num.sqr.simps
      mult_1 mult_1_right mult_zero_left mult_zero_right add_0 add_0_right diff_zero
      numeral_plus_one one_plus_numeral one_add_one diff_numeral_special add_neg_numeral_special)

lemma link_a65537_0:
  "p256_chain 7164065647544418885295583125718780255726157322906136642269610597352622266482 (7164065647544418885295583125718780255726157322906136642269610597352622266482, 1)
     [Sq 443241303895013552201332038605663202606401633202819055705758453714099862774,
      Sq 8857320914768283674640643761046297549672905375610760638937071306130194107198,
      Mu 3913478725792470750546755863591191404286130103928577983769650251584493408674,
      Sq 49413597425322232924091876036523298691172302841513453608261263847082804480972,
      Mu 5569389071137446949952698735083566993695679276764385176192089878139529196652,
      Sq 6517767629103591689595437604348533965529350588575352374079872497878684765005,
      Mu 5027079201806075329805627010674011622121283148990765925576683423165908099287,
      Sq 35612642998832865524197977413116952800726884531825605180801892038372187459181,
      Mu 4219307721816020843703788655413621735151956862466868210575846915698077965386,
      Sq 37448786398310838521845957779133290596616583955353740351479661140671389567133,
      Mu 5589582115417998546017526206826239785742788087347835646989751721272061079208,
      Sq 13804021763730413111479488056394173275021638015519946332456382865088747065427,
      Mu 2926537697881008106589503340492429548048617042283827731658795577461927043507,
      Sq 14420354897111365977311013419129395975460172718381881264510553791089493437698,
      Sq 111861458156515624099280027874949314294271550374383759736050341636862597537588,
      Mu 4921524928402142665369328941886474917556769767297444487356021468559532028371,
      Sq 93193129304827767533301366161312711187613574977551236875835525294463630887590,
      Mu 2291879029533457972904916849865956356073853465779953129001456925042492959113]
   = (108225251348322012978461859646483553569711948028822648349432096442594643790199, 1531)"
  by (simp only: p256_chain.simps arith_simps diff_numeral_simps power_numeral Num.pow.simps Num.sqr.simps
      mult_1 mult_1_right mult_zero_left mult_zero_right add_0 add_0_right diff_zero
      numeral_plus_one one_plus_numeral one_add_one diff_numeral_special add_neg_numeral_special)

lemma link_one_0:
  "p256_chain 94784035371912852912874182022529621622294755194336741774199288822185853816770 (94784035371912852912874182022529621622294755194336741774199288822185853816770, 1)
     [Sq 77587453708197812720182251971123806581092973974445961294646962436570763360795,
      Sq 25668488921523578755269632303563109250709204307190318825296864550615877491317,
      Sq 34912967483554209972419546785342283328602902380001861724320188071562108026072,
      Sq 5405418699967378978663334722083001325484176729601097890184893933087844946130,
      Sq 8030341313314886484449754409510883574314376863953327631594168460738443026952,
      Sq 10127141477661206484109776727261079780235497811951569118443267042990950399585,
      Sq 70370480980539758770091901372250490206315128307668616040890817013425802016713,
      Sq 102065314202826940368645084931145393786753787420420945324996732519797720849969,
      Mu 79752607135964030268609788741855708018675539988069200350856955418089733957399]
   = (1, 257)"
  by (simp only: p256_chain.simps arith_simps diff_numeral_simps power_numeral Num.pow.simps Num.sqr.simps
      mult_1 mult_1_right mult_zero_left mult_zero_right add_0 add_0_right diff_zero
      numeral_plus_one one_plus_numeral one_add_one diff_numeral_special add_neg_numeral_special)

lemma cong_pow_trans:
  fixes b c d n :: int
  assumes "b ^ e mod n = c mod n" and "c ^ f mod n = d mod n" and "e * f = g"
  shows "b ^ g mod n = d mod n"
proof -
  have "b ^ g = (b ^ e) ^ f"
    unfolding assms(3) [symmetric] by (rule power_mult)
  then have "b ^ g mod n = (b ^ e mod n) ^ f mod n"
    by (simp add: power_mod)
  also have "\<dots> = (c mod n) ^ f mod n"
    by (simp only: assms(1))
  also have "\<dots> = c ^ f mod n"
    by (simp add: power_mod)
  finally show ?thesis
    using assms(2) by simp
qed

lemma int_cong_to_nat:
  fixes x a n :: nat
  assumes "int x ^ m mod int n = int a mod int n" and "a < n"
  shows "x ^ m mod n = a"
proof -
  have "int (x ^ m mod n) = int (a mod n)"
    using assms(1) by (simp add: zmod_int)
  then have "x ^ m mod n = a mod n"
    by (simp only: of_nat_eq_iff)
  then show ?thesis
    using assms(2) by simp
qed

lemma inv_from_bezout:
  fixes a u v n :: nat
  assumes "1 \<le> a" and "u * (a - 1) = v * n + 1" and "1 < n"
  shows "(u * (a + n - 1)) mod n = 1"
proof -
  have "a + n - 1 = (a - 1) + n"
    using assms(1) by simp
  then have "u * (a + n - 1) = u * (a - 1) + u * n"
    by (simp add: distrib_left)
  also have "\<dots> = 1 + (v + u) * n"
    using assms(2) by (simp add: distrib_right)
  finally have "(u * (a + n - 1)) mod n = (1 + (v + u) * n) mod n"
    by simp
  also have "\<dots> = 1 mod n"
    by (simp only: mod_mult_self1)
  finally show ?thesis
    using assms(3) by simp
qed

lemma primes_coprime:
  assumes "is_prime p" and "is_prime q" and "p \<noteq> q"
  shows "coprime p q"
proof (rule prime_coprime [OF assms(1)])
  show "\<not> p dvd q"
  proof
    assume "p dvd q"
    then have "p = 1 \<or> p = q"
      using assms(2) by (simp add: is_prime_def)
    then show False
      using assms(1,3) by (auto simp add: is_prime_def)
  qed
qed

lemma dvd_pred_mod:
  fixes F r :: nat
  assumes "1 < F" and "1 < r" and "F dvd r - 1"
  shows "r mod F = 1"
proof -
  obtain j where j: "r - 1 = F * j"
    using assms(3) by (auto simp add: dvd_def)
  then have "r = 1 + F * j"
    using assms(2) by simp
  then have "r mod F = (1 + F * j) mod F"
    by simp
  also have "\<dots> = 1 mod F"
    by (simp only: mod_mult_self2)
  also have "\<dots> = 1"
    using assms(1) by (rule mod_less)
  finally show ?thesis .
qed

lemma pw_c0:
  "(6::int) ^ (2131659857723768127039994381088088755807488164464550::nat) mod int P256
   = 105198709172891371792845991563488416806261915425656067020901246285253974161444 mod int P256"
proof -
  have s0: "(6::int) mod int P256
      = 6 ^ (1::nat) mod int P256"
    by (simp only: power_one_right)
  note s1 = p256_chain_sound [OF s0 link_c0_0]
  note s2 = p256_chain_sound [OF s1 link_c0_1]
  note s3 = p256_chain_sound [OF s2 link_c0_2]
  note s4 = p256_chain_sound [OF s3 link_c0_3]
  note s5 = p256_chain_sound [OF s4 link_c0_4]
  note s6 = p256_chain_sound [OF s5 link_c0_5]
  show ?thesis
    by (rule s6 [symmetric])
qed

lemma pw_xC:
  "(105198709172891371792845991563488416806261915425656067020901246285253974161444::int) ^ (672300725490299::nat) mod int P256
   = 35901956442990663603991823525137134738825280849270289876101349893266141540379 mod int P256"
proof -
  have s0: "(105198709172891371792845991563488416806261915425656067020901246285253974161444::int) mod int P256
      = 105198709172891371792845991563488416806261915425656067020901246285253974161444 ^ (1::nat) mod int P256"
    by (simp only: power_one_right)
  note s1 = p256_chain_sound [OF s0 link_xC_0]
  note s2 = p256_chain_sound [OF s1 link_xC_1]
  show ?thesis
    by (rule s2 [symmetric])
qed

lemma pw_xD:
  "(105198709172891371792845991563488416806261915425656067020901246285253974161444::int) ^ (80797403231::nat) mod int P256
   = 34835265960583352153278852114555495979446869872318024517068534671070520317901 mod int P256"
proof -
  have s0: "(105198709172891371792845991563488416806261915425656067020901246285253974161444::int) mod int P256
      = 105198709172891371792845991563488416806261915425656067020901246285253974161444 ^ (1::nat) mod int P256"
    by (simp only: power_one_right)
  note s1 = p256_chain_sound [OF s0 link_xD_0]
  note s2 = p256_chain_sound [OF s1 link_xD_1]
  show ?thesis
    by (rule s2 [symmetric])
qed

lemma pw_xA:
  "(35901956442990663603991823525137134738825280849270289876101349893266141540379::int) ^ (490463::nat) mod int P256
   = 71468452791492482855157649420624114674944325021948424536751459572829582431738 mod int P256"
proof -
  have s0: "(35901956442990663603991823525137134738825280849270289876101349893266141540379::int) mod int P256
      = 35901956442990663603991823525137134738825280849270289876101349893266141540379 ^ (1::nat) mod int P256"
    by (simp only: power_one_right)
  note s1 = p256_chain_sound [OF s0 link_xA_0]
  show ?thesis
    by (rule s1 [symmetric])
qed

lemma pw_a490463:
  "(35901956442990663603991823525137134738825280849270289876101349893266141540379::int) ^ (164737::nat) mod int P256
   = 47551681459734928383308379463919739026341324778493777690629929511110838017908 mod int P256"
proof -
  have s0: "(35901956442990663603991823525137134738825280849270289876101349893266141540379::int) mod int P256
      = 35901956442990663603991823525137134738825280849270289876101349893266141540379 ^ (1::nat) mod int P256"
    by (simp only: power_one_right)
  note s1 = p256_chain_sound [OF s0 link_a490463_0]
  show ?thesis
    by (rule s1 [symmetric])
qed

lemma pw_a257:
  "(71468452791492482855157649420624114674944325021948424536751459572829582431738::int) ^ (641::nat) mod int P256
   = 94784035371912852912874182022529621622294755194336741774199288822185853816770 mod int P256"
proof -
  have s0: "(71468452791492482855157649420624114674944325021948424536751459572829582431738::int) mod int P256
      = 71468452791492482855157649420624114674944325021948424536751459572829582431738 ^ (1::nat) mod int P256"
    by (simp only: power_one_right)
  note s1 = p256_chain_sound [OF s0 link_a257_0]
  show ?thesis
    by (rule s1 [symmetric])
qed

lemma pw_a641:
  "(71468452791492482855157649420624114674944325021948424536751459572829582431738::int) ^ (257::nat) mod int P256
   = 73772617749849487604415205117597022814228633036826951038419219002741772834126 mod int P256"
proof -
  have s0: "(71468452791492482855157649420624114674944325021948424536751459572829582431738::int) mod int P256
      = 71468452791492482855157649420624114674944325021948424536751459572829582431738 ^ (1::nat) mod int P256"
    by (simp only: power_one_right)
  note s1 = p256_chain_sound [OF s0 link_a641_0]
  show ?thesis
    by (rule s1 [symmetric])
qed

lemma pw_a6700417:
  "(34835265960583352153278852114555495979446869872318024517068534671070520317901::int) ^ (100337147::nat) mod int P256
   = 86900396401832178961235217232859237981114935325153096234781032859889316105536 mod int P256"
proof -
  have s0: "(34835265960583352153278852114555495979446869872318024517068534671070520317901::int) mod int P256
      = 34835265960583352153278852114555495979446869872318024517068534671070520317901 ^ (1::nat) mod int P256"
    by (simp only: power_one_right)
  note s1 = p256_chain_sound [OF s0 link_a6700417_0]
  show ?thesis
    by (rule s1 [symmetric])
qed

lemma pw_xB:
  "(34835265960583352153278852114555495979446869872318024517068534671070520317901::int) ^ (6700417::nat) mod int P256
   = 7164065647544418885295583125718780255726157322906136642269610597352622266482 mod int P256"
proof -
  have s0: "(34835265960583352153278852114555495979446869872318024517068534671070520317901::int) mod int P256
      = 34835265960583352153278852114555495979446869872318024517068534671070520317901 ^ (1::nat) mod int P256"
    by (simp only: power_one_right)
  note s1 = p256_chain_sound [OF s0 link_xB_0]
  show ?thesis
    by (rule s1 [symmetric])
qed

lemma pw_a1531:
  "(7164065647544418885295583125718780255726157322906136642269610597352622266482::int) ^ (65537::nat) mod int P256
   = 87083230532117752554147991845578870696698760857476716249127647529451443651015 mod int P256"
proof -
  have s0: "(7164065647544418885295583125718780255726157322906136642269610597352622266482::int) mod int P256
      = 7164065647544418885295583125718780255726157322906136642269610597352622266482 ^ (1::nat) mod int P256"
    by (simp only: power_one_right)
  note s1 = p256_chain_sound [OF s0 link_a1531_0]
  show ?thesis
    by (rule s1 [symmetric])
qed

lemma pw_a65537:
  "(7164065647544418885295583125718780255726157322906136642269610597352622266482::int) ^ (1531::nat) mod int P256
   = 108225251348322012978461859646483553569711948028822648349432096442594643790199 mod int P256"
proof -
  have s0: "(7164065647544418885295583125718780255726157322906136642269610597352622266482::int) mod int P256
      = 7164065647544418885295583125718780255726157322906136642269610597352622266482 ^ (1::nat) mod int P256"
    by (simp only: power_one_right)
  note s1 = p256_chain_sound [OF s0 link_a65537_0]
  show ?thesis
    by (rule s1 [symmetric])
qed

lemma pw_one:
  "(94784035371912852912874182022529621622294755194336741774199288822185853816770::int) ^ (257::nat) mod int P256
   = 1 mod int P256"
proof -
  have s0: "(94784035371912852912874182022529621622294755194336741774199288822185853816770::int) mod int P256
      = 94784035371912852912874182022529621622294755194336741774199288822185853816770 ^ (1::nat) mod int P256"
    by (simp only: power_one_right)
  note s1 = p256_chain_sound [OF s0 link_one_0]
  show ?thesis
    by (rule s1 [symmetric])
qed

lemma p6_xC:
  "(6::int) ^ (1433116468846236858122986115321030564446831082282091841347554400450::nat) mod int P256
   = 35901956442990663603991823525137134738825280849270289876101349893266141540379 mod int P256"
  by (rule cong_pow_trans [OF pw_c0 pw_xC]) simp

lemma p6_xD:
  "(6::int) ^ (172232581075843383173196060472748587734094714233502291554961050::nat) mod int P256
   = 34835265960583352153278852114555495979446869872318024517068534671070520317901 mod int P256"
  by (rule cong_pow_trans [OF pw_c0 pw_xD]) simp

lemma p6_xA:
  "(6::int) ^ (702890602659731868145574139078698613730286113109321610782845573907908350::nat) mod int P256
   = 71468452791492482855157649420624114674944325021948424536751459572829582431738 mod int P256"
  by (rule cong_pow_trans [OF p6_xC pw_xA]) simp

lemma p6_a490463:
  "(6::int) ^ (236087307728322521296606363679640612095277612001904963668072069266931650::nat) mod int P256
   = 47551681459734928383308379463919739026341324778493777690629929511110838017908 mod int P256"
  by (rule cong_pow_trans [OF p6_xC pw_a490463]) simp

lemma p6_a257:
  "(6::int) ^ (450552876304888127481313023149445811401113398503075152511804012874969252350::nat) mod int P256
   = 94784035371912852912874182022529621622294755194336741774199288822185853816770 mod int P256"
  by (rule cong_pow_trans [OF p6_xA pw_a257]) simp

lemma p6_a641:
  "(6::int) ^ (180642884883551090113412553743225543728683531069095653971191312494332445950::nat) mod int P256
   = 73772617749849487604415205117597022814228633036826951038419219002741772834126 mod int P256"
  by (rule cong_pow_trans [OF p6_xA pw_a641]) simp

lemma p6_a6700417:
  "(6::int) ^ (17281325805596315686426299579475064541518258253969911752586985453124350::nat) mod int P256
   = 86900396401832178961235217232859237981114935325153096234781032859889316105536 mod int P256"
  by (rule cong_pow_trans [OF p6_xD pw_a6700417]) simp

lemma p6_xB:
  "(6::int) ^ (1154030114194459293951196827924632673979519702860300723873817453757850::nat) mod int P256
   = 7164065647544418885295583125718780255726157322906136642269610597352622266482 mod int P256"
  by (rule cong_pow_trans [OF p6_xD pw_xB]) simp

lemma p6_a1531:
  "(6::int) ^ (75631671593962278747679586511696651554595782766355528540518374466928215450::nat) mod int P256
   = 87083230532117752554147991845578870696698760857476716249127647529451443651015 mod int P256"
  by (rule cong_pow_trans [OF p6_xB pw_a1531]) simp

lemma p6_a65537:
  "(6::int) ^ (1766820104831717179039282343552612623862644665079120408250814521703268350::nat) mod int P256
   = 108225251348322012978461859646483553569711948028822648349432096442594643790199 mod int P256"
  by (rule cong_pow_trans [OF p6_xB pw_a65537]) simp

lemma p6_one:
  "(6::int) ^ (115792089210356248762697446949407573530086143415290314195533631308867097853950::nat) mod int P256
   = 1 mod int P256"
  by (rule cong_pow_trans [OF p6_a257 pw_one]) simp

lemma n6_a257:
  "(6::nat) ^ 450552876304888127481313023149445811401113398503075152511804012874969252350 mod P256
   = 94784035371912852912874182022529621622294755194336741774199288822185853816770"
proof (rule int_cong_to_nat)
  show "int 6 ^ 450552876304888127481313023149445811401113398503075152511804012874969252350 mod int P256
      = int 94784035371912852912874182022529621622294755194336741774199288822185853816770 mod int P256"
    unfolding of_nat_numeral by (rule p6_a257)
qed (simp add: P256_def)

lemma n6_a641:
  "(6::nat) ^ 180642884883551090113412553743225543728683531069095653971191312494332445950 mod P256
   = 73772617749849487604415205117597022814228633036826951038419219002741772834126"
proof (rule int_cong_to_nat)
  show "int 6 ^ 180642884883551090113412553743225543728683531069095653971191312494332445950 mod int P256
      = int 73772617749849487604415205117597022814228633036826951038419219002741772834126 mod int P256"
    unfolding of_nat_numeral by (rule p6_a641)
qed (simp add: P256_def)

lemma n6_a1531:
  "(6::nat) ^ 75631671593962278747679586511696651554595782766355528540518374466928215450 mod P256
   = 87083230532117752554147991845578870696698760857476716249127647529451443651015"
proof (rule int_cong_to_nat)
  show "int 6 ^ 75631671593962278747679586511696651554595782766355528540518374466928215450 mod int P256
      = int 87083230532117752554147991845578870696698760857476716249127647529451443651015 mod int P256"
    unfolding of_nat_numeral by (rule p6_a1531)
qed (simp add: P256_def)

lemma n6_a65537:
  "(6::nat) ^ 1766820104831717179039282343552612623862644665079120408250814521703268350 mod P256
   = 108225251348322012978461859646483553569711948028822648349432096442594643790199"
proof (rule int_cong_to_nat)
  show "int 6 ^ 1766820104831717179039282343552612623862644665079120408250814521703268350 mod int P256
      = int 108225251348322012978461859646483553569711948028822648349432096442594643790199 mod int P256"
    unfolding of_nat_numeral by (rule p6_a65537)
qed (simp add: P256_def)

lemma n6_a490463:
  "(6::nat) ^ 236087307728322521296606363679640612095277612001904963668072069266931650 mod P256
   = 47551681459734928383308379463919739026341324778493777690629929511110838017908"
proof (rule int_cong_to_nat)
  show "int 6 ^ 236087307728322521296606363679640612095277612001904963668072069266931650 mod int P256
      = int 47551681459734928383308379463919739026341324778493777690629929511110838017908 mod int P256"
    unfolding of_nat_numeral by (rule p6_a490463)
qed (simp add: P256_def)

lemma n6_a6700417:
  "(6::nat) ^ 17281325805596315686426299579475064541518258253969911752586985453124350 mod P256
   = 86900396401832178961235217232859237981114935325153096234781032859889316105536"
proof (rule int_cong_to_nat)
  show "int 6 ^ 17281325805596315686426299579475064541518258253969911752586985453124350 mod int P256
      = int 86900396401832178961235217232859237981114935325153096234781032859889316105536 mod int P256"
    unfolding of_nat_numeral by (rule p6_a6700417)
qed (simp add: P256_def)

lemma n6_one:
  "(6::nat) ^ 115792089210356248762697446949407573530086143415290314195533631308867097853950 mod P256 = 1"
proof (rule int_cong_to_nat)
  show "int 6 ^ 115792089210356248762697446949407573530086143415290314195533631308867097853950 mod int P256 = int 1 mod int P256"
    unfolding of_nat_numeral of_nat_1 by (rule p6_one)
qed (simp add: P256_def)

lemma fermat_base_6: "(6::nat) ^ (P256 - 1) mod P256 = 1"
proof -
  have e: "P256 - 1 = 115792089210356248762697446949407573530086143415290314195533631308867097853950"
    by (simp add: P256_def)
  show ?thesis
    unfolding e by (rule n6_one)
qed

lemma pocklington_257:
  assumes "is_prime r" and "r dvd P256"
  shows "257 dvd r - 1"
proof (rule pocklington_step [where x = 6 and n = P256
      and m = 450552876304888127481313023149445811401113398503075152511804012874969252350
      and u = 69766497166607040286643710745186634538274727766378270967629057831232079444301, OF assms])
  show "1 < P256"
    by (simp add: P256_def)
  show "is_prime 257"
    by (rule p257)
  show "P256 - 1 = 257 * 450552876304888127481313023149445811401113398503075152511804012874969252350"
    by (simp add: P256_def)
  show "6 ^ (P256 - 1) mod P256 = 1"
    by (rule fermat_base_6)
  show "(69766497166607040286643710745186634538274727766378270967629057831232079444301 * (6 ^ 450552876304888127481313023149445811401113398503075152511804012874969252350 mod P256 + P256 - 1)) mod P256 = 1"
    unfolding n6_a257
    by (rule inv_from_bezout [where v = 57108824793729573199869839538046436130321768165839582813449634917882029754868])
      (simp_all add: P256_def)
qed

lemma pocklington_641:
  assumes "is_prime r" and "r dvd P256"
  shows "641 dvd r - 1"
proof (rule pocklington_step [where x = 6 and n = P256
      and m = 180642884883551090113412553743225543728683531069095653971191312494332445950
      and u = 74772103755818218670089827982646847413031436839115034403294163640490563655148, OF assms])
  show "1 < P256"
    by (simp add: P256_def)
  show "is_prime 641"
    by (rule p641)
  show "P256 - 1 = 641 * 180642884883551090113412553743225543728683531069095653971191312494332445950"
    by (simp add: P256_def)
  show "6 ^ (P256 - 1) mod P256 = 1"
    by (rule fermat_base_6)
  show "(74772103755818218670089827982646847413031436839115034403294163640490563655148 * (6 ^ 180642884883551090113412553743225543728683531069095653971191312494332445950 mod P256 + P256 - 1)) mod P256 = 1"
    unfolding n6_a641
    by (rule inv_from_bezout [where v = 47638261528462938977389532231549934860235378878242162869104370373747750226949])
      (simp_all add: P256_def)
qed

lemma pocklington_1531:
  assumes "is_prime r" and "r dvd P256"
  shows "1531 dvd r - 1"
proof (rule pocklington_step [where x = 6 and n = P256
      and m = 75631671593962278747679586511696651554595782766355528540518374466928215450
      and u = 110960687477210085667261709325625768645419867273875531072321427107986396540074, OF assms])
  show "1 < P256"
    by (simp add: P256_def)
  show "is_prime 1531"
    by (rule p1531)
  show "P256 - 1 = 1531 * 75631671593962278747679586511696651554595782766355528540518374466928215450"
    by (simp add: P256_def)
  show "6 ^ (P256 - 1) mod P256 = 1"
    by (rule fermat_base_6)
  show "(110960687477210085667261709325625768645419867273875531072321427107986396540074 * (6 ^ 75631671593962278747679586511696651554595782766355528540518374466928215450 mod P256 + P256 - 1)) mod P256 = 1"
    unfolding n6_a1531
    by (rule inv_from_bezout [where v = 83449700177928315991581020879080451319363950342129335536678675621251037809285])
      (simp_all add: P256_def)
qed

lemma pocklington_65537:
  assumes "is_prime r" and "r dvd P256"
  shows "65537 dvd r - 1"
proof (rule pocklington_step [where x = 6 and n = P256
      and m = 1766820104831717179039282343552612623862644665079120408250814521703268350
      and u = 54756458365037719170642323232889215780665923599874951905459212172127696928051, OF assms])
  show "1 < P256"
    by (simp add: P256_def)
  show "is_prime 65537"
    by (rule p65537)
  show "P256 - 1 = 65537 * 1766820104831717179039282343552612623862644665079120408250814521703268350"
    by (simp add: P256_def)
  show "6 ^ (P256 - 1) mod P256 = 1"
    by (rule fermat_base_6)
  show "(54756458365037719170642323232889215780665923599874951905459212172127696928051 * (6 ^ 1766820104831717179039282343552612623862644665079120408250814521703268350 mod P256 + P256 - 1)) mod P256 = 1"
    unfolding n6_a65537
    by (rule inv_from_bezout [where v = 51178206645313057739906074072281860911569257478780387514528689339641928728447])
      (simp_all add: P256_def)
qed

lemma pocklington_490463:
  assumes "is_prime r" and "r dvd P256"
  shows "490463 dvd r - 1"
proof (rule pocklington_step [where x = 6 and n = P256
      and m = 236087307728322521296606363679640612095277612001904963668072069266931650
      and u = 93040020571247196733279262913042878709850400282856535724574362570037006129714, OF assms])
  show "1 < P256"
    by (simp add: P256_def)
  show "is_prime 490463"
    by (rule p490463)
  show "P256 - 1 = 490463 * 236087307728322521296606363679640612095277612001904963668072069266931650"
    by (simp add: P256_def)
  show "6 ^ (P256 - 1) mod P256 = 1"
    by (rule fermat_base_6)
  show "(93040020571247196733279262913042878709850400282856535724574362570037006129714 * (6 ^ 236087307728322521296606363679640612095277612001904963668072069266931650 mod P256 + P256 - 1)) mod P256 = 1"
    unfolding n6_a490463
    by (rule inv_from_bezout [where v = 38208218293512212161398208537264837768137185596059297802942854851917863447947])
      (simp_all add: P256_def)
qed

lemma pocklington_6700417:
  assumes "is_prime r" and "r dvd P256"
  shows "6700417 dvd r - 1"
proof (rule pocklington_step [where x = 6 and n = P256
      and m = 17281325805596315686426299579475064541518258253969911752586985453124350
      and u = 8644609663429077098308511555895993103786583909428360811596743371205054351080, OF assms])
  show "1 < P256"
    by (simp add: P256_def)
  show "is_prime 6700417"
    by (rule p6700417)
  show "P256 - 1 = 6700417 * 17281325805596315686426299579475064541518258253969911752586985453124350"
    by (simp add: P256_def)
  show "6 ^ (P256 - 1) mod P256 = 1"
    by (rule fermat_base_6)
  show "(8644609663429077098308511555895993103786583909428360811596743371205054351080 * (6 ^ 17281325805596315686426299579475064541518258253969911752586985453124350 mod P256 + P256 - 1)) mod P256 = 1"
    unfolding n6_a6700417
    by (rule inv_from_bezout [where v = 6487662599526773261756202799162789645574461989123246599515536837144494294249])
      (simp_all add: P256_def)
qed

lemma prime_factor_mod:
  assumes "is_prime r" and "r dvd P256"
  shows "r mod 54320152809933528481756069 = 1"
proof -
  note ps = p257 p641 p1531 p65537 p490463 p6700417
  note d0 = pocklington_257 [OF assms]
  note d1 = pocklington_641 [OF assms]
  note d2 = pocklington_1531 [OF assms]
  note d3 = pocklington_65537 [OF assms]
  note d4 = pocklington_490463 [OF assms]
  note d5 = pocklington_6700417 [OF assms]
  have c1: "coprime (257) (641::nat)"
    using primes_coprime [OF p257 p641] by (simp only: coprime_mult_left_iff simp_thms)
  have e1: "257 * 641 dvd r - 1"
    by (rule divides_mult [OF d0 d1 c1])
  have c2: "coprime (257 * 641) (1531::nat)"
    using primes_coprime [OF p257 p1531] primes_coprime [OF p641 p1531] by (simp only: coprime_mult_left_iff simp_thms)
  have e2: "257 * 641 * 1531 dvd r - 1"
    by (rule divides_mult [OF e1 d2 c2])
  have c3: "coprime (257 * 641 * 1531) (65537::nat)"
    using primes_coprime [OF p257 p65537] primes_coprime [OF p641 p65537] primes_coprime [OF p1531 p65537] by (simp only: coprime_mult_left_iff simp_thms)
  have e3: "257 * 641 * 1531 * 65537 dvd r - 1"
    by (rule divides_mult [OF e2 d3 c3])
  have c4: "coprime (257 * 641 * 1531 * 65537) (490463::nat)"
    using primes_coprime [OF p257 p490463] primes_coprime [OF p641 p490463] primes_coprime [OF p1531 p490463] primes_coprime [OF p65537 p490463] by (simp only: coprime_mult_left_iff simp_thms)
  have e4: "257 * 641 * 1531 * 65537 * 490463 dvd r - 1"
    by (rule divides_mult [OF e3 d4 c4])
  have c5: "coprime (257 * 641 * 1531 * 65537 * 490463) (6700417::nat)"
    using primes_coprime [OF p257 p6700417] primes_coprime [OF p641 p6700417] primes_coprime [OF p1531 p6700417] primes_coprime [OF p65537 p6700417] primes_coprime [OF p490463 p6700417] by (simp only: coprime_mult_left_iff simp_thms)
  have e5: "257 * 641 * 1531 * 65537 * 490463 * 6700417 dvd r - 1"
    by (rule divides_mult [OF e4 d5 c5])
  have "54320152809933528481756069 dvd r - 1"
    using e5 by simp
  moreover have "1 < r"
    using assms(1) by (simp add: is_prime_def)
  ultimately show ?thesis
    by (intro dvd_pred_mod) simp_all
qed

lemma P256_prime: "is_prime P256"
proof (rule bls_final [where F = 54320152809933528481756069
      and s = 39242523215692268910203460 and t = 40163218616330075284665810
      and k = 40163218616330075284665808])
  show "(1::nat) < 54320152809933528481756069"
    by simp
  show "P256 = 54320152809933528481756069 * (54320152809933528481756069 * 39242523215692268910203460 + 40163218616330075284665810) + 1"
    by (simp add: P256_def)
  show "(39242523215692268910203460::nat) < 54320152809933528481756069"
    by simp
  show "(40163218616330075284665810::nat) < 54320152809933528481756069"
    by simp
  show "(4::nat) * 39242523215692268910203460 + 40163218616330075284665808 * 40163218616330075284665808 < 40163218616330075284665810 * 40163218616330075284665810"
    by simp
  show "(40163218616330075284665810::nat) * 40163218616330075284665810 < 4 * 39242523215692268910203460 + (40163218616330075284665808 + 1) * (40163218616330075284665808 + 1)"
    by simp
next
  fix d
  assume d: "d dvd P256"
  have F: "(1::nat) < 54320152809933528481756069"
    by simp
  have n: "0 < P256"
    by (simp add: P256_def)
  show "d mod 54320152809933528481756069 = 1"
    by (rule divisors_one_mod [OF F n prime_factor_mod d])
qed

section \<open>Correctness of ecp_nistz256_mod_inverse\<close>

lemma prime_dvd_mult:
  assumes "is_prime p" and "p dvd a * b"
  shows "p dvd a \<or> p dvd b"
proof (cases "p dvd a")
  case True
  then show ?thesis by simp
next
  case False
  have "coprime p a"
    by (rule prime_coprime [OF assms(1) False])
  then have "p dvd b"
    using assms(2) by (simp add: coprime_dvd_mult_right_iff)
  then show ?thesis by simp
qed

lemma P256_not_dvd_rinv: "\<not> P256 dvd mont_rinv"
proof
  assume "P256 dvd mont_rinv"
  then have "P256 dvd mont_rinv * 2 ^ 256"
    by (rule dvd_mult2)
  then have "(mont_rinv * 2 ^ 256) mod P256 = 0"
    by (simp only: mod_eq_0_iff_dvd)
  then have "(1::nat) = 0"
    by (simp only: mont_rinv_inverse)
  then show False
    by simp
qed

lemma fermat_mont:
  assumes "felem_val x mod P256 \<noteq> 0"
  shows "(felem_val x * mont_rinv) ^ (P256 - 1) mod P256 = 1"
proof (rule fermat_little [OF P256_prime])
  show "\<not> P256 dvd felem_val x * mont_rinv"
  proof
    assume "P256 dvd felem_val x * mont_rinv"
    then have "P256 dvd felem_val x \<or> P256 dvd mont_rinv"
      by (rule prime_dvd_mult [OF P256_prime])
    then have "P256 dvd felem_val x"
      using P256_not_dvd_rinv by simp
    then have "felem_val x mod P256 = 0"
      by (simp only: mod_eq_0_iff_dvd)
    then show False
      using assms by simp
  qed
qed

lemma mont_one: "felem_of_nat (2 ^ 256 mod P256) = ONE"
proof -
  have "(2::nat) ^ 256 mod P256 = 0xfffffffeffffffffffffffffffffffff000000000000000000000001"
    by (simp add: P256_def)
  then show ?thesis
    by (simp add: felem_of_nat_def ONE_def)
qed

lemma mont_pow_fermat:
  assumes "felem_val x mod P256 \<noteq> 0"
  shows "mont_pow (felem_val x) (P256 - 1) = ONE"
proof -
  let ?b = "felem_val x * mont_rinv"
  have "(?b ^ (P256 - 1) * 2 ^ 256) mod P256 = ((?b ^ (P256 - 1) mod P256) * 2 ^ 256) mod P256"
    by (rule mod_mult_left_eq [symmetric])
  also have "\<dots> = 2 ^ 256 mod P256"
    by (simp only: fermat_mont [OF assms] mult_1)
  finally show ?thesis
    by (simp only: mont_pow_def mont_one)
qed

lemma exponent_Suc: "Suc (P256 - 2) = P256 - 1"
  by (simp add: P256_def)

lemma mul_inverse_ONE:
  assumes "felem_val x mod P256 \<noteq> 0"
  shows "ecp_nistz256_mul_mont (ecp_nistz256_mod_inverse x) x = ONE"
  unfolding mod_inverse_mont_pow mul_mont_pow_in exponent_Suc
  by (rule mont_pow_fermat [OF assms])

lemma from_mont_val: "felem_val (ecp_nistz256_from_mont y) = (felem_val y * mont_rinv) mod P256"
proof -
  have "felem_val (felem_of_nat 1) = 1"
    by (rule felem_val_of_nat) simp
  then show ?thesis
    by (simp add: ecp_nistz256_from_mont_def ecp_nistz256_mul_mont_def)
qed

lemma from_mont_mont_pow:
  "felem_val (ecp_nistz256_from_mont (mont_pow a e)) = (a * mont_rinv) ^ e mod P256"
  by (simp only: from_mont_val mont_pow_def felem_val_mod mod_mult_left_eq cancel_rinv)

lemma from_mont_inverse:
  "felem_val (ecp_nistz256_from_mont (ecp_nistz256_mod_inverse x))
     = felem_val (ecp_nistz256_from_mont x) ^ (P256 - 2) mod P256"
  by (simp only: mod_inverse_mont_pow from_mont_mont_pow) (simp only: from_mont_val power_mod)

lemma inverse_product:
  assumes "felem_val x mod P256 \<noteq> 0"
  shows "(felem_val (ecp_nistz256_from_mont (ecp_nistz256_mod_inverse x))
            * felem_val (ecp_nistz256_from_mont x)) mod P256 = 1"
proof -
  let ?b = "felem_val x * mont_rinv"
  have "(felem_val (ecp_nistz256_from_mont (ecp_nistz256_mod_inverse x))
            * felem_val (ecp_nistz256_from_mont x)) mod P256
        = ((?b ^ (P256 - 2) mod P256) * (?b mod P256)) mod P256"
    by (simp only: mod_inverse_mont_pow from_mont_mont_pow) (simp only: from_mont_val)
  also have "\<dots> = (?b ^ (P256 - 2) * ?b) mod P256"
    by (rule mod_mult_eq)
  also have "\<dots> = ?b ^ Suc (P256 - 2) mod P256"
    by (simp only: power_Suc2)
  also have "\<dots> = 1"
    unfolding exponent_Suc by (rule fermat_mont [OF assms])
  finally show ?thesis .
qed

lemma inverse_zero: "ecp_nistz256_mod_inverse (0, 0, 0, 0) = (0, 0, 0, 0)"
proof -
  have v: "felem_val (0, 0, 0, 0) = 0"
    by (simp add: felem_val_def)
  have "P256 - 2 \<noteq> 0"
    by (simp add: P256_def)
  then have "((0 * mont_rinv) ^ (P256 - 2) * 2 ^ 256) mod P256 = 0"
    by (simp add: power_0_left)
  then show ?thesis
    by (simp add: mod_inverse_mont_pow v mont_pow_def felem_of_nat_def)
qed

text \<open>
  C3: for every field element \<open>a\<close> that is nonzero modulo the P-256 prime, the Montgomery
  product of \<open>ecp_nistz256_mod_inverse a\<close> and \<open>a\<close> is \<open>ONE\<close>, the Montgomery form of 1, and
  the values the two stand for multiply to 1 modulo \<open>P256\<close>; the value of the result is
  the \<open>(P256 - 2)\<close>-th power of the value of \<open>a\<close> modulo \<open>P256\<close>; and the inverse of zero
  is zero.
\<close>

theorem mod_inverse_correct:
  "(felem_val a mod P256 \<noteq> 0 \<longrightarrow>
      ecp_nistz256_mul_mont (ecp_nistz256_mod_inverse a) a = ONE
      \<and> (felem_val (ecp_nistz256_from_mont (ecp_nistz256_mod_inverse a))
            * felem_val (ecp_nistz256_from_mont a)) mod P256 = 1)
   \<and> felem_val (ecp_nistz256_from_mont (ecp_nistz256_mod_inverse a))
       = felem_val (ecp_nistz256_from_mont a) ^ (P256 - 2) mod P256
   \<and> ecp_nistz256_mod_inverse (0, 0, 0, 0) = (0, 0, 0, 0)"
  using mul_inverse_ONE [of a] inverse_product [of a] from_mont_inverse [of a] inverse_zero
  by blast

theorem mod_inverse_correct_witness:
  "felem_val (1, 0, 0, 0) mod P256 \<noteq> 0
   \<and> ecp_nistz256_mul_mont (ecp_nistz256_mod_inverse (1, 0, 0, 0)) (1, 0, 0, 0) = ONE
   \<and> (felem_val (ecp_nistz256_from_mont (ecp_nistz256_mod_inverse (1, 0, 0, 0)))
         * felem_val (ecp_nistz256_from_mont (1, 0, 0, 0))) mod P256 = 1"
proof -
  have "felem_val (1, 0, 0, 0) mod P256 \<noteq> 0"
    by (simp add: felem_val_def P256_def)
  with mod_inverse_correct [of "(1, 0, 0, 0)"] show ?thesis
    by blast
qed

section \<open>Points of the group object and conversion to affine coordinates\<close>

record EC_POINT =
  ec_X :: BIGNUM
  ec_Y :: BIGNUM
  ec_Z :: BIGNUM

datatype error =
    ERR_R_MALLOC_FAILURE
  | ERR_R_BN_LIB
  | EC_R_COORDINATES_OUT_OF_RANGE
  | EC_R_UNDEFINED_GENERATOR
  | EC_R_POINT_AT_INFINITY
  | BN_CTX_GET_FAILED

text \<open>
  \<open>ecp_nistz256_bignum_to_field_elem\<close>: fails when the number has more than
  \<open>P256_LIMBS\<close> limbs, otherwise clears the four output limbs and copies the limbs in use.
\<close>

definition limb :: "BN_ULONG list \<Rightarrow> nat \<Rightarrow> BN_ULONG" where
  "limb ds i = (if i < length ds then ds ! i else 0)"

definition felem_of_limbs :: "BN_ULONG list \<Rightarrow> felem" where
  "felem_of_limbs ds = (limb ds 0, limb ds 1, limb ds 2, limb ds 3)"

definition ecp_nistz256_bignum_to_field_elem :: "BIGNUM \<Rightarrow> felem option" where
  "ecp_nistz256_bignum_to_field_elem in' =
     (if bn_top in' > P256_LIMBS then None else Some (felem_of_limbs (bn_d in')))"

text \<open>
  Modelled from the spec: \<open>EC_POINT_is_at_infinity\<close> belongs to the enclosing group
  object and is not among the sources; "Z = 0 denotes the point at infinity".
\<close>

definition EC_POINT_is_at_infinity :: "EC_POINT \<Rightarrow> bool" where
  "EC_POINT_is_at_infinity point = (bn_val (ec_Z point) = 0)"

text \<open>
  \<open>ecp_nistz256_get_affine\<close>. The flags tell whether \<open>x\<close> and \<open>y\<close> are requested
  (non-NULL); the result holds the limbs written to \<open>x->d\<close> and \<open>y->d\<close>. The expansion
  of the caller's numbers to four limbs is taken to succeed (its result is not checked),
  and \<open>bn_correct_top\<close> afterwards only lowers \<open>top\<close> past leading zero limbs.
\<close>

definition ecp_nistz256_get_affine :: "EC_POINT \<Rightarrow> bool \<Rightarrow> bool \<Rightarrow> error + (felem option \<times> felem option)" where
  "ecp_nistz256_get_affine point want_x want_y =
     (if EC_POINT_is_at_infinity point then Inl EC_R_POINT_AT_INFINITY
      else
        case (ecp_nistz256_bignum_to_field_elem (ec_X point),
              ecp_nistz256_bignum_to_field_elem (ec_Y point),
              ecp_nistz256_bignum_to_field_elem (ec_Z point)) of
          (Some point_x, Some point_y, Some point_z) \<Rightarrow>
            (let z_inv3 = ecp_nistz256_mod_inverse point_z;
                 z_inv2 = ecp_nistz256_sqr_mont z_inv3;
                 x_aff = ecp_nistz256_mul_mont z_inv2 point_x;
                 x = (if want_x then Some (ecp_nistz256_from_mont x_aff) else None);
                 y = (if want_y then
                        (let z_inv3 = ecp_nistz256_mul_mont z_inv3 z_inv2;
                             y_aff = ecp_nistz256_mul_mont z_inv3 point_y
                         in Some (ecp_nistz256_from_mont y_aff))
                      else None)
             in Inr (x, y))
        | _ \<Rightarrow> Inl EC_R_COORDINATES_OUT_OF_RANGE)"

text \<open>
  C8 (as stated). A point that is not at infinity but has a coordinate of five limbs is
  refused with CoordinatesOutOfRange: away from infinity the function does not always
  return coordinates.
\<close>

theorem get_affine_out_of_range_counterexample:
  "\<not> EC_POINT_is_at_infinity
       \<lparr>ec_X = \<lparr>bn_d = [1], bn_neg = False\<rparr>, ec_Y = \<lparr>bn_d = [1], bn_neg = False\<rparr>,
        ec_Z = \<lparr>bn_d = [0, 0, 0, 0, 1], bn_neg = False\<rparr>\<rparr>
   \<and> ecp_nistz256_get_affine
       \<lparr>ec_X = \<lparr>bn_d = [1], bn_neg = False\<rparr>, ec_Y = \<lparr>bn_d = [1], bn_neg = False\<rparr>,
        ec_Z = \<lparr>bn_d = [0, 0, 0, 0, 1], bn_neg = False\<rparr>\<rparr> True True
       = Inl EC_R_COORDINATES_OUT_OF_RANGE"
  by (simp add: EC_POINT_is_at_infinity_def bn_val_def ecp_nistz256_get_affine_def
      ecp_nistz256_bignum_to_field_elem_def bn_top_def P256_LIMBS_def)

text \<open>
  C8 (amended). \<open>ecp_nistz256_get_affine\<close> fails with PointAtInfinity exactly when the
  input point is the identity (\<open>Z = 0\<close>); otherwise it fails with CoordinatesOutOfRange
  when a coordinate has more than \<open>P256_LIMBS\<close> limbs; otherwise it succeeds with
  \<open>x = X * inverse(Z)^2\<close> and, when \<open>y\<close> is requested, \<open>y = Y * (inverse(Z) * inverse(Z)^2)\<close>,
  the products being Montgomery products and both results converted out of the
  Montgomery domain.
\<close>

theorem get_affine_cases:
  "(ecp_nistz256_get_affine point want_x want_y = Inl EC_R_POINT_AT_INFINITY)
      = EC_POINT_is_at_infinity point
   \<and> ecp_nistz256_get_affine point want_x want_y =
      (if EC_POINT_is_at_infinity point then Inl EC_R_POINT_AT_INFINITY
       else if P256_LIMBS < bn_top (ec_X point) \<or> P256_LIMBS < bn_top (ec_Y point)
               \<or> P256_LIMBS < bn_top (ec_Z point)
       then Inl EC_R_COORDINATES_OUT_OF_RANGE
       else
         (let zinv = ecp_nistz256_mod_inverse (felem_of_limbs (bn_d (ec_Z point)));
              zinv2 = ecp_nistz256_sqr_mont zinv;
              zinv3 = ecp_nistz256_mul_mont zinv zinv2
          in Inr (if want_x then
                    Some (ecp_nistz256_from_mont
                      (ecp_nistz256_mul_mont zinv2 (felem_of_limbs (bn_d (ec_X point)))))
                  else None,
                  if want_y then
                    Some (ecp_nistz256_from_mont
                      (ecp_nistz256_mul_mont zinv3 (felem_of_limbs (bn_d (ec_Y point)))))
                  else None)))"
  by (simp add: ecp_nistz256_get_affine_def ecp_nistz256_bignum_to_field_elem_def Let_def)

section \<open>The group object and what the file takes from its surroundings\<close>

record EC_GROUP =
  group_generator :: "EC_POINT option"
  group_order :: BIGNUM

text \<open>
  What \<open>ecp_nistz256_points_mul\<close> takes from outside the file, as parameters: whether an
  allocation of a given size succeeds, whether \<open>BN_CTX_get\<close> and \<open>BN_nnmod\<close> succeed,
  the assembly point arithmetic, the table of \<open>p256-x86_64-table.h\<close> (37 rows), and the
  indeterminate first contents of the two local unions \<open>t\<close> and \<open>p\<close>.
\<close>

record env =
  malloc_ok :: "nat \<Rightarrow> bool"
  BN_CTX_get_ok :: bool
  BN_nnmod_ok :: bool
  ecp_nistz256_point_double :: "P256_POINT \<Rightarrow> P256_POINT"
  ecp_nistz256_point_add :: "P256_POINT \<Rightarrow> P256_POINT \<Rightarrow> P256_POINT"
  ecp_nistz256_point_add_affine :: "P256_POINT \<Rightarrow> P256_POINT_AFFINE \<Rightarrow> P256_POINT"
  ecp_nistz256_precomputed :: "P256_POINT_AFFINE list list"
  uninit_t :: P256_POINT
  uninit_p :: P256_POINT

definition felem_zero :: felem where
  "felem_zero = (0, 0, 0, 0)"

text \<open>
  Modelled from the spec: the assembly routines \<open>ecp_nistz256_select_w5\<close> and
  \<open>ecp_nistz256_select_w7\<close> are not among the sources. "select(table, i) returns
  table[i] for every valid i"; entry 0, the point at infinity, is never materialized:
  "table[0] is implicitly (0,0,0) (the point at infinity), therefore it is not stored.
  All other values are actually stored with an offset of -1 in table." An index that
  matches no entry leaves the all-zero value.
\<close>

definition ecp_nistz256_select_w5 :: "P256_POINT list \<Rightarrow> unsigned \<Rightarrow> P256_POINT" where
  "ecp_nistz256_select_w5 in_t index =
     (if 0 < unat index \<and> unat index \<le> length in_t then in_t ! (unat index - 1)
      else \<lparr>X = felem_zero, Y = felem_zero, Z = felem_zero\<rparr>)"

definition ecp_nistz256_select_w7 :: "P256_POINT_AFFINE list \<Rightarrow> unsigned \<Rightarrow> P256_POINT_AFFINE" where
  "ecp_nistz256_select_w7 in_t index =
     (if 0 < unat index \<and> unat index \<le> length in_t then in_t ! (unat index - 1)
      else \<lparr>aff_X = felem_zero, aff_Y = felem_zero\<rparr>)"

text \<open>
  Modelled from the spec: \<open>BN_num_bits\<close>, \<open>BN_is_negative\<close> and \<open>BN_nnmod\<close> belong to
  the big-number library. "If the scalar's bit length exceeds 256 or it is negative, it
  is first reduced modulo the group order."
\<close>

fun bit_length :: "nat \<Rightarrow> nat" where
  "bit_length n = (if n = 0 then 0 else Suc (bit_length (n div 2)))"

declare bit_length.simps [simp del]

definition BN_num_bits :: "BIGNUM \<Rightarrow> nat" where
  "BN_num_bits a = bit_length (bn_val a)"

definition BN_is_negative :: "BIGNUM \<Rightarrow> bool" where
  "BN_is_negative a = bn_neg a"

function limbs_of_nat :: "nat \<Rightarrow> BN_ULONG list" where
  "limbs_of_nat n = (if n = 0 then [] else of_nat n # limbs_of_nat (n div 2 ^ 64))"
  by pat_completeness auto
termination
  by (relation "measure id") simp_all

declare limbs_of_nat.simps [simp del]

definition bn_int :: "BIGNUM \<Rightarrow> int" where
  "bn_int a = (if bn_neg a then - int (bn_val a) else int (bn_val a))"

definition BN_nnmod :: "BIGNUM \<Rightarrow> BIGNUM \<Rightarrow> BIGNUM" where
  "BN_nnmod a m = \<lparr>bn_d = limbs_of_nat (nat (bn_int a mod int (bn_val m))), bn_neg = False\<rparr>"

text \<open>
  The reduction that both \<open>ecp_nistz256_windowed_mul\<close> and the generator path of
  \<open>ecp_nistz256_points_mul\<close> apply to a scalar before serializing it.
\<close>

definition reduce_scalar :: "env \<Rightarrow> EC_GROUP \<Rightarrow> BIGNUM \<Rightarrow> error + BIGNUM" where
  "reduce_scalar e grp scalar =
     (if BN_num_bits scalar > 256 \<or> BN_is_negative scalar then
        (if BN_CTX_get_ok e then
           (if BN_nnmod_ok e \<and> bn_val (group_order grp) \<noteq> 0
            then Inr (BN_nnmod scalar (group_order grp))
            else Inl ERR_R_BN_LIB)
         else Inl BN_CTX_GET_FAILED)
      else Inr scalar)"

section \<open>ecp_nistz256_windowed_mul\<close>

text \<open>One row of the table: the multiples 1 to 16 of a point, in the order of the source.\<close>

definition build_table_row :: "env \<Rightarrow> P256_POINT \<Rightarrow> P256_POINT list" where
  "build_table_row e row1 =
     (let row2 = ecp_nistz256_point_double e row1;
          row3 = ecp_nistz256_point_add e row2 row1;
          row4 = ecp_nistz256_point_double e row2;
          row6 = ecp_nistz256_point_double e row3;
          row8 = ecp_nistz256_point_double e row4;
          row12 = ecp_nistz256_point_double e row6;
          row5 = ecp_nistz256_point_add e row4 row1;
          row7 = ecp_nistz256_point_add e row6 row1;
          row9 = ecp_nistz256_point_add e row8 row1;
          row13 = ecp_nistz256_point_add e row12 row1;
          row14 = ecp_nistz256_point_double e row7;
          row10 = ecp_nistz256_point_double e row5;
          row15 = ecp_nistz256_point_add e row14 row1;
          row11 = ecp_nistz256_point_add e row10 row1;
          row16 = ecp_nistz256_point_add e row15 row1
      in [row1, row2, row3, row4, row5, row6, row7, row8, row9, row10, row11, row12, row13,
          row14, row15, row16])"

text \<open>
  The first loop, for one pair of a scalar and a point: reduce and serialize the
  scalar, convert the coordinates, build the row. The pairs are the entries
  \<open>scalar[i]\<close>, \<open>point[i]\<close> of the two arrays.
\<close>

definition prepare_point :: "env \<Rightarrow> EC_GROUP \<Rightarrow> BIGNUM \<times> EC_POINT \<Rightarrow> error + (uint8_t list \<times> P256_POINT list)" where
  "prepare_point e grp sp =
     (case reduce_scalar e grp (fst sp) of
        Inl err \<Rightarrow> Inl err
      | Inr scalar \<Rightarrow>
          (let p_str = scalar_to_p_str scalar
           in case (ecp_nistz256_bignum_to_field_elem (ec_X (snd sp)),
                    ecp_nistz256_bignum_to_field_elem (ec_Y (snd sp)),
                    ecp_nistz256_bignum_to_field_elem (ec_Z (snd sp))) of
                (Some x, Some y, Some z) \<Rightarrow> Inr (p_str, build_table_row e \<lparr>X = x, Y = y, Z = z\<rparr>)
              | _ \<Rightarrow> Inl EC_R_COORDINATES_OUT_OF_RANGE))"

fun prepare_points :: "env \<Rightarrow> EC_GROUP \<Rightarrow> (BIGNUM \<times> EC_POINT) list \<Rightarrow> error + (uint8_t list \<times> P256_POINT list) list" where
  "prepare_points e grp [] = Inr []"
| "prepare_points e grp (sp # sps) =
     (case prepare_point e grp sp of
        Inl err \<Rightarrow> Inl err
      | Inr item \<Rightarrow>
          (case prepare_points e grp sps of
             Inl err \<Rightarrow> Inl err
           | Inr items \<Rightarrow> Inr (item # items)))"

text \<open>The body of the inner loop over the points, for one window position.\<close>

definition add_window :: "env \<Rightarrow> nat \<Rightarrow> P256_POINT \<Rightarrow> uint8_t list \<times> P256_POINT list \<Rightarrow> P256_POINT" where
  "add_window e index r item =
     (let wvalue = window_w5 (fst item) index;
          wvalue = booth_recode_w5 wvalue;
          h = ecp_nistz256_select_w5 (snd item) (drop_bit 1 wvalue);
          h = conditional_negate h wvalue
      in ecp_nistz256_point_add e r h)"

text \<open>\<open>while (index >= 5)\<close>: at \<open>index = 255\<close> the first point is skipped.\<close>

function window_loop :: "env \<Rightarrow> (uint8_t list \<times> P256_POINT list) list \<Rightarrow> nat \<Rightarrow> P256_POINT \<Rightarrow> P256_POINT" where
  "window_loop e items index r =
     (if 5 \<le> index then
        (let r = foldl (add_window e index) r (if index = 255 then tl items else items);
             index = index - 5;
             r = (ecp_nistz256_point_double e ^^ 5) r
         in window_loop e items index r)
      else r)"
  by pat_completeness auto
termination
  by (relation "measure (\<lambda>(e, items, index, r). index)") simp_all

declare window_loop.simps [simp del]

definition add_final_window :: "env \<Rightarrow> P256_POINT \<Rightarrow> uint8_t list \<times> P256_POINT list \<Rightarrow> P256_POINT" where
  "add_final_window e r item =
     (let wvalue = final_window_w5 (fst item);
          wvalue = booth_recode_w5 wvalue;
          h = ecp_nistz256_select_w5 (snd item) (drop_bit 1 wvalue);
          h = conditional_negate h wvalue
      in ecp_nistz256_point_add e r h)"

text \<open>
  \<open>ecp_nistz256_windowed_mul\<close> returns nothing: when it bails out (\<open>goto err\<close>) it has
  not written \<open>r\<close>, and the error it reports stays on the error queue. The model
  returns that error, or the point written to \<open>r\<close>. \<open>sizeof(P256_POINT)\<close> is 96. The
  function is called with at least one point.
\<close>

definition ecp_nistz256_windowed_mul :: "env \<Rightarrow> EC_GROUP \<Rightarrow> (BIGNUM \<times> EC_POINT) list \<Rightarrow> error + P256_POINT" where
  "ecp_nistz256_windowed_mul e grp sps =
     (let num = length sps
      in if malloc_ok e (num * 16 * 96 + 64) \<and> malloc_ok e (num * 33 * 1) \<and> malloc_ok e (num * 8)
         then
           (case prepare_points e grp sps of
              Inl err \<Rightarrow> Inl err
            | Inr items \<Rightarrow>
                (let wvalue = first_window_w5 (fst (items ! 0));
                     r = ecp_nistz256_select_w5 (snd (items ! 0)) (drop_bit 1 (booth_recode_w5 wvalue));
                     r = window_loop e items 255 r;
                     r = foldl (add_final_window e) r items
                 in Inr r))
         else Inl ERR_R_MALLOC_FAILURE)"

section \<open>ecp_nistz256_points_mul\<close>

definition BN_MASK2 :: BN_ULONG where
  "BN_MASK2 = 0xffffffffffffffff"

definition is_zero :: "BN_ULONG \<Rightarrow> BN_ULONG" where
  "is_zero in' =
     (let in1 = in' OR (0 - in');
          in2 = NOT in1;
          in3 = in2 AND BN_MASK2
      in drop_bit (64 - 1) in3)"

definition is_equal :: "felem \<Rightarrow> felem \<Rightarrow> BN_ULONG" where
  "is_equal a b =
     (case (a, b) of ((a0, a1, a2, a3), (b0, b1, b2, b3)) \<Rightarrow>
        (let res = a0 XOR b0;
             res = res OR (a1 XOR b1);
             res = res OR (a2 XOR b2);
             res = res OR (a3 XOR b3)
         in is_zero res))"

definition is_one :: "felem \<Rightarrow> BN_ULONG" where
  "is_one a =
     (case (a, ONE) of ((a0, a1, a2, a3), (o0, o1, o2, o3)) \<Rightarrow>
        (let res = a0 XOR o0;
             res = res OR (a1 XOR o1);
             res = res OR (a2 XOR o2);
             res = res OR (a3 XOR o3)
         in is_zero res))"

definition def_xG :: felem where
  "def_xG = (0x79e730d418a9143c, 0x75ba95fc5fedb601, 0x79fb732b77622510, 0x18905f76a53755c6)"

definition def_yG :: felem where
  "def_yG = (0xddf25357ce95560a, 0x8b4ab8e4ba19e45c, 0xd2e88688dd21f325, 0x8571ff1825885d85)"

definition ecp_nistz256_is_affine_G :: "EC_POINT \<Rightarrow> bool" where
  "ecp_nistz256_is_affine_G generator =
     (bn_top (ec_X generator) = P256_LIMBS \<and> bn_top (ec_Y generator) = P256_LIMBS \<and>
      bn_top (ec_Z generator) = P256_LIMBS - P256_LIMBS div 8 \<and>
      is_equal (felem_of_limbs (bn_d (ec_X generator))) def_xG \<noteq> 0 \<and>
      is_equal (felem_of_limbs (bn_d (ec_Y generator))) def_yG \<noteq> 0 \<and>
      is_one (felem_of_limbs (bn_d (ec_Z generator))) \<noteq> 0)"

text \<open>
  The generator path. The unions \<open>p\<close> and \<open>t\<close> overlay a \<open>P256_POINT\<close> and a
  \<open>P256_POINT_AFFINE\<close>: the affine view is the \<open>X\<close> and \<open>Y\<close> of the point, and
  \<open>Z\<close> serves as scratch space for the negated \<open>Y\<close>. First window:
\<close>

definition generator_first_window :: "env \<Rightarrow> uint8_t list \<Rightarrow> P256_POINT" where
  "generator_first_window e p_str =
     (let wvalue = first_window_w7 p_str;
          wvalue = booth_recode_w7 wvalue;
          a = ecp_nistz256_select_w7 (ecp_nistz256_precomputed e ! 0) (drop_bit 1 wvalue);
          p = \<lparr>X = aff_X a, Y = aff_Y a, Z = ecp_nistz256_neg (aff_Y a)\<rparr>;
          p = p\<lparr>Y := copy_conditional (Y p) (Z p) (ucast (wvalue AND 1))\<rparr>
      in p\<lparr>Z := ONE\<rparr>)"

text \<open>The body of \<open>for (i = 1; i < 37; i++)\<close>, on the state \<open>(p, t, index)\<close>.\<close>

definition generator_window :: "env \<Rightarrow> uint8_t list \<Rightarrow> P256_POINT \<times> P256_POINT \<times> nat \<Rightarrow> nat \<Rightarrow> P256_POINT \<times> P256_POINT \<times> nat" where
  "generator_window e p_str state i =
     (case state of (p, t, index) \<Rightarrow>
        (let wvalue = window_w7 p_str index;
             index = index + 7;
             wvalue = booth_recode_w7 wvalue;
             a = ecp_nistz256_select_w7 (ecp_nistz256_precomputed e ! i) (drop_bit 1 wvalue);
             t = \<lparr>X = aff_X a, Y = aff_Y a, Z = ecp_nistz256_neg (aff_Y a)\<rparr>;
             t = t\<lparr>Y := copy_conditional (Y t) (Z t) (ucast (wvalue AND 1))\<rparr>;
             p = ecp_nistz256_point_add_affine e p \<lparr>aff_X = X t, aff_Y = Y t\<rparr>
         in (p, t, index)))"

definition generator_mul :: "env \<Rightarrow> uint8_t list \<Rightarrow> P256_POINT \<times> P256_POINT" where
  "generator_mul e p_str =
     (case foldl (generator_window e p_str) (generator_first_window e p_str, uninit_t e, 7) [1..<37] of
        (p, t, index) \<Rightarrow> (p, t))"

text \<open>
  Modelled from the spec: \<open>EC_POINT_set_to_infinity\<close> and \<open>bn_correct_top\<close> are not
  among the sources. "Z = 0 denotes the point at infinity"; normalization of the
  integer storage lowers \<open>top\<close> past the most significant zero limbs (and a zero is
  not negative).
\<close>

definition EC_POINT_set_to_infinity :: "EC_POINT \<Rightarrow> EC_POINT" where
  "EC_POINT_set_to_infinity point = point\<lparr>ec_Z := \<lparr>bn_d = [], bn_neg = False\<rparr>\<rparr>"

definition bn_correct_top :: "BIGNUM \<Rightarrow> BIGNUM" where
  "bn_correct_top bn =
     (let ds = rev (dropWhile (\<lambda>l. l = 0) (rev (bn_d bn)))
      in \<lparr>bn_d = ds, bn_neg = (if ds = [] then False else bn_neg bn)\<rparr>)"

text \<open>The write-back: four limbs are copied into each coordinate, then \<open>top\<close> is corrected.\<close>

definition store_felem :: "BIGNUM \<Rightarrow> felem \<Rightarrow> BIGNUM" where
  "store_felem bn a =
     (case a of (a0, a1, a2, a3) \<Rightarrow> bn_correct_top (bn\<lparr>bn_d := [a0, a1, a2, a3]\<rparr>))"

definition store_point :: "EC_POINT \<Rightarrow> P256_POINT \<Rightarrow> EC_POINT" where
  "store_point r p =
     \<lparr>ec_X = store_felem (ec_X r) (X p), ec_Y = store_felem (ec_Y r) (Y p),
      ec_Z = store_felem (ec_Z r) (Z p)\<rparr>"

text \<open>
  The part of \<open>ecp_nistz256_points_mul\<close> after the generator has been dealt with:
  \<open>p\<close> and \<open>t\<close> are the two unions, \<open>scalar\<close> and \<open>generator\<close> are appended to the
  arrays when there is no precomputed table for the generator. The general path cannot
  report failure, so its error is dropped and \<open>out\<close> keeps what it held.
\<close>

definition points_mul_rest ::
  "env \<Rightarrow> EC_GROUP \<Rightarrow> EC_POINT \<Rightarrow> (BIGNUM \<times> EC_POINT) list \<Rightarrow> (BIGNUM \<times> EC_POINT) option
     \<Rightarrow> bool \<Rightarrow> P256_POINT \<Rightarrow> P256_POINT \<Rightarrow> error + EC_POINT" where
  "points_mul_rest e grp r sps no_precomp_for_generator p_is_infinity p t =
     (let num = length sps
      in case
           (case no_precomp_for_generator of
              None \<Rightarrow> Inr sps
            | Some sg \<Rightarrow>
                (if 0xffffff < num then Inl ERR_R_MALLOC_FAILURE
                 else if malloc_ok e ((num + 1) * 8) then Inr (sps @ [sg])
                 else Inl ERR_R_MALLOC_FAILURE))
         of
           Inl err \<Rightarrow> Inl err
         | Inr sps' \<Rightarrow>
             (let p' =
                (if sps' = [] then p
                 else
                   (let out = (if p_is_infinity then p else t);
                        out = (case ecp_nistz256_windowed_mul e grp sps' of
                                 Inl err \<Rightarrow> out
                               | Inr v \<Rightarrow> v)
                    in if p_is_infinity then out else ecp_nistz256_point_add e p out))
              in Inr (store_point r p')))"

definition ecp_nistz256_points_mul ::
  "env \<Rightarrow> EC_GROUP \<Rightarrow> EC_POINT \<Rightarrow> BIGNUM option \<Rightarrow> (BIGNUM \<times> EC_POINT) list \<Rightarrow> error + EC_POINT" where
  "ecp_nistz256_points_mul e grp r scalar sps =
     (if scalar = None \<and> sps = [] then Inr (EC_POINT_set_to_infinity r)
      else
        (case scalar of
           None \<Rightarrow> points_mul_rest e grp r sps None True (uninit_p e) (uninit_t e)
         | Some k \<Rightarrow>
             (case group_generator grp of
                None \<Rightarrow> Inl EC_R_UNDEFINED_GENERATOR
              | Some generator \<Rightarrow>
                  (if ecp_nistz256_is_affine_G generator then
                     (case reduce_scalar e grp k of
                        Inl err \<Rightarrow> Inl err
                      | Inr k' \<Rightarrow>
                          (case generator_mul e (scalar_to_p_str k') of
                             (p, t) \<Rightarrow> points_mul_rest e grp r sps None False p t))
                   else
                     points_mul_rest e grp r sps (Some (k, generator)) True
                       (uninit_p e) (uninit_t e)))))"

section \<open>The empty call and the bound on the number of points\<close>

lemma bit_length_bound: "n < 2 ^ m \<Longrightarrow> bit_length n \<le> m"
proof (induction m arbitrary: n)
  case 0
  then show ?case by (simp add: bit_length.simps)
next
  case (Suc m)
  show ?case
  proof (cases "n = 0")
    case True
    then show ?thesis by (simp add: bit_length.simps)
  next
    case False
    have "n div 2 < 2 ^ m" using Suc.prems by simp
    then have "bit_length (n div 2) \<le> m" by (rule Suc.IH)
    then show ?thesis using False by (subst bit_length.simps) simp
  qed
qed

lemma reduce_scalar_in_range:
  assumes "bn_top k \<le> P256_LIMBS" "\<not> bn_neg k"
  shows "reduce_scalar e grp k = Inr k"
proof -
  have "bn_top k \<le> 4" using assms(1) by (simp add: P256_LIMBS_def)
  then have "bn_val k < 2 ^ 256" by (rule bn_val_bound)
  then have "BN_num_bits k \<le> 256"
    unfolding BN_num_bits_def by (rule bit_length_bound)
  then show ?thesis
    using assms(2) by (simp add: reduce_scalar_def BN_is_negative_def)
qed

lemma points_mul_rest_succeeds: "\<exists>r'. points_mul_rest e grp r sps None is_inf p t = Inr r'"
  by (simp add: points_mul_rest_def Let_def)

text \<open>
  C9. With no base scalar and no auxiliary points the multiplication succeeds and
  yields the point at infinity (\<open>EC_POINT_set_to_infinity\<close> of the output point), and
  asking for the affine coordinates of that result fails with PointAtInfinity.
\<close>

theorem empty_points_mul_is_infinity:
  "ecp_nistz256_points_mul e grp r None [] = Inr (EC_POINT_set_to_infinity r)
   \<and> EC_POINT_is_at_infinity (EC_POINT_set_to_infinity r)
   \<and> ecp_nistz256_get_affine (EC_POINT_set_to_infinity r) want_x want_y
       = Inl EC_R_POINT_AT_INFINITY"
  by (simp add: ecp_nistz256_points_mul_def EC_POINT_set_to_infinity_def
      EC_POINT_is_at_infinity_def bn_val_def ecp_nistz256_get_affine_def)

text \<open>
  C10. When the group's generator is not the standard one (the fast path does not
  apply, so the generator joins the point list) and more than \<open>0xffffff\<close> auxiliary
  points are given, the multiplication fails with an allocation failure, whatever the
  allocator and the point arithmetic would do: nothing of them is consulted. When the
  generator is the standard one and the scalar needs no reduction, the call never fails,
  however many auxiliary points there are: the bound is not enforced there.
\<close>

theorem points_mul_num_bound:
  assumes "group_generator grp = Some generator"
    and "\<not> ecp_nistz256_is_affine_G generator"
    and "0xffffff < length sps"
    and "group_generator grp' = Some generator'"
    and "ecp_nistz256_is_affine_G generator'"
    and "bn_top k' \<le> P256_LIMBS" and "\<not> bn_neg k'"
  shows "ecp_nistz256_points_mul e grp r (Some k) sps = Inl ERR_R_MALLOC_FAILURE
       \<and> (\<exists>r'. ecp_nistz256_points_mul e' grp' r (Some k') sps' = Inr r')"
proof -
  have a: "ecp_nistz256_points_mul e grp r (Some k) sps = Inl ERR_R_MALLOC_FAILURE"
    using assms(1-3) by (simp add: ecp_nistz256_points_mul_def points_mul_rest_def Let_def)
  have "reduce_scalar e' grp' k' = Inr k'"
    using assms(6,7) by (rule reduce_scalar_in_range)
  then have b: "\<exists>r'. ecp_nistz256_points_mul e' grp' r (Some k') sps' = Inr r'"
    using assms(4,5) points_mul_rest_succeeds
    by (simp add: ecp_nistz256_points_mul_def split: prod.split)
  show ?thesis using a b by simp
qed

section \<open>Multiplying the standard generator by zero\<close>

text \<open>
  Concrete inputs: the zero scalar, the standard generator as the group stores it
  (affine, in the Montgomery domain, \<open>Z = ONE\<close>), a group that has it as generator, and
  an environment in which every allocation succeeds and the point routines return their
  first argument.
\<close>

definition bn_zero :: BIGNUM where
  "bn_zero = \<lparr>bn_d = [], bn_neg = False\<rparr>"

definition bn_of_felem :: "felem \<Rightarrow> BIGNUM" where
  "bn_of_felem a = (case a of (a0, a1, a2, a3) \<Rightarrow> \<lparr>bn_d = [a0, a1, a2, a3], bn_neg = False\<rparr>)"

definition P256_generator :: EC_POINT where
  "P256_generator = \<lparr>ec_X = bn_of_felem def_xG, ec_Y = bn_of_felem def_yG, ec_Z = bn_of_felem ONE\<rparr>"

definition P256_order :: BIGNUM where
  "P256_order = bn_of_felem
     (0xf3b9cac2fc632551, 0xbce6faada7179e84, 0xffffffffffffffff, 0xffffffff00000000)"

definition P256_group :: EC_GROUP where
  "P256_group = \<lparr>group_generator = Some P256_generator, group_order = P256_order\<rparr>"

definition point_zero :: P256_POINT where
  "point_zero = \<lparr>X = felem_zero, Y = felem_zero, Z = felem_zero\<rparr>"

definition affine_zero :: P256_POINT_AFFINE where
  "affine_zero = \<lparr>aff_X = felem_zero, aff_Y = felem_zero\<rparr>"

definition idle_env :: env where
  "idle_env = \<lparr>malloc_ok = (\<lambda>n. True), BN_CTX_get_ok = True, BN_nnmod_ok = True,
     ecp_nistz256_point_double = (\<lambda>a. a), ecp_nistz256_point_add = (\<lambda>a b. a),
     ecp_nistz256_point_add_affine = (\<lambda>a b. a), ecp_nistz256_precomputed = [],
     uninit_t = point_zero, uninit_p = point_zero\<rparr>"

lemma is_zero_0: "is_zero 0 = 1"
  by (simp add: is_zero_def BN_MASK2_def)

lemma P256_generator_is_affine_G: "ecp_nistz256_is_affine_G P256_generator"
  by (simp add: ecp_nistz256_is_affine_G_def P256_generator_def bn_of_felem_def def_xG_def
      def_yG_def ONE_def bn_top_def P256_LIMBS_def felem_of_limbs_def limb_def is_equal_def
      is_one_def is_zero_0)

lemma p_str_zero: "scalar_to_p_str bn_zero = replicate 33 0"
  by (simp add: scalar_to_p_str_def bn_zero_def bn_top_def)

lemma zero_word_of_unat: "unat w = 0 \<Longrightarrow> w = 0" for w :: unsigned
  by (simp add: unat_eq_zero)

lemma le_val_replicate_zero: "le_val (replicate n 0) = 0"
  by (rule le_val_zeros)

lemma window_w7_zero:
  assumes "0 < index" "index \<le> 256"
  shows "window_w7 (replicate 33 0) index = 0"
proof -
  have "(index - 1) div 8 + 1 < length (replicate 33 (0 :: uint8_t))"
    using assms by simp
  then have "unat (window_w7 (replicate 33 0) index) = le_val (replicate 33 0) div 2 ^ (index - 1) mod 256"
    using assms(1) by (intro unat_window_w7) simp_all
  then show ?thesis
    by (intro zero_word_of_unat) (simp add: le_val_zeros)
qed

lemma window_w5_zero:
  assumes "0 < index" "index \<le> 256"
  shows "window_w5 (replicate 33 0) index = 0"
proof -
  have "(index - 1) div 8 + 1 < length (replicate 33 (0 :: uint8_t))"
    using assms by simp
  then have "unat (window_w5 (replicate 33 0) index) = le_val (replicate 33 0) div 2 ^ (index - 1) mod 64"
    using assms(1) by (intro unat_window_w5) simp_all
  then show ?thesis
    by (intro zero_word_of_unat) (simp add: le_val_zeros)
qed

lemma first_window_w7_zero: "first_window_w7 (replicate 33 0) = 0"
  by (simp add: first_window_w7_def)

lemma first_window_w5_zero: "first_window_w5 (replicate 33 0) = 0"
  by (simp add: first_window_w5_def Let_def)

lemma final_window_w5_zero: "final_window_w5 (replicate 33 0) = 0"
  by (simp add: final_window_w5_def)

lemma booth_recode_w7_0: "booth_recode_w7 0 = 0"
  by (simp add: booth_recode_w7_def)

lemma booth_recode_w5_0: "booth_recode_w5 0 = 0"
  by (simp add: booth_recode_w5_def)

lemma select_w7_0: "ecp_nistz256_select_w7 row 0 = affine_zero"
  by (simp add: ecp_nistz256_select_w7_def affine_zero_def)

lemma select_w5_0: "ecp_nistz256_select_w5 row 0 = point_zero"
  by (simp add: ecp_nistz256_select_w5_def point_zero_def)

lemma felem_val_zero: "felem_val felem_zero = 0"
  by (simp add: felem_val_def felem_zero_def)

lemma felem_of_nat_0: "felem_of_nat 0 = felem_zero"
  by (simp add: felem_of_nat_def felem_zero_def)

lemma neg_zero: "ecp_nistz256_neg felem_zero = felem_zero"
  by (simp add: ecp_nistz256_neg_def felem_val_zero felem_of_nat_0)

lemma conditional_negate_zero: "conditional_negate point_zero 0 = point_zero"
  by (simp add: conditional_negate_def point_zero_def copy_conditional_0)

lemma generator_first_window_zero:
  "generator_first_window e (replicate 33 0) = \<lparr>X = felem_zero, Y = felem_zero, Z = ONE\<rparr>"
  by (simp add: generator_first_window_def Let_def first_window_w7_zero booth_recode_w7_0
      select_w7_0 affine_zero_def neg_zero copy_conditional_0)

lemma generator_window_zero:
  assumes "0 < index" "index \<le> 256"
  shows "generator_window e (replicate 33 0) (p, t, index) i
           = (ecp_nistz256_point_add_affine e p affine_zero, point_zero, index + 7)"
  using assms
  by (simp add: generator_window_def Let_def window_w7_zero booth_recode_w7_0 select_w7_0
      affine_zero_def neg_zero copy_conditional_0 point_zero_def)

lemma generator_windows_zero:
  assumes "0 < index" "index + 7 * length is \<le> 263"
  shows "fst (foldl (generator_window e (replicate 33 0)) (p, t, index) is)
           = ((\<lambda>a. ecp_nistz256_point_add_affine e a affine_zero) ^^ length is) p"
  using assms
proof (induction "is" arbitrary: p t index)
  case Nil
  then show ?case by simp
next
  case (Cons i "is")
  have "index \<le> 256" using Cons.prems by simp
  then have step: "generator_window e (replicate 33 0) (p, t, index) i
      = (ecp_nistz256_point_add_affine e p affine_zero, point_zero, index + 7)"
    using Cons.prems(1) by (intro generator_window_zero) simp_all
  have "fst (foldl (generator_window e (replicate 33 0))
          (ecp_nistz256_point_add_affine e p affine_zero, point_zero, index + 7) is)
      = ((\<lambda>a. ecp_nistz256_point_add_affine e a affine_zero) ^^ length is)
          (ecp_nistz256_point_add_affine e p affine_zero)"
    using Cons.prems by (intro Cons.IH) simp_all
  then show ?case
    by (simp only: foldl_Cons step length_Cons funpow_Suc_right o_apply)
qed

lemma generator_mul_zero:
  "fst (generator_mul e (replicate 33 0))
     = ((\<lambda>a. ecp_nistz256_point_add_affine e a affine_zero) ^^ 36)
         \<lparr>X = felem_zero, Y = felem_zero, Z = ONE\<rparr>"
proof -
  have "fst (foldl (generator_window e (replicate 33 0))
          (generator_first_window e (replicate 33 0), uninit_t e, 7) [1..<37])
      = ((\<lambda>a. ecp_nistz256_point_add_affine e a affine_zero) ^^ length [1..<37])
          (generator_first_window e (replicate 33 0))"
    by (rule generator_windows_zero) simp_all
  moreover obtain p t i where "foldl (generator_window e (replicate 33 0))
          (generator_first_window e (replicate 33 0), uninit_t e, 7) [1..<37] = (p, t, i)"
    using prod_cases3 by blast
  ultimately show ?thesis
    by (simp add: generator_mul_def generator_first_window_zero)
qed

lemma reduce_scalar_zero: "reduce_scalar e grp bn_zero = Inr bn_zero"
  by (rule reduce_scalar_in_range) (simp_all add: bn_zero_def bn_top_def)

lemma points_mul_generator_zero:
  "ecp_nistz256_points_mul e P256_group r (Some bn_zero) []
     = Inr (store_point r
         (((\<lambda>a. ecp_nistz256_point_add_affine e a affine_zero) ^^ 36)
            \<lparr>X = felem_zero, Y = felem_zero, Z = ONE\<rparr>))"
proof -
  obtain p t where pt: "generator_mul e (replicate 33 0) = (p, t)"
    by (cases "generator_mul e (replicate 33 0)")
  then have p: "p = ((\<lambda>a. ecp_nistz256_point_add_affine e a affine_zero) ^^ 36)
      \<lparr>X = felem_zero, Y = felem_zero, Z = ONE\<rparr>"
    using generator_mul_zero [of e] by simp
  show ?thesis
    by (simp add: ecp_nistz256_points_mul_def P256_group_def P256_generator_is_affine_G
        reduce_scalar_zero p_str_zero pt points_mul_rest_def p)
qed

lemma store_zero_one:
  "store_point r \<lparr>X = felem_zero, Y = felem_zero, Z = ONE\<rparr>
     = \<lparr>ec_X = bn_zero, ec_Y = bn_zero,
        ec_Z = \<lparr>bn_d = [0x0000000000000001, 0xffffffff00000000, 0xffffffffffffffff, 0x00000000fffffffe],
                bn_neg = bn_neg (ec_Z r)\<rparr>\<rparr>"
  by (simp add: store_point_def store_felem_def felem_zero_def ONE_def bn_correct_top_def bn_zero_def)

lemma mul_mont_zero_right: "ecp_nistz256_mul_mont a felem_zero = felem_zero"
  by (simp add: ecp_nistz256_mul_mont_def felem_val_zero felem_of_nat_0)

lemma from_mont_zero: "ecp_nistz256_from_mont felem_zero = felem_zero"
  by (simp add: ecp_nistz256_from_mont_def ecp_nistz256_mul_mont_def felem_val_zero felem_of_nat_0)

lemma get_affine_zero_one:
  "ecp_nistz256_get_affine
     \<lparr>ec_X = bn_zero, ec_Y = bn_zero,
      ec_Z = \<lparr>bn_d = [0x0000000000000001, 0xffffffff00000000, 0xffffffffffffffff, 0x00000000fffffffe],
              bn_neg = b\<rparr>\<rparr> True True
     = Inr (Some felem_zero, Some felem_zero)"
  by (simp add: ecp_nistz256_get_affine_def EC_POINT_is_at_infinity_def bn_val_def
      ecp_nistz256_bignum_to_field_elem_def bn_top_def P256_LIMBS_def bn_zero_def
      felem_of_limbs_def limb_def Let_def mul_mont_zero_right from_mont_zero
      felem_zero_def [symmetric])

lemma add_window_zero:
  assumes "ecp_nistz256_point_add e point_zero point_zero = point_zero"
    and "0 < index" "index \<le> 256"
  shows "add_window e index point_zero (replicate 33 0, row) = point_zero"
  using assms
  by (simp add: add_window_def Let_def window_w5_zero booth_recode_w5_0 select_w5_0
      conditional_negate_zero)

lemma add_final_window_zero:
  assumes "ecp_nistz256_point_add e point_zero point_zero = point_zero"
  shows "add_final_window e point_zero (replicate 33 0, row) = point_zero"
  using assms
  by (simp add: add_final_window_def Let_def final_window_w5_zero booth_recode_w5_0 select_w5_0
      conditional_negate_zero)

lemma foldl_fixed:
  assumes "\<And>x. x \<in> set xs \<Longrightarrow> f a x = a"
  shows "foldl f a xs = a"
  using assms by (induction xs) simp_all

lemma double_funpow_zero:
  assumes "ecp_nistz256_point_double e point_zero = point_zero"
  shows "(ecp_nistz256_point_double e ^^ n) point_zero = point_zero"
  using assms by (induction n) simp_all

lemma window_loop_zero:
  assumes "ecp_nistz256_point_add e point_zero point_zero = point_zero"
    and "ecp_nistz256_point_double e point_zero = point_zero"
    and "index \<le> 255"
  shows "window_loop e [(replicate 33 0, row)] index point_zero = point_zero"
  using assms(3)
proof (induction index rule: less_induct)
  case (less index)
  show ?case
  proof (cases "5 \<le> index")
    case False
    then show ?thesis by (subst window_loop.simps) simp
  next
    case True
    have w: "add_window e index point_zero (replicate 33 0, row) = point_zero"
      using assms(1) True less.prems by (intro add_window_zero) simp_all
    have "foldl (add_window e index) point_zero
            (if index = 255 then tl [(replicate 33 0, row)] else [(replicate 33 0, row)]) = point_zero"
      by (simp add: w)
    moreover have "window_loop e [(replicate 33 0, row)] (index - 5) point_zero = point_zero"
      using True less.prems by (intro less.IH) simp_all
    ultimately show ?thesis
      using True by (subst window_loop.simps) (simp add: Let_def double_funpow_zero [OF assms(2)])
  qed
qed

lemma generator_to_field_elems:
  "ecp_nistz256_bignum_to_field_elem (ec_X P256_generator) = Some def_xG
   \<and> ecp_nistz256_bignum_to_field_elem (ec_Y P256_generator) = Some def_yG
   \<and> ecp_nistz256_bignum_to_field_elem (ec_Z P256_generator) = Some ONE"
  by (simp add: ecp_nistz256_bignum_to_field_elem_def P256_generator_def bn_of_felem_def
      def_xG_def def_yG_def ONE_def bn_top_def P256_LIMBS_def felem_of_limbs_def limb_def)

lemma windowed_mul_generator_zero:
  assumes "ecp_nistz256_point_add e point_zero point_zero = point_zero"
    and "ecp_nistz256_point_double e point_zero = point_zero"
    and "malloc_ok e 1600" "malloc_ok e 33" "malloc_ok e 8"
  shows "ecp_nistz256_windowed_mul e grp [(bn_zero, P256_generator)] = Inr point_zero"
proof -
  let ?row = "build_table_row e \<lparr>X = def_xG, Y = def_yG, Z = ONE\<rparr>"
  have prep: "prepare_points e grp [(bn_zero, P256_generator)] = Inr [(replicate 33 0, ?row)]"
    by (simp add: prepare_point_def reduce_scalar_zero p_str_zero generator_to_field_elems)
  have loop: "window_loop e [(replicate 33 0, ?row)] 255 point_zero = point_zero"
    using assms(1,2) by (rule window_loop_zero) simp
  show ?thesis
    using assms(3-5)
    by (simp add: ecp_nistz256_windowed_mul_def prep Let_def first_window_w5_zero
        booth_recode_w5_0 select_w5_0 loop add_final_window_zero [OF assms(1)]
        del: prepare_points.simps)
qed

lemma store_point_zero:
  "store_point r point_zero = \<lparr>ec_X = bn_zero, ec_Y = bn_zero, ec_Z = bn_zero\<rparr>"
  by (simp add: store_point_def store_felem_def point_zero_def felem_zero_def bn_correct_top_def
      bn_zero_def)

lemma funpow_fixed: "f a = a \<Longrightarrow> (f ^^ n) a = a"
  by (induction n) simp_all

text \<open>
  C1 (evaluation at a failing input). Take the group with the standard generator, the
  base scalar 0 and no auxiliary points, and let adding the encoding of infinity
  leave a point as it is. The generator path then selects the all-zero table entry in
  every window, sets \<open>Z\<close> to \<open>ONE\<close> all the same, and the call succeeds with the
  point \<open>(0, 0, ONE)\<close>: this is not the point at infinity, although \<open>0 * G\<close> is, and
  its affine coordinates are delivered as \<open>(0, 0)\<close>.
\<close>

theorem points_mul_zero_scalar_not_infinity:
  assumes "\<forall>a. ecp_nistz256_point_add_affine e a affine_zero = a"
  shows "ecp_nistz256_points_mul e P256_group r (Some bn_zero) []
           = Inr (store_point r \<lparr>X = felem_zero, Y = felem_zero, Z = ONE\<rparr>)
       \<and> \<not> EC_POINT_is_at_infinity (store_point r \<lparr>X = felem_zero, Y = felem_zero, Z = ONE\<rparr>)
       \<and> ecp_nistz256_get_affine (store_point r \<lparr>X = felem_zero, Y = felem_zero, Z = ONE\<rparr>)
             True True = Inr (Some felem_zero, Some felem_zero)"
proof -
  have "((\<lambda>a. ecp_nistz256_point_add_affine e a affine_zero) ^^ 36)
          \<lparr>X = felem_zero, Y = felem_zero, Z = ONE\<rparr> = \<lparr>X = felem_zero, Y = felem_zero, Z = ONE\<rparr>"
    using assms by (intro funpow_fixed) simp
  then have a: "ecp_nistz256_points_mul e P256_group r (Some bn_zero) []
           = Inr (store_point r \<lparr>X = felem_zero, Y = felem_zero, Z = ONE\<rparr>)"
    by (simp add: points_mul_generator_zero)
  have b: "\<not> EC_POINT_is_at_infinity (store_point r \<lparr>X = felem_zero, Y = felem_zero, Z = ONE\<rparr>)"
    by (simp add: store_zero_one EC_POINT_is_at_infinity_def bn_val_def)
  have c: "ecp_nistz256_get_affine (store_point r \<lparr>X = felem_zero, Y = felem_zero, Z = ONE\<rparr>)
             True True = Inr (Some felem_zero, Some felem_zero)"
    by (simp only: store_zero_one get_affine_zero_one)
  show ?thesis using a b c by simp
qed

theorem points_mul_zero_scalar_not_infinity_witness:
  "ecp_nistz256_points_mul idle_env P256_group P256_generator (Some bn_zero) []
           = Inr (store_point P256_generator \<lparr>X = felem_zero, Y = felem_zero, Z = ONE\<rparr>)
   \<and> \<not> EC_POINT_is_at_infinity
         (store_point P256_generator \<lparr>X = felem_zero, Y = felem_zero, Z = ONE\<rparr>)
   \<and> ecp_nistz256_get_affine
         (store_point P256_generator \<lparr>X = felem_zero, Y = felem_zero, Z = ONE\<rparr>) True True
       = Inr (Some felem_zero, Some felem_zero)"
  using points_mul_zero_scalar_not_infinity [of idle_env P256_generator]
  by (simp add: idle_env_def)

text \<open>
  C4 (evaluation at a failing input). For the scalar 0 the two paths disagree. Let the
  point routines keep infinity fixed (adding the affine encoding of infinity changes
  nothing; doubling \<open>(0,0,0)\<close> and adding \<open>(0,0,0)\<close> to itself give \<open>(0,0,0)\<close>) and
  let the three allocations of the general path succeed. The generator path then
  yields \<open>(0, 0, ONE)\<close>, which is not the point at infinity, while the general path
  run on the standard generator with the same scalar yields \<open>(0, 0, 0)\<close>, which is.
\<close>

theorem generator_path_differs_at_zero:
  assumes "\<forall>a. ecp_nistz256_point_add_affine e a affine_zero = a"
    and "ecp_nistz256_point_add e point_zero point_zero = point_zero"
    and "ecp_nistz256_point_double e point_zero = point_zero"
    and "malloc_ok e 1600" and "malloc_ok e 33" and "malloc_ok e 8"
  shows "ecp_nistz256_points_mul e P256_group r (Some bn_zero) []
           = Inr (store_point r \<lparr>X = felem_zero, Y = felem_zero, Z = ONE\<rparr>)
       \<and> \<not> EC_POINT_is_at_infinity (store_point r \<lparr>X = felem_zero, Y = felem_zero, Z = ONE\<rparr>)
       \<and> ecp_nistz256_points_mul e P256_group r None [(bn_zero, P256_generator)]
           = Inr (store_point r point_zero)
       \<and> EC_POINT_is_at_infinity (store_point r point_zero)"
proof -
  have "((\<lambda>a. ecp_nistz256_point_add_affine e a affine_zero) ^^ 36)
          \<lparr>X = felem_zero, Y = felem_zero, Z = ONE\<rparr> = \<lparr>X = felem_zero, Y = felem_zero, Z = ONE\<rparr>"
    using assms(1) by (intro funpow_fixed) simp
  then have a: "ecp_nistz256_points_mul e P256_group r (Some bn_zero) []
           = Inr (store_point r \<lparr>X = felem_zero, Y = felem_zero, Z = ONE\<rparr>)"
    by (simp add: points_mul_generator_zero)
  have b: "\<not> EC_POINT_is_at_infinity (store_point r \<lparr>X = felem_zero, Y = felem_zero, Z = ONE\<rparr>)"
    by (simp add: store_zero_one EC_POINT_is_at_infinity_def bn_val_def)
  have "ecp_nistz256_windowed_mul e P256_group [(bn_zero, P256_generator)] = Inr point_zero"
    using assms(2-6) by (rule windowed_mul_generator_zero)
  then have c: "ecp_nistz256_points_mul e P256_group r None [(bn_zero, P256_generator)]
           = Inr (store_point r point_zero)"
    by (simp add: ecp_nistz256_points_mul_def points_mul_rest_def)
  have d: "EC_POINT_is_at_infinity (store_point r point_zero)"
    by (simp add: store_point_zero EC_POINT_is_at_infinity_def bn_val_def bn_zero_def)
  show ?thesis using a b c d by simp
qed

theorem generator_path_differs_at_zero_witness:
  "ecp_nistz256_points_mul idle_env P256_group P256_generator (Some bn_zero) []
           = Inr (store_point P256_generator \<lparr>X = felem_zero, Y = felem_zero, Z = ONE\<rparr>)
   \<and> \<not> EC_POINT_is_at_infinity
         (store_point P256_generator \<lparr>X = felem_zero, Y = felem_zero, Z = ONE\<rparr>)
   \<and> ecp_nistz256_points_mul idle_env P256_group P256_generator None [(bn_zero, P256_generator)]
           = Inr (store_point P256_generator point_zero)
   \<and> EC_POINT_is_at_infinity (store_point P256_generator point_zero)"
  using generator_path_differs_at_zero [of idle_env P256_generator]
  by (simp add: idle_env_def)

lemma zero_point_not_affine_G:
  "\<not> ecp_nistz256_is_affine_G \<lparr>ec_X = bn_zero, ec_Y = bn_zero, ec_Z = bn_zero\<rparr>"
  by (simp add: ecp_nistz256_is_affine_G_def bn_zero_def bn_top_def P256_LIMBS_def)

theorem points_mul_num_bound_witness:
  "ecp_nistz256_points_mul idle_env
       \<lparr>group_generator = Some \<lparr>ec_X = bn_zero, ec_Y = bn_zero, ec_Z = bn_zero\<rparr>,
        group_order = P256_order\<rparr>
       P256_generator (Some bn_zero) (replicate 16777216 (bn_zero, P256_generator))
     = Inl ERR_R_MALLOC_FAILURE
   \<and> (\<exists>r'. ecp_nistz256_points_mul idle_env P256_group P256_generator (Some bn_zero)
             (replicate 16777216 (bn_zero, P256_generator)) = Inr r')"
proof -
  have h1: "group_generator \<lparr>group_generator = Some \<lparr>ec_X = bn_zero, ec_Y = bn_zero, ec_Z = bn_zero\<rparr>,
        group_order = P256_order\<rparr> = Some \<lparr>ec_X = bn_zero, ec_Y = bn_zero, ec_Z = bn_zero\<rparr>"
    by simp
  have h3: "0xffffff < length (replicate 16777216 (bn_zero, P256_generator))"
    by simp
  have h4: "group_generator P256_group = Some P256_generator"
    by (simp add: P256_group_def)
  have h6: "bn_top bn_zero \<le> P256_LIMBS" and h7: "\<not> bn_neg bn_zero"
    by (simp_all add: bn_zero_def bn_top_def)
  show ?thesis
    by (rule points_mul_num_bound
          [OF h1 zero_point_not_affine_G h3 h4 P256_generator_is_affine_G h6 h7])
qed

end
